(* ===== verification/Prelude.thy ===== *)
theory Prelude
  imports Main "HOL-Library.AList" "HOL-Library.Monad_Syntax" "HOL-Library.State_Monad"
begin

text \<open>
  What every component of the development shares: Go's \<^verbatim>\<open>error\<close> values, Go maps (with
  the nil map kept apart from the empty one), the world a controller runs in, and a small
  calculus for the calls a piece of code issues.

  A controller is a state transformer over a \<open>world\<close>: \<open>env\<close> is everything outside the
  process (the API server, the network, the clock, files, environment variables and the
  configstore), of a type that is never fixed, and \<open>calls\<close> lists the calls the code has
  made so far, oldest first.  Every outgoing call may change \<open>env\<close> arbitrarily, so whatever
  other actors do between two calls of the code is covered.
\<close>

named_theorems wp \<open>rules for the calls a program issues\<close>
named_theorems yield \<open>rules for the values a program returns\<close>
named_theorems gomap_simps \<open>reading Go maps\<close>

section \<open>Errors\<close>

text \<open>
  The three API errors the code tells apart, an error with a text of its own
  (\<^verbatim>\<open>fmt.Errorf\<close> without \<^verbatim>\<open>%w\<close>, and every other library error), an error wrapped with
  \<^verbatim>\<open>%w\<close>, and a runtime panic.
\<close>

datatype err =
    ApiNotFound
  | ApiConflict
  | ApiAlreadyExists
  | ErrMsg string
  | ErrWrap string err
  | Panic string

text \<open>\<^verbatim>\<open>errors.IsNotFound\<close> and its kin look through wrapped errors.\<close>

fun isNotFound :: "err \<Rightarrow> bool" where
  "isNotFound ApiNotFound = True"
| "isNotFound (ErrWrap m e) = isNotFound e"
| "isNotFound e = False"

fun isConflict :: "err \<Rightarrow> bool" where
  "isConflict ApiConflict = True"
| "isConflict (ErrWrap m e) = isConflict e"
| "isConflict e = False"

fun isAlreadyExists :: "err \<Rightarrow> bool" where
  "isAlreadyExists ApiAlreadyExists = True"
| "isAlreadyExists (ErrWrap m e) = isAlreadyExists e"
| "isAlreadyExists e = False"

lemma api_errors_disjoint:
  "\<not> (isNotFound e \<and> isConflict e)" "\<not> (isNotFound e \<and> isAlreadyExists e)"
  "\<not> (isConflict e \<and> isAlreadyExists e)"
  by (induction e) auto

section \<open>Go maps\<close>

text \<open>
  A Go map with string keys is \<open>None\<close> (the nil map) or an association list.  Reading a nil
  map finds nothing, its length is 0, and writing to it panics.
\<close>

type_synonym 'v gomap = "(string \<times> 'v) list option"

definition emptyMap :: "'v gomap" where
  "emptyMap = Some []"

definition mapGet :: "'v gomap \<Rightarrow> string \<Rightarrow> 'v option" where
  "mapGet m k = (case m of None \<Rightarrow> None | Some al \<Rightarrow> map_of al k)"

definition mapPut :: "string \<Rightarrow> 'v \<Rightarrow> 'v gomap \<Rightarrow> err + 'v gomap" where
  "mapPut k v m = (case m of None \<Rightarrow> Inl (Panic ''assignment to entry in nil map'')
     | Some al \<Rightarrow> Inr (Some (AList.update k v al)))"

definition mapLen :: "'v gomap \<Rightarrow> nat" where
  "mapLen m = (case m of None \<Rightarrow> 0 | Some al \<Rightarrow> length al)"

definition mapKeys :: "'v gomap \<Rightarrow> string list" where
  "mapKeys m = (case m of None \<Rightarrow> [] | Some al \<Rightarrow> map fst al)"

text \<open>A Go map holds each key once.\<close>

definition mapWf :: "'v gomap \<Rightarrow> bool" where
  "mapWf m = distinct (mapKeys m)"

lemma mapGet_nil [simp]: "mapGet None k = None"
  by (simp add: mapGet_def)

lemma mapGet_empty [simp]: "mapGet emptyMap k = None"
  by (simp add: mapGet_def emptyMap_def)

lemma mapPut_nil [simp]: "mapPut k v None = Inl (Panic ''assignment to entry in nil map'')"
  by (simp add: mapPut_def)

lemma mapPut_Some [simp]: "mapPut k v (Some al) = Inr (Some (AList.update k v al))"
  by (simp add: mapPut_def)

lemma mapGet_put [gomap_simps]:
  "mapPut k v m = Inr m' \<Longrightarrow> mapGet m' k' = (if k' = k then Some v else mapGet m k')"
  by (auto simp: mapGet_def mapPut_def update_conv' split: option.splits)

lemma mapWf_put: "mapPut k v m = Inr m' \<Longrightarrow> mapWf m \<Longrightarrow> mapWf m'"
  by (auto simp: mapPut_def mapWf_def mapKeys_def distinct_update split: option.splits)

lemma mapWf_empty [simp]: "mapWf emptyMap" "mapWf None"
  by (simp_all add: mapWf_def mapKeys_def emptyMap_def)

lemma mapKeys_get: "k \<in> set (mapKeys m) \<longleftrightarrow> mapGet m k \<noteq> None"
  by (cases m) (simp_all add: mapKeys_def mapGet_def map_of_eq_None_iff)

lemma mapLen_keys: "mapLen m = length (mapKeys m)"
  by (simp add: mapLen_def mapKeys_def split: option.split)

lemma mapLen_card: "mapWf m \<Longrightarrow> mapLen m = card (set (mapKeys m))"
  by (simp add: mapLen_keys mapWf_def distinct_card)

lemma mapKeys_put: "mapPut k v m = Inr m' \<Longrightarrow> set (mapKeys m') = insert k (set (mapKeys m))"
  by (rule set_eqI) (simp add: mapKeys_get mapGet_put)

section \<open>Loops that stop at the first error\<close>

fun foldE :: "('b \<Rightarrow> 'a \<Rightarrow> err + 'a) \<Rightarrow> 'b list \<Rightarrow> 'a \<Rightarrow> err + 'a" where
  "foldE f [] a = Inr a"
| "foldE f (x # xs) a = (case f x a of Inl e \<Rightarrow> Inl e | Inr a' \<Rightarrow> foldE f xs a')"

fun mapE :: "('b \<Rightarrow> err + 'a) \<Rightarrow> 'b list \<Rightarrow> err + 'a list" where
  "mapE f [] = Inr []"
| "mapE f (x # xs) = (case f x of Inl e \<Rightarrow> Inl e
     | Inr y \<Rightarrow> (case mapE f xs of Inl e \<Rightarrow> Inl e | Inr ys \<Rightarrow> Inr (y # ys)))"

lemma mapE_Inr: "(\<And>x. x \<in> set xs \<Longrightarrow> f x = Inr (g x)) \<Longrightarrow> mapE f xs = Inr (map g xs)"
  by (induction xs) auto

lemma mapE_inverse: "(\<And>x. f (g x) = Inr x) \<Longrightarrow> mapE f (map g xs) = Inr xs"
  by (induction xs) auto

lemma mapE_length: "mapE f xs = Inr ys \<Longrightarrow> length ys = length xs"
  by (induction xs arbitrary: ys) (auto split: sum.splits)

section \<open>Programs over a world\<close>

record ('c, 'e) world =
  env :: 'e
  calls :: "'c list"

type_synonym ('c, 'e, 'a) prog = "(('c, 'e) world, 'a) state"

abbreviation ret :: "'a \<Rightarrow> ('s, 'a) state" where
  "ret \<equiv> State_Monad.return"

text \<open>An outgoing call is recorded and answered by the environment, which moves on.\<close>

definition call :: "'c \<Rightarrow> ('e \<Rightarrow> 'a \<times> 'e) \<Rightarrow> ('c, 'e, 'a) prog" where
  "call c f = State (\<lambda>w. case f (env w) of (x, e) \<Rightarrow> (x, w\<lparr>env := e, calls := calls w @ [c]\<rparr>))"

text \<open>A read of the process's own surroundings: environment variables, configstore, clock.\<close>

definition ask :: "('e \<Rightarrow> 'a) \<Rightarrow> ('c, 'e, 'a) prog" where
  "ask f = State (\<lambda>w. (f (env w), w))"

text \<open>A loop over a slice that carries a value, and one that collects a result per element.\<close>

fun foldM :: "('b \<Rightarrow> 'a \<Rightarrow> ('s, 'a) state) \<Rightarrow> 'b list \<Rightarrow> 'a \<Rightarrow> ('s, 'a) state" where
  "foldM f [] a = ret a"
| "foldM f (x # xs) a = do { a' \<leftarrow> f x a; foldM f xs a' }"

fun mapM :: "('b \<Rightarrow> ('s, 'a) state) \<Rightarrow> 'b list \<Rightarrow> ('s, 'a list) state" where
  "mapM f [] = ret []"
| "mapM f (x # xs) = do { y \<leftarrow> f x; ys \<leftarrow> mapM f xs; ret (y # ys) }"

lemma run_call [simp]:
  "run_state (call c f) w =
     (fst (f (env w)), w\<lparr>env := snd (f (env w)), calls := calls w @ [c]\<rparr>)"
  by (simp add: call_def split: prod.split)

lemma run_ask [simp]: "run_state (ask f) w = (f (env w), w)"
  by (simp add: ask_def)

section \<open>The calls a program issues\<close>

definition trace :: "('c, 'e, 'a) prog \<Rightarrow> ('c, 'e) world \<Rightarrow> 'c list" where
  "trace m w = drop (length (calls w)) (calls (snd (run_state m w)))"

definition outcome :: "('c, 'e, 'a) prog \<Rightarrow> ('c, 'e) world \<Rightarrow> 'a" where
  "outcome m w = fst (run_state m w)"

text \<open>\<open>only P m\<close>: a run only appends to the calls, and every call it appends satisfies \<open>P\<close>.
  One rule per construct makes such a fact follow the shape of the code.\<close>

definition only :: "('c \<Rightarrow> bool) \<Rightarrow> ('c, 'e, 'a) prog \<Rightarrow> bool" where
  "only P m = (\<forall>w. \<exists>cs. calls (snd (run_state m w)) = calls w @ cs \<and> list_all P cs)"

lemma only_ret [wp, intro!]: "only P (ret x)"
  by (simp add: only_def)

lemma only_ask [wp, intro!]: "only P (ask f)"
  by (simp add: only_def)

lemma only_call [wp]: "P c \<Longrightarrow> only P (call c f)"
  by (simp add: only_def)

lemma only_bind [wp]:
  assumes "only P m" "\<And>x. only P (f x)"
  shows "only P (m \<bind> f)"
proof -
  have "\<exists>cs. calls (snd (run_state (m \<bind> f) w)) = calls w @ cs \<and> list_all P cs" for w
  proof (cases "run_state m w")
    case (Pair x w')
    from assms(1)[unfolded only_def, rule_format, of w] Pair obtain cs where
      1: "calls w' = calls w @ cs" "list_all P cs" by auto
    from assms(2)[unfolded only_def, rule_format, of x w'] obtain ds where
      2: "calls (snd (run_state (f x) w')) = calls w' @ ds" "list_all P ds" by auto
    from 1 2 Pair show ?thesis by (intro exI[of _ "cs @ ds"]) simp
  qed
  then show ?thesis by (simp add: only_def)
qed

lemma only_if [wp]: "(b \<Longrightarrow> only P m) \<Longrightarrow> (\<not> b \<Longrightarrow> only P n) \<Longrightarrow> only P (if b then m else n)"
  by simp

lemma only_sum [wp]:
  "(\<And>e. x = Inl e \<Longrightarrow> only P (f e)) \<Longrightarrow> (\<And>y. x = Inr y \<Longrightarrow> only P (g y)) \<Longrightarrow>
   only P (case x of Inl e \<Rightarrow> f e | Inr y \<Rightarrow> g y)"
  by (simp split: sum.split)

lemma only_option [wp]:
  "(x = None \<Longrightarrow> only P f) \<Longrightarrow> (\<And>y. x = Some y \<Longrightarrow> only P (g y)) \<Longrightarrow>
   only P (case x of None \<Rightarrow> f | Some y \<Rightarrow> g y)"
  by (simp split: option.split)

lemma only_list [wp]:
  "(x = [] \<Longrightarrow> only P f) \<Longrightarrow> (\<And>y ys. x = y # ys \<Longrightarrow> only P (g y ys)) \<Longrightarrow>
   only P (case x of [] \<Rightarrow> f | y # ys \<Rightarrow> g y ys)"
  by (simp split: list.split)

lemma only_prod [wp]:
  "(\<And>y z. x = (y, z) \<Longrightarrow> only P (g y z)) \<Longrightarrow> only P (case x of (y, z) \<Rightarrow> g y z)"
  by (simp split: prod.split)

lemma only_let [wp]: "only P (f x) \<Longrightarrow> only P (let y = x in f y)"
  by simp

lemma only_foldM [wp]: "(\<And>x a. only P (f x a)) \<Longrightarrow> only P (foldM f xs a)"
  by (induction xs arbitrary: a) (auto intro!: wp)

lemma only_mapM [wp]: "(\<And>x. only P (f x)) \<Longrightarrow> only P (mapM f xs)"
  by (induction xs) (auto intro!: wp)

lemma only_mono: "only P m \<Longrightarrow> (\<And>c. P c \<Longrightarrow> Q c) \<Longrightarrow> only Q m"
  by (fastforce simp: only_def list_all_iff)

lemma only_conj:
  assumes "only P m" "only Q m"
  shows "only (\<lambda>c. P c \<and> Q c) m"
  unfolding only_def
proof
  fix w
  from assms(1) obtain cs where "calls (snd (run_state m w)) = calls w @ cs" "list_all P cs"
    unfolding only_def by blast
  moreover from assms(2) obtain ds where "calls (snd (run_state m w)) = calls w @ ds" "list_all Q ds"
    unfolding only_def by blast
  ultimately show "\<exists>cs. calls (snd (run_state m w)) = calls w @ cs \<and> list_all (\<lambda>c. P c \<and> Q c) cs"
    by (auto simp: list_all_iff)
qed

lemma only_trace: "only P m \<Longrightarrow> c \<in> set (trace m w) \<Longrightarrow> P c"
proof -
  assume "only P m" and c: "c \<in> set (trace m w)"
  then obtain cs where "calls (snd (run_state m w)) = calls w @ cs" "list_all P cs"
    by (auto simp: only_def)
  with c show "P c" by (simp add: trace_def list_all_iff)
qed

section \<open>The values a program returns\<close>

text \<open>
  \<open>yields Q m\<close>: whatever the environment answers, \<open>m\<close> returns a value that satisfies \<open>Q\<close>.
  The collected rules forget the intermediate values; \<open>yields_bind\<close> keeps what is known of one.
\<close>

definition yields :: "('a \<Rightarrow> bool) \<Rightarrow> ('s, 'a) state \<Rightarrow> bool" where
  "yields Q m = (\<forall>w. Q (fst (run_state m w)))"

lemma yields_ret [yield]: "Q x \<Longrightarrow> yields Q (ret x)"
  by (simp add: yields_def)

lemma yields_bind: "yields R m \<Longrightarrow> (\<And>x. R x \<Longrightarrow> yields Q (f x)) \<Longrightarrow> yields Q (m \<bind> f)"
  by (simp add: yields_def split: prod.split) (metis fst_conv)

lemma yields_bind_any [yield]: "(\<And>x. yields Q (f x)) \<Longrightarrow> yields Q (m \<bind> f)"
  by (rule yields_bind[of "\<lambda>_. True"]) (simp_all add: yields_def)

lemma yields_mono: "yields R m \<Longrightarrow> (\<And>x. R x \<Longrightarrow> Q x) \<Longrightarrow> yields Q m"
  by (simp add: yields_def)

lemma yields_if [yield]: "(b \<Longrightarrow> yields Q m) \<Longrightarrow> (\<not> b \<Longrightarrow> yields Q n) \<Longrightarrow> yields Q (if b then m else n)"
  by simp

lemma yields_sum [yield]:
  "(\<And>e. x = Inl e \<Longrightarrow> yields Q (f e)) \<Longrightarrow> (\<And>y. x = Inr y \<Longrightarrow> yields Q (g y)) \<Longrightarrow>
   yields Q (case x of Inl e \<Rightarrow> f e | Inr y \<Rightarrow> g y)"
  by (simp split: sum.split)

lemma yields_option [yield]:
  "(x = None \<Longrightarrow> yields Q f) \<Longrightarrow> (\<And>y. x = Some y \<Longrightarrow> yields Q (g y)) \<Longrightarrow>
   yields Q (case x of None \<Rightarrow> f | Some y \<Rightarrow> g y)"
  by (simp split: option.split)

lemma yields_list [yield]:
  "(x = [] \<Longrightarrow> yields Q f) \<Longrightarrow> (\<And>y ys. x = y # ys \<Longrightarrow> yields Q (g y ys)) \<Longrightarrow>
   yields Q (case x of [] \<Rightarrow> f | y # ys \<Rightarrow> g y ys)"
  by (simp split: list.split)

lemma yields_prod [yield]:
  "(\<And>y z. x = (y, z) \<Longrightarrow> yields Q (g y z)) \<Longrightarrow> yields Q (case x of (y, z) \<Rightarrow> g y z)"
  by (simp split: prod.split)

lemma yields_let [yield]: "yields Q (f x) \<Longrightarrow> yields Q (let y = x in f y)"
  by simp

lemma yields_ask [yield]: "(\<And>e. Q (f e)) \<Longrightarrow> yields Q (ask f)"
  by (simp add: yields_def)

lemma yields_call [yield]: "(\<And>e. Q (fst (f e))) \<Longrightarrow> yields Q (call c f)"
  by (simp add: yields_def)

lemma yields_mapM: "(\<And>x. x \<in> set xs \<Longrightarrow> yields (R x) (f x)) \<Longrightarrow> yields (list_all2 R xs) (mapM f xs)"
proof (induction xs)
  case (Cons x xs)
  have "yields (R x) (f x)" "yields (list_all2 R xs) (mapM f xs)" using Cons by simp_all
  then show ?case
    unfolding mapM.simps by (intro yields_bind[of "R x"] yields_bind[of "list_all2 R xs"] yields_ret) auto
qed (simp add: yields_def)

text \<open>A loop: \<open>R\<close> relates the elements done so far to the value carried.\<close>

lemma yields_foldM:
  assumes "\<And>before x b. x \<in> set xs \<Longrightarrow> R before b \<Longrightarrow> yields (R (before @ [x])) (f x b)" "R before b"
  shows "yields (R (before @ xs)) (foldM f xs b)"
  using assms
proof (induction xs arbitrary: before b)
  case (Cons x xs)
  have "yields (R (before @ [x])) (f x b)" using Cons.prems by simp
  moreover have "yields (R ((before @ [x]) @ xs)) (foldM f xs y)" if "R (before @ [x]) y" for y
    using Cons.prems(1) that by (intro Cons.IH) auto
  ultimately show ?case unfolding foldM.simps by (auto intro: yields_bind)
qed (simp add: yields_def)

text \<open>The calls of what follows a value, when something is known of the value.\<close>

lemma only_bind_yields:
  assumes "only P m" "yields R m" "\<And>x. R x \<Longrightarrow> only P (f x)"
  shows "only P (m \<bind> f)"
proof -
  have "\<exists>cs. calls (snd (run_state (m \<bind> f) w)) = calls w @ cs \<and> list_all P cs" for w
  proof (cases "run_state m w")
    case (Pair x w')
    from assms(2) Pair have "R x" unfolding yields_def by (metis fst_conv)
    from assms(1)[unfolded only_def, rule_format, of w] Pair obtain cs where
      1: "calls w' = calls w @ cs" "list_all P cs" by auto
    from assms(3)[OF \<open>R x\<close>, unfolded only_def, rule_format, of w'] obtain ds where
      2: "calls (snd (run_state (f x) w')) = calls w' @ ds" "list_all P ds" by auto
    from 1 2 Pair show ?thesis by (intro exI[of _ "cs @ ds"]) simp
  qed
  then show ?thesis by (simp add: only_def)
qed

lemma trace_call_bind:
  assumes "only P (g (fst (f (env w))))"
  shows "trace (call c f \<bind> g) w = c # trace (g (fst (f (env w))))
     (w\<lparr>env := snd (f (env w)), calls := calls w @ [c]\<rparr>)"
proof -
  let ?w = "w\<lparr>env := snd (f (env w)), calls := calls w @ [c]\<rparr>"
  from assms obtain cs where "calls (snd (run_state (g (fst (f (env w)))) ?w)) = calls ?w @ cs"
    unfolding only_def by blast
  then show ?thesis by (simp add: trace_def)
qed

lemma trace_bind:
  assumes "only P m" "\<And>x. only Q (f x)"
  shows "trace (m \<bind> f) w = trace m w @ trace (f (outcome m w)) (snd (run_state m w))"
proof (cases "run_state m w")
  case (Pair x w')
  from assms(1)[unfolded only_def, rule_format, of w] Pair obtain cs where
    1: "calls w' = calls w @ cs" by auto
  from assms(2)[of x, unfolded only_def, rule_format, of w'] obtain ds where
    2: "calls (snd (run_state (f x) w')) = calls w' @ ds" by auto
  from 1 2 Pair show ?thesis by (simp add: trace_def outcome_def)
qed

lemma outcome_bind: "outcome (m \<bind> f) w = outcome (f (outcome m w)) (snd (run_state m w))"
  by (simp add: outcome_def split: prod.split)

lemma only_list_all: "only P m \<Longrightarrow> list_all P (trace m w)"
  by (auto simp: list_all_iff dest: only_trace)

lemma list_all_call_bind:
  "P c \<Longrightarrow> only P (g (fst (f (env w)))) \<Longrightarrow> list_all P (trace (call c f \<bind> g) w)"
  by (simp add: trace_call_bind only_list_all)

text \<open>From one given world: what is known of the first value there decides the rest.\<close>

lemma outcome_then: "R (outcome m w) \<Longrightarrow> (\<And>x. R x \<Longrightarrow> yields Q (f x)) \<Longrightarrow> Q (outcome (m \<bind> f) w)"
  by (simp add: yields_def outcome_def split: prod.split) (metis fst_conv)

lemma yields_outcome: "yields Q m \<Longrightarrow> Q (outcome m w)"
  by (simp add: yields_def outcome_def)

end
