(* ===== verification/GoStrings.thy ===== *)
theory GoStrings
  imports Prelude "HOL-Library.Char_ord" "HOL-Library.List_Lexorder"
begin

text \<open>
  The parts of Go's \<^verbatim>\<open>strings\<close>, \<^verbatim>\<open>fmt\<close> and \<^verbatim>\<open>encoding/base64\<close> packages the operator
  uses.  A Go string is a sequence of bytes, hence an HOL \<open>string\<close>.  Upper and lower casing
  act on the ASCII letters: the names they are applied to are DNS labels, and the one free
  text (a configstore value) is only compared with ASCII words that no other rune maps to.
\<close>

section \<open>strings\<close>

definition ReplaceAll :: "string \<Rightarrow> char \<Rightarrow> char \<Rightarrow> string" where
  "ReplaceAll s old new = map (\<lambda>c. if c = old then new else c) s"

definition upperChar :: "char \<Rightarrow> char" where
  "upperChar c = (let n = of_char c :: nat in if 97 \<le> n \<and> n \<le> 122 then char_of (n - 32) else c)"

definition lowerChar :: "char \<Rightarrow> char" where
  "lowerChar c = (let n = of_char c :: nat in if 65 \<le> n \<and> n \<le> 90 then char_of (n + 32) else c)"

definition ToUpper :: "string \<Rightarrow> string" where
  "ToUpper s = map upperChar s"

definition ToLower :: "string \<Rightarrow> string" where
  "ToLower s = map lowerChar s"

definition TrimLeft :: "string \<Rightarrow> char \<Rightarrow> string" where
  "TrimLeft s c = dropWhile (\<lambda>x. x = c) s"

definition TrimRight :: "string \<Rightarrow> char \<Rightarrow> string" where
  "TrimRight s c = rev (dropWhile (\<lambda>x. x = c) (rev s))"

fun Join :: "string list \<Rightarrow> string \<Rightarrow> string" where
  "Join [] sep = []"
| "Join [s] sep = s"
| "Join (s # ss) sep = s @ sep @ Join ss sep"

text \<open>A raw string literal of several lines: its lines, each ended by a line feed.\<close>

definition unlines :: "string list \<Rightarrow> string" where
  "unlines ls = concat (map (\<lambda>l. l @ [CHR 0x0A]) ls)"

fun splitLines :: "string \<Rightarrow> string list" where
  "splitLines [] = [[]]"
| "splitLines (c # s) = (if c = CHR 0x0A then [] # splitLines s
     else case splitLines s of l # ls \<Rightarrow> (c # l) # ls | [] \<Rightarrow> [[c]])"

lemma splitLines_line: "CHR 0x0A \<notin> set l \<Longrightarrow> splitLines (l @ CHR 0x0A # s) = l # splitLines s"
  by (induction l) auto

lemma splitLines_unlines:
  "list_all (\<lambda>l. CHR 0x0A \<notin> set l) ls \<Longrightarrow> splitLines (unlines ls) = ls @ [[]]"
  by (induction ls) (simp_all add: unlines_def splitLines_line)

text \<open>\<^verbatim>\<open>unicode.IsSpace\<close>, each rune by its UTF-8 bytes.\<close>

definition spaces :: "string list" where
  "spaces = [[CHR 0x09], [CHR 0x0A], [CHR 0x0B], [CHR 0x0C], [CHR 0x0D], [CHR 0x20],
     [CHR 0xC2, CHR 0x85], [CHR 0xC2, CHR 0xA0], [CHR 0xE1, CHR 0x9A, CHR 0x80],
     [CHR 0xE2, CHR 0x80, CHR 0x80], [CHR 0xE2, CHR 0x80, CHR 0x81], [CHR 0xE2, CHR 0x80, CHR 0x82],
     [CHR 0xE2, CHR 0x80, CHR 0x83], [CHR 0xE2, CHR 0x80, CHR 0x84], [CHR 0xE2, CHR 0x80, CHR 0x85],
     [CHR 0xE2, CHR 0x80, CHR 0x86], [CHR 0xE2, CHR 0x80, CHR 0x87], [CHR 0xE2, CHR 0x80, CHR 0x88],
     [CHR 0xE2, CHR 0x80, CHR 0x89], [CHR 0xE2, CHR 0x80, CHR 0x8A], [CHR 0xE2, CHR 0x80, CHR 0xA8],
     [CHR 0xE2, CHR 0x80, CHR 0xA9], [CHR 0xE2, CHR 0x80, CHR 0xAF], [CHR 0xE2, CHR 0x81, CHR 0x9F],
     [CHR 0xE3, CHR 0x80, CHR 0x80]]"

function trimRunes :: "string list \<Rightarrow> string \<Rightarrow> string" where
  "trimRunes ps s =
     (case find (\<lambda>p. p \<noteq> [] \<and> take (length p) s = p) ps of
        None \<Rightarrow> s
      | Some p \<Rightarrow> trimRunes ps (drop (length p) s))"
  by pat_completeness auto
termination
proof (relation "measure (\<lambda>(ps, s). length s)")
  fix ps s p
  assume "find (\<lambda>p. p \<noteq> [] \<and> take (length p) s = p) ps = Some p"
  then have "p \<noteq> []" "take (length p) s = p" by (auto simp: find_Some_iff)
  then show "((ps, drop (length p) s), ps, s) \<in> measure (\<lambda>(ps, s). length s)"
    by (cases s) auto
qed simp

declare trimRunes.simps [simp del]

definition TrimSpace :: "string \<Rightarrow> string" where
  "TrimSpace s = rev (trimRunes (map rev spaces) (rev (trimRunes spaces s)))"

section \<open>fmt: decimal integers\<close>

definition digitChar :: "nat \<Rightarrow> char" where
  "digitChar d = char_of (48 + d)"

fun decimal :: "nat \<Rightarrow> string" where
  "decimal n = (if n < 10 then [digitChar n] else decimal (n div 10) @ [digitChar (n mod 10)])"

declare decimal.simps [simp del]

definition showInt :: "int \<Rightarrow> string" where
  "showInt i = (if i < 0 then ''-'' @ decimal (nat (- i)) else decimal (nat i))"

text \<open>Reading a numeral back, to state that no two integers print alike.\<close>

definition undecimal :: "string \<Rightarrow> nat" where
  "undecimal s = foldl (\<lambda>n c. 10 * n + (of_char c - 48)) 0 s"

lemma digitChar_of: "d < 10 \<Longrightarrow> of_char (digitChar d) = (48 + d :: nat)"
  by (simp add: digitChar_def)

lemma undecimal_decimal [simp]: "undecimal (decimal n) = n"
proof (induction n rule: decimal.induct)
  case (1 n)
  show ?case
  proof (cases "n < 10")
    case True
    then show ?thesis by (simp add: decimal.simps [of n] undecimal_def digitChar_of)
  next
    case False
    with 1 have "undecimal (decimal (n div 10)) = n div 10" by simp
    then show ?thesis using False
      by (simp add: decimal.simps [of n] undecimal_def digitChar_of)
  qed
qed

lemma decimal_inj: "decimal m = decimal n \<longleftrightarrow> m = n"
  by (metis undecimal_decimal)

lemma decimal_digits: "c \<in> set (decimal n) \<Longrightarrow> \<exists>d < 10. c = digitChar d"
proof (induction n rule: decimal.induct)
  case (1 n)
  show ?case
  proof (cases "n < 10")
    case True
    with "1.prems" show ?thesis by (auto simp: decimal.simps [of n])
  next
    case False
    with "1.prems" consider "c \<in> set (decimal (n div 10))" | "c = digitChar (n mod 10)"
      by (auto simp: decimal.simps [of n])
    then show ?thesis
    proof cases
      case 1
      with False "1.IH" show ?thesis by blast
    next
      case 2
      then show ?thesis by (intro exI[of _ "n mod 10"]) simp
    qed
  qed
qed

section \<open>DNS names\<close>

text \<open>
  The characters of a Kubernetes object name (a DNS-1123 subdomain).  On these, replacing
  hyphens by underscores and upper casing loses nothing.
\<close>

definition dnsChars :: string where
  "dnsChars = ''abcdefghijklmnopqrstuvwxyz0123456789-.''"

definition dnsName :: "string \<Rightarrow> bool" where
  "dnsName s = (s \<noteq> [] \<and> list_all (\<lambda>c. c \<in> set dnsChars) s)"

definition envChar :: "char \<Rightarrow> char" where
  "envChar c = upperChar (if c = CHR ''-'' then CHR ''_'' else c)"

lemma ToUpper_ReplaceAll: "ToUpper (ReplaceAll s (CHR ''-'') (CHR ''_'')) = map envChar s"
  by (simp add: ToUpper_def ReplaceAll_def envChar_def)

lemma envChar_inj: "inj_on envChar (set dnsChars)"
proof -
  have "distinct (map envChar dnsChars)" by code_simp
  then show ?thesis by (simp add: distinct_map)
qed

lemma envName_inj:
  assumes "dnsName s" "dnsName t" "map envChar s = map envChar t"
  shows "s = t"
proof -
  from assms(1,2) have "set s \<subseteq> set dnsChars" "set t \<subseteq> set dnsChars"
    by (auto simp: dnsName_def list_all_iff)
  then show ?thesis using assms(3) envChar_inj
    by (metis inj_on_map_eq_map inj_on_subset Un_subset_iff)
qed

section \<open>base64\<close>

text \<open>\<^verbatim>\<open>base64.StdEncoding\<close>: three bytes to four characters, with \<^verbatim>\<open>=\<close> padding.\<close>

definition b64Alphabet :: string where
  "b64Alphabet = ''ABCDEFGHIJKLMNOPQRSTUVWXYZabcdefghijklmnopqrstuvwxyz0123456789+/''"

definition b64Char :: "nat \<Rightarrow> char" where
  "b64Char n = b64Alphabet ! n"

fun indexIn :: "'a \<Rightarrow> 'a list \<Rightarrow> nat option" where
  "indexIn x [] = None"
| "indexIn x (y # ys) = (if x = y then Some 0 else map_option Suc (indexIn x ys))"

definition b64Value :: "char \<Rightarrow> nat option" where
  "b64Value c = indexIn c b64Alphabet"

definition byteNat :: "char \<Rightarrow> nat" where
  "byteNat c = of_char c"

fun base64Encode :: "string \<Rightarrow> string" where
  "base64Encode [] = []"
| "base64Encode [a] =
     [b64Char (byteNat a div 4), b64Char (byteNat a mod 4 * 16), CHR ''='', CHR ''='']"
| "base64Encode [a, b] =
     [b64Char (byteNat a div 4), b64Char (byteNat a mod 4 * 16 + byteNat b div 16),
      b64Char (byteNat b mod 16 * 4), CHR ''='']"
| "base64Encode (a # b # c # s) =
     b64Char (byteNat a div 4) # b64Char (byteNat a mod 4 * 16 + byteNat b div 16) #
     b64Char (byteNat b mod 16 * 4 + byteNat c div 64) # b64Char (byteNat c mod 64) #
     base64Encode s"

text \<open>Decoding skips line breaks, takes padding in the last group only, and rejects the rest.\<close>

fun b64Quads :: "string \<Rightarrow> string option" where
  "b64Quads [] = Some []"
| "b64Quads (p # q # r # t # s) =
     (case (b64Value p, b64Value q) of
        (Some x, Some y) \<Rightarrow>
          (if r = CHR ''='' \<and> t = CHR ''='' \<and> s = [] then
             Some [char_of (x * 4 + y div 16)]
           else (case b64Value r of
             None \<Rightarrow> None
           | Some z \<Rightarrow>
              (if t = CHR ''='' \<and> s = [] then
                 Some [char_of (x * 4 + y div 16), char_of (y mod 16 * 16 + z div 4)]
               else (case b64Value t of
                 None \<Rightarrow> None
               | Some u \<Rightarrow> map_option (\<lambda>bs. char_of (x * 4 + y div 16) #
                     char_of (y mod 16 * 16 + z div 4) # char_of (z mod 4 * 64 + u) # bs)
                   (b64Quads s)))))
      | _ \<Rightarrow> None)"
| "b64Quads s = None"

definition base64Decode :: "string \<Rightarrow> string option" where
  "base64Decode s = b64Quads (filter (\<lambda>c. c \<noteq> CHR 0x0A \<and> c \<noteq> CHR 0x0D) s)"

lemma b64Value_Char: "n < 64 \<Longrightarrow> b64Value (b64Char n) = Some n"
proof -
  have "list_all (\<lambda>n. b64Value (b64Char n) = Some n) [0..<64]" by code_simp
  then show "n < 64 \<Longrightarrow> ?thesis" by (simp add: list_all_iff)
qed

lemma b64Char_plain:
  "n < 64 \<Longrightarrow> b64Char n \<noteq> CHR ''='' \<and> b64Char n \<noteq> CHR 0x0A \<and> b64Char n \<noteq> CHR 0x0D"
proof -
  have "list_all (\<lambda>n. b64Char n \<noteq> CHR ''='' \<and> b64Char n \<noteq> CHR 0x0A \<and> b64Char n \<noteq> CHR 0x0D)
          [0..<64]" by code_simp
  then show "n < 64 \<Longrightarrow> ?thesis" by (simp add: list_all_iff)
qed

lemma byteNat_lt [simp]: "byteNat c < 256"
  by (simp add: byteNat_def)

lemma b64_bounds [simp]:
  "byteNat a div 4 < 64" "byteNat a mod 4 * 16 < 64"
  "byteNat a mod 4 * 16 + byteNat b div 16 < 64" "byteNat b mod 16 * 4 < 64"
  "byteNat b mod 16 * 4 + byteNat c div 64 < 64" "byteNat c mod 64 < 64"
  using byteNat_lt[of a] byteNat_lt[of b] byteNat_lt[of c] by linarith+

lemma b64_halves [simp]:
  "byteNat b div 16 div 16 = 0" "byteNat c div 64 div 4 = 0"
  "byteNat b div 16 mod 16 = byteNat b div 16" "byteNat c div 64 mod 4 = byteNat c div 64"
proof -
  have "byteNat b div 16 < 16" "byteNat c div 64 < 4"
    using byteNat_lt[of b] byteNat_lt[of c] by linarith+
  then show "byteNat b div 16 div 16 = 0" "byteNat c div 64 div 4 = 0"
    "byteNat b div 16 mod 16 = byteNat b div 16" "byteNat c div 64 mod 4 = byteNat c div 64"
    by simp_all
qed

lemma char_of_byteNat [simp]: "char_of (byteNat c) = c"
  by (simp add: byteNat_def)

lemma b64Quads_Encode: "b64Quads (base64Encode s) = Some s"
  by (induction s rule: base64Encode.induct)
    (simp_all add: b64Value_Char b64Char_plain)

lemma base64Encode_plain:
  "filter (\<lambda>c. c \<noteq> CHR 0x0A \<and> c \<noteq> CHR 0x0D) (base64Encode s) = base64Encode s"
  by (induction s rule: base64Encode.induct) (simp_all add: b64Char_plain)

lemma base64_roundtrip [simp]: "base64Decode (base64Encode s) = Some s"
  by (simp add: base64Decode_def base64Encode_plain b64Quads_Encode)

end
