(* ===== verification/Json.thy ===== *)
theory Json
  imports GoStrings
begin

text \<open>
  The part of Go's \<^verbatim>\<open>encoding/json\<close> the operator relies on: JSON values, the compact text
  \<^verbatim>\<open>json.Marshal\<close> writes (with its HTML-safe escapes) and the grammar \<^verbatim>\<open>json.Unmarshal\<close>
  reads.  Bytes from 128 on are copied both ways, which is what Go does for well-formed UTF-8
  other than U+2028 and U+2029.  The reader runs on fuel; \<open>jsonParse\<close> gives it twice
  the length of its input, and \<open>jsonParse_print\<close> shows this reads back every printed value.
\<close>

datatype json =
    JNull
  | JBool bool
  | JNum string
  | JStr string
  | JArr "json list"
  | JObj "(string \<times> json) list"

section \<open>Writing\<close>

definition hexChar :: "nat \<Rightarrow> char" where
  "hexChar n = ''0123456789abcdef'' ! n"

definition escapeChar :: "char \<Rightarrow> string" where
  "escapeChar c =
     (if c = CHR 0x22 then [CHR 0x5C, CHR 0x22]
      else if c = CHR 0x5C then [CHR 0x5C, CHR 0x5C]
      else if c = CHR 0x08 then [CHR 0x5C, CHR ''b'']
      else if c = CHR 0x0C then [CHR 0x5C, CHR ''f'']
      else if c = CHR 0x0A then [CHR 0x5C, CHR ''n'']
      else if c = CHR 0x0D then [CHR 0x5C, CHR ''r'']
      else if c = CHR 0x09 then [CHR 0x5C, CHR ''t'']
      else if byteNat c < 32 \<or> c = CHR ''<'' \<or> c = CHR ''>'' \<or> c = CHR ''&''
        then [CHR 0x5C, CHR ''u'', CHR ''0'', CHR ''0'',
              hexChar (byteNat c div 16), hexChar (byteNat c mod 16)]
      else [c])"

definition jsonQuote :: "string \<Rightarrow> string" where
  "jsonQuote s = [CHR 0x22] @ concat (map escapeChar s) @ [CHR 0x22]"

fun jsonPrint :: "json \<Rightarrow> string" where
  "jsonPrint JNull = ''null''"
| "jsonPrint (JBool b) = (if b then ''true'' else ''false'')"
| "jsonPrint (JNum s) = s"
| "jsonPrint (JStr s) = jsonQuote s"
| "jsonPrint (JArr vs) = ''['' @ Join (map jsonPrint vs) '','' @ '']''"
| "jsonPrint (JObj kvs) =
     ''{'' @ Join (map (\<lambda>kv. jsonQuote (fst kv) @ '':'' @ jsonPrint (snd kv)) kvs) '','' @ ''}''"

section \<open>Reading\<close>

definition isWs :: "char \<Rightarrow> bool" where
  "isWs c = (c = CHR 0x20 \<or> c = CHR 0x09 \<or> c = CHR 0x0A \<or> c = CHR 0x0D)"

definition skipWs :: "string \<Rightarrow> string" where
  "skipWs s = dropWhile isWs s"

definition isDigit :: "char \<Rightarrow> bool" where
  "isDigit c = (48 \<le> byteNat c \<and> byteNat c \<le> 57)"

definition hexValue :: "char \<Rightarrow> nat option" where
  "hexValue c = (let n = byteNat c in
     if 48 \<le> n \<and> n \<le> 57 then Some (n - 48)
     else if 97 \<le> n \<and> n \<le> 102 then Some (n - 87)
     else if 65 \<le> n \<and> n \<le> 70 then Some (n - 55) else None)"

definition hex4 :: "char \<Rightarrow> char \<Rightarrow> char \<Rightarrow> char \<Rightarrow> nat option" where
  "hex4 a b c d = (case (hexValue a, hexValue b, hexValue c, hexValue d) of
      (Some w, Some x, Some y, Some z) \<Rightarrow> Some (4096 * w + 256 * x + 16 * y + z)
    | _ \<Rightarrow> None)"

definition utf8 :: "nat \<Rightarrow> string" where
  "utf8 n = (if n < 128 then [char_of n]
     else if n < 2048 then [char_of (192 + n div 64), char_of (128 + n mod 64)]
     else if n < 65536 then
       [char_of (224 + n div 4096), char_of (128 + n div 64 mod 64), char_of (128 + n mod 64)]
     else [char_of (240 + n div 262144), char_of (128 + n div 4096 mod 64),
           char_of (128 + n div 64 mod 64), char_of (128 + n mod 64)])"

definition simpleEscape :: "char \<Rightarrow> char option" where
  "simpleEscape x = (if x = CHR 0x22 \<or> x = CHR 0x5C \<or> x = CHR ''/'' then Some x
     else if x = CHR ''b'' then Some (CHR 0x08) else if x = CHR ''f'' then Some (CHR 0x0C)
     else if x = CHR ''n'' then Some (CHR 0x0A) else if x = CHR ''r'' then Some (CHR 0x0D)
     else if x = CHR ''t'' then Some (CHR 0x09) else None)"

text \<open>The second half of a surrogate pair, when the input continues with one.\<close>

definition lowSurrogate :: "string \<Rightarrow> nat option" where
  "lowSurrogate s = (case s of
      p # q # a # b # c # d # r \<Rightarrow>
        if p = CHR 0x5C \<and> q = CHR ''u'' then
          (case hex4 a b c d of
             Some n \<Rightarrow> if 56320 \<le> n \<and> n < 57344 then Some (n - 56320) else None
           | None \<Rightarrow> None)
        else None
    | _ \<Rightarrow> None)"

text \<open>The body of a string after its opening quote: its bytes and the rest of the input.\<close>

fun unquote :: "string \<Rightarrow> (string \<times> string) option" where
  "unquote [] = None"
| "unquote (c # s) =
     (if c = CHR 0x22 then Some ([], s)
      else if c = CHR 0x5C then
        (case s of [] \<Rightarrow> None
         | x # r \<Rightarrow>
           (if x = CHR ''u'' then
              (case r of a # b # c' # d # r' \<Rightarrow>
                 (case hex4 a b c' d of None \<Rightarrow> None
                  | Some n \<Rightarrow>
                     (if 55296 \<le> n \<and> n < 57344 then
                        (case lowSurrogate r' of
                           Some m \<Rightarrow>
                             (if n < 56320
                              then map_option (apfst ((@) (utf8 (65536 + 1024 * (n - 55296) + m))))
                                     (unquote (drop 6 r'))
                              else map_option (apfst ((@) (utf8 65533))) (unquote r'))
                         | None \<Rightarrow> map_option (apfst ((@) (utf8 65533))) (unquote r'))
                      else map_option (apfst ((@) (utf8 n))) (unquote r')))
               | _ \<Rightarrow> None)
            else (case simpleEscape x of None \<Rightarrow> None
                  | Some y \<Rightarrow> map_option (apfst (Cons y)) (unquote r))))
      else if byteNat c < 32 then None
      else map_option (apfst (Cons c)) (unquote s))"

definition isNumChar :: "char \<Rightarrow> bool" where
  "isNumChar c = (isDigit c \<or> c \<in> set ''+-.eE'')"

definition fracExp :: "string \<Rightarrow> bool" where
  "fracExp s =
     (let afterFrac = (case s of c # r \<Rightarrow>
            (if c = CHR ''.'' then
               (if r = [] \<or> \<not> isDigit (hd r) then None else Some (dropWhile isDigit r))
             else Some s) | [] \<Rightarrow> Some s)
      in case afterFrac of None \<Rightarrow> False
         | Some t \<Rightarrow> (case t of [] \<Rightarrow> True
             | c # r \<Rightarrow> (c = CHR ''e'' \<or> c = CHR ''E'') \<and>
                 (let r' = (case r of d # q \<Rightarrow> if d = CHR ''+'' \<or> d = CHR ''-'' then q else r
                            | [] \<Rightarrow> r)
                  in r' \<noteq> [] \<and> list_all isDigit r')))"

definition jsonNumber :: "string \<Rightarrow> bool" where
  "jsonNumber s =
     (let u = (case s of c # r \<Rightarrow> if c = CHR ''-'' then r else s | [] \<Rightarrow> s)
      in case u of [] \<Rightarrow> False
         | d # r \<Rightarrow> (if d = CHR ''0'' then fracExp r
                     else isDigit d \<and> fracExp (dropWhile isDigit r)))"

fun parseValue :: "nat \<Rightarrow> string \<Rightarrow> (json \<times> string) option"
  and parseElems :: "nat \<Rightarrow> string \<Rightarrow> (json list \<times> string) option"
  and parseMembers :: "nat \<Rightarrow> string \<Rightarrow> ((string \<times> json) list \<times> string) option"
where
  "parseValue 0 s = None"
| "parseValue (Suc n) s =
     (case skipWs s of [] \<Rightarrow> None
      | c # r \<Rightarrow>
        (if c = CHR 0x22 then map_option (apfst JStr) (unquote r)
         else if c = CHR ''['' then
           (case skipWs r of [] \<Rightarrow> None
            | d # r' \<Rightarrow> if d = CHR '']'' then Some (JArr [], r')
                else map_option (apfst JArr) (parseElems n (d # r')))
         else if c = CHR ''{'' then
           (case skipWs r of [] \<Rightarrow> None
            | d # r' \<Rightarrow> if d = CHR ''}'' then Some (JObj [], r')
                else map_option (apfst JObj) (parseMembers n (d # r')))
         else if take 4 (c # r) = ''null'' then Some (JNull, drop 4 (c # r))
         else if take 4 (c # r) = ''true'' then Some (JBool True, drop 4 (c # r))
         else if take 5 (c # r) = ''false'' then Some (JBool False, drop 5 (c # r))
         else if jsonNumber (takeWhile isNumChar (c # r))
           then Some (JNum (takeWhile isNumChar (c # r)), dropWhile isNumChar (c # r))
         else None))"
| "parseElems 0 s = None"
| "parseElems (Suc n) s =
     (case parseValue n s of None \<Rightarrow> None
      | Some (v, r) \<Rightarrow>
         (case skipWs r of [] \<Rightarrow> None
          | c # r' \<Rightarrow> if c = CHR '','' then map_option (apfst (Cons v)) (parseElems n r')
              else if c = CHR '']'' then Some ([v], r') else None))"
| "parseMembers 0 s = None"
| "parseMembers (Suc n) s =
     (case skipWs s of [] \<Rightarrow> None
      | q # r \<Rightarrow>
        (if q \<noteq> CHR 0x22 then None
         else (case unquote r of None \<Rightarrow> None
          | Some (k, r1) \<Rightarrow>
             (case skipWs r1 of [] \<Rightarrow> None
              | c # r2 \<Rightarrow>
                 (if c \<noteq> CHR '':'' then None
                  else (case parseValue n r2 of None \<Rightarrow> None
                   | Some (v, r3) \<Rightarrow>
                      (case skipWs r3 of [] \<Rightarrow> None
                       | d # r4 \<Rightarrow>
                          if d = CHR '','' then map_option (apfst (Cons (k, v))) (parseMembers n r4)
                          else if d = CHR ''}'' then Some ([(k, v)], r4) else None)))))))"

definition jsonParse :: "string \<Rightarrow> json option" where
  "jsonParse s = (case parseValue (2 * length s + 2) s of
      Some (v, r) \<Rightarrow> if skipWs r = [] then Some v else None
    | None \<Rightarrow> None)"

section \<open>Reading back what was written\<close>

lemma hexValue_hexChar: "n < 16 \<Longrightarrow> hexValue (hexChar n) = Some n"
proof -
  have "list_all (\<lambda>n. hexValue (hexChar n) = Some n) [0..<16]" by code_simp
  then show "n < 16 \<Longrightarrow> ?thesis" by (simp add: list_all_iff)
qed

lemma hexValue_0: "hexValue (CHR ''0'') = Some 0"
  by code_simp

lemma unquote_u00:
  assumes "byteNat c < 128"
  shows "unquote (CHR 0x5C # CHR ''u'' # CHR ''0'' # CHR ''0'' #
           hexChar (byteNat c div 16) # hexChar (byteNat c mod 16) # r) =
         map_option (apfst (Cons c)) (unquote r)"
proof -
  have "hexValue (hexChar (byteNat c div 16)) = Some (byteNat c div 16)"
    using byteNat_lt[of c] by (intro hexValue_hexChar) linarith
  moreover have "hexValue (hexChar (byteNat c mod 16)) = Some (byteNat c mod 16)"
    by (intro hexValue_hexChar) simp
  ultimately have "hex4 (CHR ''0'') (CHR ''0'') (hexChar (byteNat c div 16))
      (hexChar (byteNat c mod 16)) = Some (byteNat c)"
    by (simp add: hex4_def hexValue_0)
  moreover from assms have "utf8 (byteNat c) = [c]" by (simp add: utf8_def)
  moreover have "(@) [c] = Cons c" by (rule ext) simp
  ultimately show ?thesis using assms by simp
qed

lemma unquote_escape:
  "unquote (escapeChar c @ r) = map_option (apfst (Cons c)) (unquote r)"
proof (cases "byteNat c < 32 \<or> c = CHR ''<'' \<or> c = CHR ''>'' \<or> c = CHR ''&''")
  case True
  then have "byteNat c < 128" by (auto simp: byteNat_def)
  with True show ?thesis
    by (simp add: escapeChar_def unquote_u00 simpleEscape_def del: unquote.simps(2))
       (simp add: simpleEscape_def)
next
  case False
  then show ?thesis by (auto simp: escapeChar_def simpleEscape_def)
qed

lemma unquote_quote: "unquote (concat (map escapeChar s) @ CHR 0x22 # r) = Some (s, r)"
  by (induction s) (simp_all add: unquote_escape)

lemma jsonQuote_app: "jsonQuote s @ r = CHR 0x22 # concat (map escapeChar s) @ CHR 0x22 # r"
  by (simp add: jsonQuote_def)

fun jsonWf :: "json \<Rightarrow> bool" where
  "jsonWf (JNum s) = (jsonNumber s \<and> list_all isNumChar s)"
| "jsonWf (JArr vs) = list_all jsonWf vs"
| "jsonWf (JObj kvs) = list_all (\<lambda>kv. jsonWf (snd kv)) kvs"
| "jsonWf v = True"

fun jsonFuel :: "json \<Rightarrow> nat" where
  "jsonFuel (JArr vs) = Suc (sum_list (map (\<lambda>v. Suc (jsonFuel v)) vs))"
| "jsonFuel (JObj kvs) = Suc (sum_list (map (\<lambda>kv. Suc (jsonFuel (snd kv))) kvs))"
| "jsonFuel v = 1"

definition stops :: "string \<Rightarrow> bool" where
  "stops r = (case r of [] \<Rightarrow> True | c # _ \<Rightarrow> \<not> isNumChar c)"

lemma stops_simps [simp]: "stops []" "stops (CHR '','' # r)" "stops (CHR '']'' # r)"
  "stops (CHR ''}'' # r)"
  by (simp_all add: stops_def isNumChar_def isDigit_def byteNat_def)

lemma skipWs_Cons: "skipWs (c # s) = (if isWs c then skipWs s else c # s)"
  by (simp add: skipWs_def)

lemma jsonNumber_hd: "jsonNumber s \<Longrightarrow> \<exists>c t. s = c # t \<and> (c = CHR ''-'' \<or> isDigit c)"
  by (cases s) (auto simp: jsonNumber_def isDigit_def byteNat_def split: if_splits)

definition valueHead :: "char \<Rightarrow> bool" where
  "valueHead c = (c \<in> set ''[{ntf-'' \<or> c = CHR 0x22 \<or> isDigit c)"

lemma valueHead_sep: "valueHead c \<Longrightarrow> \<not> isWs c \<and> c \<noteq> CHR '']'' \<and> c \<noteq> CHR ''}''"
  by (auto simp: valueHead_def isWs_def isDigit_def byteNat_def)

lemma jsonPrint_hd: "jsonWf v \<Longrightarrow> \<exists>c t. jsonPrint v = c # t \<and> valueHead c"
  by (cases v) (auto simp: valueHead_def jsonQuote_def dest!: jsonNumber_hd)

lemma isDigit_other: "isDigit c \<Longrightarrow> c \<notin> set ''[{ntf-'' \<and> c \<noteq> CHR 0x22"
  by (auto simp: isDigit_def byteNat_def)

lemma print_scalar:
  assumes "jsonWf v" "stops r" "\<forall>vs. v \<noteq> JArr vs" "\<forall>kvs. v \<noteq> JObj kvs"
  shows "parseValue (Suc n) (jsonPrint v @ r) = Some (v, r)"
proof (cases v)
  case (JNum s)
  with assms(1) have num: "jsonNumber s" "list_all isNumChar s" by simp_all
  from jsonNumber_hd[OF num(1)] obtain c t where s: "s = c # t" "c = CHR ''-'' \<or> isDigit c"
    by blast
  from num(2) assms(2) have "takeWhile isNumChar (s @ r) = s" "dropWhile isNumChar (s @ r) = r"
    by (cases r; auto simp: stops_def list_all_iff takeWhile_append dropWhile_append)+
  moreover have "valueHead c" using s(2) by (auto simp: valueHead_def)
  then have "\<not> isWs c" using valueHead_sep by blast
  moreover have "c \<notin> set ''[{ntf'' \<and> c \<noteq> CHR 0x22"
    using s(2) isDigit_other[of c] by auto
  ultimately show ?thesis using JNum s(1) num(1) by (simp add: skipWs_Cons)
qed (use assms in \<open>auto simp: skipWs_Cons isWs_def jsonQuote_def unquote_quote\<close>)

lemma parseElems_print:
  assumes "vs \<noteq> []"
    and "\<And>v n r. v \<in> set vs \<Longrightarrow> jsonFuel v \<le> n \<Longrightarrow> stops r \<Longrightarrow>
           parseValue n (jsonPrint v @ r) = Some (v, r)"
    and "sum_list (map (\<lambda>v. Suc (jsonFuel v)) vs) \<le> n"
  shows "parseElems n (Join (map jsonPrint vs) '','' @ CHR '']'' # r) = Some (vs, r)"
  using assms
proof (induction vs arbitrary: n rule: list_nonempty_induct)
  case (single v)
  then obtain m where "n = Suc m" "jsonFuel v \<le> m" by (cases n) auto
  with single.prems(1) show ?case by (simp add: skipWs_Cons isWs_def)
next
  case (cons v vs)
  then obtain m where m: "n = Suc m" "jsonFuel v \<le> m"
    "sum_list (map (\<lambda>v. Suc (jsonFuel v)) vs) \<le> m" by (cases n) auto
  have "parseElems m (Join (map jsonPrint vs) '','' @ CHR '']'' # r) = Some (vs, r)"
    by (rule cons.IH) (use cons.prems(1) m(3) in auto)
  with m cons.hyps cons.prems(1) show ?case
    by (cases vs) (simp_all add: skipWs_Cons isWs_def)
qed

lemma parseMembers_print:
  assumes "kvs \<noteq> []"
    and "\<And>kv n r. kv \<in> set kvs \<Longrightarrow> jsonFuel (snd kv) \<le> n \<Longrightarrow> stops r \<Longrightarrow>
           parseValue n (jsonPrint (snd kv) @ r) = Some (snd kv, r)"
    and "sum_list (map (\<lambda>kv. Suc (jsonFuel (snd kv))) kvs) \<le> n"
  shows "parseMembers n (Join (map (\<lambda>kv. jsonQuote (fst kv) @ '':'' @ jsonPrint (snd kv)) kvs)
            '','' @ CHR ''}'' # r) = Some (kvs, r)"
  using assms
proof (induction kvs arbitrary: n rule: list_nonempty_induct)
  case (single kv)
  then obtain m where "n = Suc m" "jsonFuel (snd kv) \<le> m" by (cases n) auto
  with single.prems(1) show ?case
    by (cases kv) (simp add: skipWs_Cons isWs_def jsonQuote_app unquote_quote)
next
  case (cons kv kvs)
  then obtain m where m: "n = Suc m" "jsonFuel (snd kv) \<le> m"
    "sum_list (map (\<lambda>kv. Suc (jsonFuel (snd kv))) kvs) \<le> m" by (cases n) auto
  have "parseMembers m (Join (map (\<lambda>kv. jsonQuote (fst kv) @ '':'' @ jsonPrint (snd kv)) kvs)
          '','' @ CHR ''}'' # r) = Some (kvs, r)"
    by (rule cons.IH) (use cons.prems(1) m(3) in auto)
  moreover have "parseValue m (jsonPrint (snd kv) @ q) = Some (snd kv, q)" if "stops q" for q
    using cons.prems(1) m(2) that by simp
  moreover from cons.hyps obtain kv' kvs' where "kvs = kv' # kvs'" by (cases kvs) auto
  ultimately show ?case
    using m(1) by (simp add: skipWs_Cons isWs_def jsonQuote_app unquote_quote)
qed

lemma skipWs_value:
  assumes "jsonWf v"
  obtains c t where "jsonPrint v = c # t" "\<not> isWs c" "c \<noteq> CHR '']''" "c \<noteq> CHR ''}''"
  using jsonPrint_hd[OF assms] valueHead_sep by blast

lemma snd_in_snds: "snd kv \<in> Basic_BNFs.snds kv"
  by (cases kv) (simp add: snds.simps)

lemma parseValue_print:
  "jsonWf v \<Longrightarrow> jsonFuel v \<le> n \<Longrightarrow> stops r \<Longrightarrow> parseValue n (jsonPrint v @ r) = Some (v, r)"
proof (induction v arbitrary: n r)
  case (JArr vs)
  then obtain m where m: "n = Suc m" "sum_list (map (\<lambda>v. Suc (jsonFuel v)) vs) \<le> m"
    by (cases n) auto
  show ?case
  proof (cases vs)
    case Nil
    with m show ?thesis by (simp add: skipWs_Cons isWs_def)
  next
    case (Cons v vs')
    have "parseElems m (Join (map jsonPrint vs) '','' @ CHR '']'' # r) = Some (vs, r)"
      by (rule parseElems_print) (use JArr Cons m in \<open>auto simp: list_all_iff\<close>)
    moreover from JArr.prems(1) Cons have "jsonWf v" by simp
    then obtain c t where "jsonPrint v = c # t" "\<not> isWs c" "c \<noteq> CHR '']''"
      by (rule skipWs_value)
    moreover from this Cons obtain u where
      "Join (map jsonPrint vs) '','' @ CHR '']'' # r = c # u" by (cases vs') auto
    ultimately show ?thesis using m(1) by (simp add: skipWs_Cons isWs_def)
  qed
next
  case (JObj kvs)
  then obtain m where m: "n = Suc m"
    "sum_list (map (\<lambda>kv. Suc (jsonFuel (snd kv))) kvs) \<le> m" by (cases n) auto
  show ?case
  proof (cases kvs)
    case Nil
    with m show ?thesis by (simp add: skipWs_Cons isWs_def)
  next
    case (Cons kv kvs')
    let ?s = "Join (map (\<lambda>kv. jsonQuote (fst kv) @ '':'' @ jsonPrint (snd kv)) kvs) '',''"
    have "parseMembers m (?s @ CHR ''}'' # r) = Some (kvs, r)"
    proof (rule parseMembers_print)
      fix kv n r
      assume kv: "kv \<in> set kvs" "jsonFuel (snd kv) \<le> n" "stops r"
      with JObj.prems(1) have "jsonWf (snd kv)" by (auto simp: list_all_iff)
      then show "parseValue n (jsonPrint (snd kv) @ r) = Some (snd kv, r)"
        using JObj.IH[OF kv(1) snd_in_snds] kv by blast
    qed (use Cons m in simp_all)
    moreover from Cons obtain u where "?s @ CHR ''}'' # r = CHR 0x22 # u"
      by (cases kvs') (auto simp: jsonQuote_def)
    ultimately show ?thesis using m(1) by (simp add: skipWs_Cons isWs_def)
  qed
next
  case JNull
  then show ?case using print_scalar[of JNull] by (cases n) auto
next
  case (JBool b)
  then show ?case using print_scalar[of "JBool b"] by (cases n) auto
next
  case (JNum s)
  then show ?case using print_scalar[of "JNum s"] by (cases n) auto
next
  case (JStr s)
  then show ?case using print_scalar[of "JStr s"] by (cases n) auto
qed

lemma Join_length: "length (Join ss '','') + 1 = sum_list (map (\<lambda>s. Suc (length s)) ss)"
  if "ss \<noteq> []" for ss
  using that by (induction ss rule: list_nonempty_induct) (auto simp: neq_Nil_conv)

lemma jsonFuel_bound: "jsonWf v \<Longrightarrow> jsonFuel v \<le> 2 * length (jsonPrint v)"
proof (induction v)
  case (JArr vs)
  have "sum_list (map (\<lambda>v. Suc (jsonFuel v)) vs) \<le>
        sum_list (map (\<lambda>v. 2 * Suc (length (jsonPrint v))) vs)"
    by (rule sum_list_mono) (use JArr in \<open>force simp: list_all_iff\<close>)
  also have "\<dots> = 2 * sum_list (map (\<lambda>s. Suc (length s)) (map jsonPrint vs))"
    by (simp only: sum_list_const_mult map_map o_def)
  finally show ?case using Join_length[of "map jsonPrint vs"] by (cases vs) auto
next
  case (JObj kvs)
  let ?f = "\<lambda>kv. jsonQuote (fst kv) @ '':'' @ jsonPrint (snd kv)"
  have "sum_list (map (\<lambda>kv. Suc (jsonFuel (snd kv))) kvs) \<le>
        sum_list (map (\<lambda>kv. 2 * Suc (length (?f kv))) kvs)"
    by (rule sum_list_mono) (use JObj in \<open>force simp: list_all_iff snds.simps\<close>)
  also have "\<dots> = 2 * sum_list (map (\<lambda>s. Suc (length s)) (map ?f kvs))"
    by (simp only: sum_list_const_mult map_map o_def)
  finally show ?case using Join_length[of "map ?f kvs"] by (cases kvs) auto
next
  case (JNum s)
  then show ?case using jsonNumber_hd[of s] by auto
qed (auto simp: jsonQuote_def)

theorem jsonParse_print: "jsonWf v \<Longrightarrow> jsonParse (jsonPrint v) = Some v"
  using parseValue_print[of v "2 * length (jsonPrint v) + 2" "[]"] jsonFuel_bound[of v]
  by (simp add: jsonParse_def skipWs_def)

end
