(* ===== verification/Api.thy ===== *)
theory Api
  imports Json
begin

text \<open>
  The objects the operator exchanges with the Kubernetes API and the calls it makes.  The
  object types come from libraries (\<^verbatim>\<open>k8s.io/api\<close>, the krkn-operator CRDs); the records hold
  the fields the code reads or writes.  Code that is not in the repository is the parameter
  record \<open>api\<close>: the API server behind \<^verbatim>\<open>client.Client\<close>, the helper packages of
  krkn-operator, the configstore, the network, the file system.  Every function of it that
  touches the outside takes and returns the environment \<open>'e\<close>, about which nothing is assumed.
\<close>

section \<open>Objects\<close>

type_synonym nsname = "string \<times> string"  \<comment> \<open>\<^verbatim>\<open>types.NamespacedName\<close>: namespace, name\<close>
type_synonym time = int

text \<open>\<^verbatim>\<open>krknv1alpha1.ClusterHealthStatus\<close>; the first is Go's zero value, the empty string.\<close>

datatype ClusterHealthStatus =
  ClusterStatusUnset | ClusterStatusHealthy | ClusterStatusUnhealthy | ClusterStatusUnknown

record ClusterTarget =
  ClusterName :: string
  ClusterAPIURL :: string
  Online :: "bool option"
  CheckedAt :: "time option"
  ClusterStatus :: ClusterHealthStatus

record KrknTargetRequest =
  trName :: string
  trNamespace :: string
  trResourceVersion :: string
  trLabels :: "string gomap"
  trUUID :: string
  trStatus :: string
  trTargetData :: "ClusterTarget list gomap"
  trCompleted :: "time option"

text \<open>What a provider stores in a configuration is never inspected by this operator.\<close>

type_synonym ProviderConfigData = string

record KrknOperatorTargetProviderConfig =
  pcName :: string
  pcNamespace :: string
  pcResourceVersion :: string
  pcLabels :: "string gomap"
  pcUUID :: string
  pcStatus :: string
  pcConfigData :: "ProviderConfigData gomap"
  pcCreated :: "time option"
  pcCompleted :: "time option"

record KrknOperatorTargetProvider =
  pvName :: string
  pvNamespace :: string
  pvOperatorName :: string
  pvActive :: bool

record OwnerReference =
  ownerName :: string
  ownerController :: bool

record Secret =
  secName :: string
  secNamespace :: string
  secResourceVersion :: string
  secOwners :: "OwnerReference list"
  secData :: "string gomap"

record ConfigMap =
  cmName :: string
  cmNamespace :: string
  cmData :: "string gomap"

record Service =
  svcName :: string
  svcNamespace :: string
  svcPorts :: "int list"

text \<open>A ManifestWork to create: its namespace, its API group, version and kind, its content.\<close>

record ManifestWork =
  mwNamespace :: string
  mwGVK :: "string \<times> string \<times> string"
  mwObject :: json

text \<open>\<^verbatim>\<open>net/url.URL\<close>, the parts the liveness check reads or sets.\<close>

record url =
  Scheme :: string
  Host :: string
  Path :: string
  RawPath :: string
  RawQuery :: string
  Fragment :: string

text \<open>A TLS configuration as far as the code builds it: the root pool, by its origin.\<close>

datatype rootCAs = SystemRoots | EmptyRoots | OnlyCerts string

record httpResponse =
  StatusCode :: int
  StatusText :: string
  CloseError :: "err option"

text \<open>\<^verbatim>\<open>ctrl.Result\<close>: the delay after which the request comes back, in nanoseconds.\<close>

record Result =
  RequeueAfter :: nat

definition emptyResult :: Result where
  "emptyResult = \<lparr>RequeueAfter = 0\<rparr>"

type_synonym reconcileResult = "Result \<times> err option"

text \<open>What a watch delivers to a predicate; an object by its namespace and name.\<close>

datatype event =
    CreateEvent nsname
  | UpdateEvent nsname nsname  \<comment> \<open>old, new\<close>
  | DeleteEvent nsname
  | GenericEvent nsname

section \<open>Calls\<close>

datatype apiCall =
    CGetTargetRequest nsname
  | CUpdateTargetRequest KrknTargetRequest
  | CStatusUpdateTargetRequest KrknTargetRequest
  | CCleanupTargetRequests string nat
  | CGetProviderConfig nsname
  | CUpdateProviderConfigObject KrknOperatorTargetProviderConfig
  | CStatusUpdateProviderConfig KrknOperatorTargetProviderConfig
  | CCleanupProviderConfigs string nat
  | CContributeProviderConfig KrknOperatorTargetProviderConfig string string string string
  | CListProviders string
  | CListManagedClusters
  | CGetSecret nsname
  | CCreateSecret Secret
  | CUpdateSecret Secret
  | CListSecrets string
  | CGetConfigMap nsname
  | CGetManagedProxyConfiguration nsname
  | CGetManifestWork nsname
  | CCreateManifestWork ManifestWork
  | CListServices string "(string \<times> string) list"
  | CSyncConfigMap ConfigMap
  | CHttpGet "rootCAs option" url
  | CProbeCredentials string nat

section \<open>The outside world\<close>

record 'e api =
  apiGetTargetRequest :: "nsname \<Rightarrow> 'e \<Rightarrow> (err + KrknTargetRequest) \<times> 'e"
  apiUpdateTargetRequest :: "KrknTargetRequest \<Rightarrow> 'e \<Rightarrow> (err + KrknTargetRequest) \<times> 'e"
  apiStatusUpdateTargetRequest :: "KrknTargetRequest \<Rightarrow> 'e \<Rightarrow> (err + KrknTargetRequest) \<times> 'e"
  apiCleanupTargetRequests :: "string \<Rightarrow> nat \<Rightarrow> 'e \<Rightarrow> (err + nat) \<times> 'e"
  apiGetProviderConfig :: "nsname \<Rightarrow> 'e \<Rightarrow> (err + KrknOperatorTargetProviderConfig) \<times> 'e"
  apiUpdateProviderConfigObject ::
    "KrknOperatorTargetProviderConfig \<Rightarrow> 'e \<Rightarrow> (err + KrknOperatorTargetProviderConfig) \<times> 'e"
  apiStatusUpdateProviderConfig ::
    "KrknOperatorTargetProviderConfig \<Rightarrow> 'e \<Rightarrow> (err + KrknOperatorTargetProviderConfig) \<times> 'e"
  apiCleanupProviderConfigs :: "string \<Rightarrow> nat \<Rightarrow> 'e \<Rightarrow> (err + nat) \<times> 'e"
  apiContributeProviderConfig ::
    "KrknOperatorTargetProviderConfig \<Rightarrow> string \<Rightarrow> string \<Rightarrow> string \<Rightarrow> string \<Rightarrow> 'e \<Rightarrow> err option \<times> 'e"
  apiListProviders :: "string \<Rightarrow> 'e \<Rightarrow> (err + KrknOperatorTargetProvider list) \<times> 'e"
  apiListManagedClusters :: "'e \<Rightarrow> (err + json list) \<times> 'e"
  apiMarshalList :: "json list \<Rightarrow> err + string"
  apiGetSecret :: "nsname \<Rightarrow> 'e \<Rightarrow> (err + Secret) \<times> 'e"
  apiCreateSecret :: "Secret \<Rightarrow> 'e \<Rightarrow> err option \<times> 'e"
  apiUpdateSecret :: "Secret \<Rightarrow> 'e \<Rightarrow> err option \<times> 'e"
  apiListSecrets :: "string \<Rightarrow> 'e \<Rightarrow> (err + Secret list) \<times> 'e"
  apiSetControllerReference :: "KrknTargetRequest \<Rightarrow> Secret \<Rightarrow> err + Secret"
  apiGetConfigMap :: "nsname \<Rightarrow> 'e \<Rightarrow> (err + ConfigMap) \<times> 'e"
  apiGetManagedProxyConfiguration :: "nsname \<Rightarrow> 'e \<Rightarrow> (err + json) \<times> 'e"
  apiGetManifestWork :: "nsname \<Rightarrow> 'e \<Rightarrow> (err + json) \<times> 'e"
  apiCreateManifestWork :: "ManifestWork \<Rightarrow> 'e \<Rightarrow> err option \<times> 'e"
  apiListServices :: "string \<Rightarrow> (string \<times> string) list \<Rightarrow> 'e \<Rightarrow> (err + Service list) \<times> 'e"
  apiNestedString :: "json \<Rightarrow> string list \<Rightarrow> err + string option"
  apiNestedSlice :: "json \<Rightarrow> string list \<Rightarrow> err + json list option"
  apiYamlUnmarshal :: "string \<Rightarrow> err + json"
  apiSyncConfigMap :: "ConfigMap \<Rightarrow> 'e \<Rightarrow> err option \<times> 'e"
  apiGetValue :: "'e \<Rightarrow> string \<Rightarrow> string option"
  apiGetenv :: "'e \<Rightarrow> string \<Rightarrow> string"
  apiReadFile :: "string \<Rightarrow> 'e \<Rightarrow> err + string"
  apiNow :: "'e \<Rightarrow> time"
  apiUrlParse :: "string \<Rightarrow> err + url"
  apiValidCerts :: "string \<Rightarrow> bool"
  apiSystemCertPool :: "'e \<Rightarrow> err + bool"
  apiNewRequestError :: "url \<Rightarrow> err option"
  apiHttpGet :: "rootCAs option \<Rightarrow> url \<Rightarrow> 'e \<Rightarrow> (err + httpResponse) \<times> 'e"
  apiCheckClusterLiveness :: "string \<Rightarrow> nat \<Rightarrow> 'e \<Rightarrow> err option \<times> 'e"

type_synonym ('e, 'a) prog = "(apiCall, 'e, 'a) Prelude.prog"

abbreviation Get_TargetRequest :: "'e api \<Rightarrow> nsname \<Rightarrow> ('e, err + KrknTargetRequest) prog" where
  "Get_TargetRequest a n \<equiv> call (CGetTargetRequest n) (apiGetTargetRequest a n)"

abbreviation Update_TargetRequest ::
    "'e api \<Rightarrow> KrknTargetRequest \<Rightarrow> ('e, err + KrknTargetRequest) prog" where
  "Update_TargetRequest a t \<equiv> call (CUpdateTargetRequest t) (apiUpdateTargetRequest a t)"

abbreviation StatusUpdate_TargetRequest ::
    "'e api \<Rightarrow> KrknTargetRequest \<Rightarrow> ('e, err + KrknTargetRequest) prog" where
  "StatusUpdate_TargetRequest a t \<equiv>
     call (CStatusUpdateTargetRequest t) (apiStatusUpdateTargetRequest a t)"

abbreviation Cleanup_TargetRequests :: "'e api \<Rightarrow> string \<Rightarrow> nat \<Rightarrow> ('e, err + nat) prog" where
  "Cleanup_TargetRequests a ns s \<equiv> call (CCleanupTargetRequests ns s) (apiCleanupTargetRequests a ns s)"

abbreviation Get_ProviderConfig ::
    "'e api \<Rightarrow> nsname \<Rightarrow> ('e, err + KrknOperatorTargetProviderConfig) prog" where
  "Get_ProviderConfig a n \<equiv> call (CGetProviderConfig n) (apiGetProviderConfig a n)"

abbreviation Update_ProviderConfig :: "'e api \<Rightarrow> KrknOperatorTargetProviderConfig \<Rightarrow>
    ('e, err + KrknOperatorTargetProviderConfig) prog" where
  "Update_ProviderConfig a c \<equiv>
     call (CUpdateProviderConfigObject c) (apiUpdateProviderConfigObject a c)"

abbreviation StatusUpdate_ProviderConfig :: "'e api \<Rightarrow> KrknOperatorTargetProviderConfig \<Rightarrow>
    ('e, err + KrknOperatorTargetProviderConfig) prog" where
  "StatusUpdate_ProviderConfig a c \<equiv>
     call (CStatusUpdateProviderConfig c) (apiStatusUpdateProviderConfig a c)"

abbreviation Cleanup_ProviderConfigs :: "'e api \<Rightarrow> string \<Rightarrow> nat \<Rightarrow> ('e, err + nat) prog" where
  "Cleanup_ProviderConfigs a ns s \<equiv>
     call (CCleanupProviderConfigs ns s) (apiCleanupProviderConfigs a ns s)"

abbreviation Contribute_ProviderConfig :: "'e api \<Rightarrow> KrknOperatorTargetProviderConfig \<Rightarrow>
    string \<Rightarrow> string \<Rightarrow> string \<Rightarrow> string \<Rightarrow> ('e, err option) prog" where
  "Contribute_ProviderConfig a c oper cm ns schema \<equiv>
     call (CContributeProviderConfig c oper cm ns schema)
       (apiContributeProviderConfig a c oper cm ns schema)"

abbreviation List_Providers ::
    "'e api \<Rightarrow> string \<Rightarrow> ('e, err + KrknOperatorTargetProvider list) prog" where
  "List_Providers a ns \<equiv> call (CListProviders ns) (apiListProviders a ns)"

abbreviation List_ManagedClusters :: "'e api \<Rightarrow> ('e, err + json list) prog" where
  "List_ManagedClusters a \<equiv> call CListManagedClusters (apiListManagedClusters a)"

abbreviation Get_Secret :: "'e api \<Rightarrow> nsname \<Rightarrow> ('e, err + Secret) prog" where
  "Get_Secret a n \<equiv> call (CGetSecret n) (apiGetSecret a n)"

abbreviation Create_Secret :: "'e api \<Rightarrow> Secret \<Rightarrow> ('e, err option) prog" where
  "Create_Secret a s \<equiv> call (CCreateSecret s) (apiCreateSecret a s)"

abbreviation Update_Secret :: "'e api \<Rightarrow> Secret \<Rightarrow> ('e, err option) prog" where
  "Update_Secret a s \<equiv> call (CUpdateSecret s) (apiUpdateSecret a s)"

abbreviation List_Secrets :: "'e api \<Rightarrow> string \<Rightarrow> ('e, err + Secret list) prog" where
  "List_Secrets a ns \<equiv> call (CListSecrets ns) (apiListSecrets a ns)"

abbreviation Get_ConfigMap :: "'e api \<Rightarrow> nsname \<Rightarrow> ('e, err + ConfigMap) prog" where
  "Get_ConfigMap a n \<equiv> call (CGetConfigMap n) (apiGetConfigMap a n)"

abbreviation Get_ManagedProxyConfiguration :: "'e api \<Rightarrow> nsname \<Rightarrow> ('e, err + json) prog" where
  "Get_ManagedProxyConfiguration a n \<equiv>
     call (CGetManagedProxyConfiguration n) (apiGetManagedProxyConfiguration a n)"

abbreviation Get_ManifestWork :: "'e api \<Rightarrow> nsname \<Rightarrow> ('e, err + json) prog" where
  "Get_ManifestWork a n \<equiv> call (CGetManifestWork n) (apiGetManifestWork a n)"

abbreviation Create_ManifestWork :: "'e api \<Rightarrow> ManifestWork \<Rightarrow> ('e, err option) prog" where
  "Create_ManifestWork a m \<equiv> call (CCreateManifestWork m) (apiCreateManifestWork a m)"

abbreviation List_Services ::
    "'e api \<Rightarrow> string \<Rightarrow> (string \<times> string) list \<Rightarrow> ('e, err + Service list) prog" where
  "List_Services a ns ls \<equiv> call (CListServices ns ls) (apiListServices a ns ls)"

abbreviation SyncConfigMapToStore :: "'e api \<Rightarrow> ConfigMap \<Rightarrow> ('e, err option) prog" where
  "SyncConfigMapToStore a cm \<equiv> call (CSyncConfigMap cm) (apiSyncConfigMap a cm)"

abbreviation Http_Get ::
    "'e api \<Rightarrow> rootCAs option \<Rightarrow> url \<Rightarrow> ('e, err + httpResponse) prog" where
  "Http_Get a t u \<equiv> call (CHttpGet t u) (apiHttpGet a t u)"

abbreviation Check_ClusterLiveness :: "'e api \<Rightarrow> string \<Rightarrow> nat \<Rightarrow> ('e, err option) prog" where
  "Check_ClusterLiveness a k t \<equiv> call (CProbeCredentials k t) (apiCheckClusterLiveness a k t)"

abbreviation GetValue :: "'e api \<Rightarrow> string \<Rightarrow> ('e, string option) prog" where
  "GetValue a k \<equiv> ask (\<lambda>e. apiGetValue a e k)"

abbreviation Getenv :: "'e api \<Rightarrow> string \<Rightarrow> ('e, string) prog" where
  "Getenv a k \<equiv> ask (\<lambda>e. apiGetenv a e k)"

abbreviation ReadFile :: "'e api \<Rightarrow> string \<Rightarrow> ('e, err + string) prog" where
  "ReadFile a p \<equiv> ask (apiReadFile a p)"

abbreviation Now :: "'e api \<Rightarrow> ('e, time) prog" where
  "Now a \<equiv> ask (apiNow a)"

text \<open>The calls that change something: every other one only reads.\<close>

fun writes :: "apiCall \<Rightarrow> bool" where
  "writes (CUpdateTargetRequest t) = True"
| "writes (CStatusUpdateTargetRequest t) = True"
| "writes (CCleanupTargetRequests ns s) = True"
| "writes (CUpdateProviderConfigObject c) = True"
| "writes (CStatusUpdateProviderConfig c) = True"
| "writes (CCleanupProviderConfigs ns s) = True"
| "writes (CContributeProviderConfig c oper cm ns schema) = True"
| "writes (CCreateSecret s) = True"
| "writes (CUpdateSecret s) = True"
| "writes (CCreateManifestWork m) = True"
| "writes (CSyncConfigMap cm) = True"
| "writes _ = False"

end
