(* ===== verification/ProviderHelpers.thy ===== *)
theory ProviderHelpers
  imports Api
begin

text \<open>
  \<^verbatim>\<open>internal/controller/provider_helpers.go\<close>: whether this operator's provider is registered
  and active, how many providers are active, and when a request counts as complete.
  \<open>allActiveContributed\<close> is the rule the reconcilers mean to implement; the lemmas compare
  the code's count with it.
\<close>

definition StatusCompleted :: string where
  "StatusCompleted = ''Completed''"

definition StatusPending :: string where
  "StatusPending = ''pending''"

lemma status_values [simp]:
  "StatusCompleted \<noteq> []" "StatusPending \<noteq> []" "StatusCompleted \<noteq> StatusPending"
  "StatusPending \<noteq> StatusCompleted"
  by (simp_all add: StatusCompleted_def StatusPending_def)

text \<open>The provider list (nil on an error), whether to skip, the result and the error.\<close>

definition checkProviderActive :: "'e api \<Rightarrow> string \<Rightarrow> string \<Rightarrow>
    ('e, KrknOperatorTargetProvider list option \<times> bool \<times> Result \<times> err option) prog" where
  "checkProviderActive a operatorName operatorNamespace = do {
     l \<leftarrow> List_Providers a operatorNamespace;
     case l of
       Inl e \<Rightarrow> ret (None, True, emptyResult, Some e)
     | Inr items \<Rightarrow>
         (case find (\<lambda>p. pvOperatorName p = operatorName) items of
            None \<Rightarrow> ret (Some items, True, emptyResult, None)
          | Some thisProvider \<Rightarrow>
              if \<not> pvActive thisProvider then ret (Some items, True, emptyResult, None)
              else ret (Some items, False, emptyResult, None))
   }"

definition countActiveProviders :: "KrknOperatorTargetProvider list \<Rightarrow> nat" where
  "countActiveProviders items = foldl (\<lambda>n p. if pvActive p then n + 1 else n) 0 items"

definition shouldMarkAsCompleted :: "nat \<Rightarrow> nat \<Rightarrow> bool" where
  "shouldMarkAsCompleted activeProviderCount contributorCount =
     (0 < activeProviderCount \<and> activeProviderCount \<le> contributorCount)"

section \<open>Facts\<close>

lemma only_checkProviderActive [wp]:
  "P (CListProviders ns) \<Longrightarrow> only P (checkProviderActive a oper ns)"
  unfolding checkProviderActive_def by (intro wp)

lemma countActiveProviders_filter: "countActiveProviders ps = length (filter pvActive ps)"
proof -
  have "foldl (\<lambda>n p. if pvActive p then n + 1 else n) k ps = k + length (filter pvActive ps)" for k
    by (induction ps arbitrary: k) auto
  then show ?thesis by (simp add: countActiveProviders_def)
qed

definition activeNames :: "KrknOperatorTargetProvider list \<Rightarrow> string list" where
  "activeNames ps = map pvOperatorName (filter pvActive ps)"

lemma countActiveProviders_names: "countActiveProviders ps = length (activeNames ps)"
  by (simp add: countActiveProviders_filter activeNames_def)

text \<open>What "all active providers have contributed" says, name by name.\<close>

definition allActiveContributed :: "KrknOperatorTargetProvider list \<Rightarrow> 'v gomap \<Rightarrow> bool" where
  "allActiveContributed ps m =
     (activeNames ps \<noteq> [] \<and> list_all (\<lambda>n. mapGet m n \<noteq> None) (activeNames ps))"

lemma allActiveContributed_set:
  "allActiveContributed ps m \<longleftrightarrow> activeNames ps \<noteq> [] \<and> set (activeNames ps) \<subseteq> set (mapKeys m)"
  by (auto simp: allActiveContributed_def list_all_iff mapKeys_get)

text \<open>
  If the active providers have different names, having all of them in the map makes the count
  reach the threshold: the code never waits for a provider that has already contributed.
\<close>

lemma shouldMark_complete:
  assumes "mapWf m" "distinct (activeNames ps)" "allActiveContributed ps m"
  shows "shouldMarkAsCompleted (countActiveProviders ps) (mapLen m)"
proof -
  from assms(3) have sub: "set (activeNames ps) \<subseteq> set (mapKeys m)" and ne: "activeNames ps \<noteq> []"
    by (simp_all add: allActiveContributed_set)
  have "length (activeNames ps) = card (set (activeNames ps))"
    using assms(2) by (simp add: distinct_card)
  also have "\<dots> \<le> card (set (mapKeys m))" using sub by (simp add: card_mono)
  also have "\<dots> = mapLen m" using assms(1) by (simp add: mapLen_card)
  finally show ?thesis using ne
    by (simp add: shouldMarkAsCompleted_def countActiveProviders_names)
qed

text \<open>The count is also enough when only active providers have contributed.\<close>

lemma shouldMark_sound:
  assumes "mapWf m" "distinct (activeNames ps)" "set (mapKeys m) \<subseteq> set (activeNames ps)"
    and "shouldMarkAsCompleted (countActiveProviders ps) (mapLen m)"
  shows "allActiveContributed ps m"
proof -
  from assms(4) have ne: "activeNames ps \<noteq> []" and le: "length (activeNames ps) \<le> mapLen m"
    by (auto simp: shouldMarkAsCompleted_def countActiveProviders_names)
  have "card (set (activeNames ps)) \<le> card (set (mapKeys m))"
    using le assms(1,2) by (simp add: mapLen_card distinct_card)
  with assms(3) have "set (mapKeys m) = set (activeNames ps)"
    by (intro card_seteq) auto
  with ne show ?thesis by (simp add: allActiveContributed_set)
qed

section \<open>Properties\<close>

text \<open>
  Completion, counted and named: when the active providers carry different operator names
  and only active providers have contributed, marking a request as complete by comparing the
  two counts is the same as checking that every active provider's name is a key of the map.
\<close>

theorem completion_count_is_by_name:
  assumes "mapWf m" "distinct (activeNames ps)" "set (mapKeys m) \<subseteq> set (activeNames ps)"
  shows "shouldMarkAsCompleted (countActiveProviders ps) (mapLen m) \<longleftrightarrow> allActiveContributed ps m"
  using assms shouldMark_complete shouldMark_sound by blast

theorem completion_count_is_by_name_witness:
  "let p = \<lambda>n b. \<lparr>pvName = n, pvNamespace = ''ns'', pvOperatorName = n, pvActive = b\<rparr>;
       ps = [p ''acm'' True, p ''hcp'' False, p ''core'' True];
       m = Some [(''core'', ()), (''acm'', ())]
   in shouldMarkAsCompleted (countActiveProviders ps) (mapLen m) = allActiveContributed ps m
      \<and> shouldMarkAsCompleted (countActiveProviders ps) (mapLen m)"
  unfolding Let_def
  by (subst completion_count_is_by_name)
    (simp_all add: mapWf_def mapKeys_def activeNames_def allActiveContributed_def mapGet_def
      mapLen_def shouldMarkAsCompleted_def countActiveProviders_filter)

text \<open>
  The count alone does not say who contributed: with two active providers, a request that
  holds the contributions of one of them and of a provider that is no longer active is marked
  as complete although the other active provider never contributed.
\<close>

theorem completion_count_takes_inactive:
  "\<exists>ps (m :: ClusterTarget list gomap). mapWf m \<and> distinct (activeNames ps) \<and>
     shouldMarkAsCompleted (countActiveProviders ps) (mapLen m) \<and> \<not> allActiveContributed ps m"
proof -
  let ?p = "\<lambda>n b. \<lparr>pvName = n, pvNamespace = ''ns'', pvOperatorName = n, pvActive = b\<rparr>"
  let ?ps = "[?p ''acm'' True, ?p ''core'' True, ?p ''hcp'' False]"
  let ?m = "Some [(''acm'', []), (''hcp'', [])] :: ClusterTarget list gomap"
  have "mapWf ?m \<and> distinct (activeNames ?ps) \<and>
     shouldMarkAsCompleted (countActiveProviders ?ps) (mapLen ?m) \<and> \<not> allActiveContributed ?ps ?m"
    by (simp add: mapWf_def mapKeys_def mapLen_def activeNames_def allActiveContributed_def
        mapGet_def shouldMarkAsCompleted_def countActiveProviders_filter)
  then show ?thesis by blast
qed

end
