(* ===== verification/ReferenceApi.thy ===== *)
theory ReferenceApi
  imports Api
begin

text \<open>
  One concrete instance of the parameter record \<open>api\<close>: a cluster held in memory, with the
  documented behaviour of the API server (not-found errors, creation of an existing object
  refused, optimistic concurrency on the resource version, the status as a subresource), a
  network that answers by host, and a configstore.  The general theorems hold for every
  \<open>api\<close>; this one evaluates them on concrete inputs.
\<close>

record cluster =
  kRequests :: "(nsname \<times> KrknTargetRequest) list"
  kConfigs :: "(nsname \<times> KrknOperatorTargetProviderConfig) list"
  kProviders :: "KrknOperatorTargetProvider list"
  kClusters :: "json list"
  kSecrets :: "(nsname \<times> Secret) list"
  kConfigMaps :: "(nsname \<times> ConfigMap) list"
  kProxyConf :: "json option"
  kWorks :: "(string \<times> json) list"
  kServices :: "Service list"
  kStore :: "(string \<times> string) list"
  kEnviron :: "(string \<times> string) list"
  kFiles :: "(string \<times> string) list"
  kHttp :: "(string \<times> int) list"
  kBadCredentials :: "string list"
  kClock :: time

definition emptyCluster :: cluster where
  "emptyCluster = \<lparr>kRequests = [], kConfigs = [], kProviders = [], kClusters = [], kSecrets = [],
     kConfigMaps = [], kProxyConf = None, kWorks = [], kServices = [], kStore = [], kEnviron = [],
     kFiles = [], kHttp = [], kBadCredentials = [], kClock = 0\<rparr>"

definition lookupOr :: "('k \<times> 'v) list \<Rightarrow> 'k \<Rightarrow> err + 'v" where
  "lookupOr al k = (case map_of al k of None \<Rightarrow> Inl ApiNotFound | Some v \<Rightarrow> Inr v)"

definition nextVersion :: "string \<Rightarrow> string" where
  "nextVersion v = v @ ''+''"

definition refUpdateRequest ::
    "bool \<Rightarrow> KrknTargetRequest \<Rightarrow> cluster \<Rightarrow> (err + KrknTargetRequest) \<times> cluster" where
  "refUpdateRequest statusOnly t k =
     (case map_of (kRequests k) (trNamespace t, trName t) of
        None \<Rightarrow> (Inl ApiNotFound, k)
      | Some old \<Rightarrow>
          if trResourceVersion old \<noteq> trResourceVersion t then (Inl ApiConflict, k)
          else (let v = nextVersion (trResourceVersion old);
                    new = (if statusOnly
                      then old\<lparr>trStatus := trStatus t, trTargetData := trTargetData t,
                               trCompleted := trCompleted t, trResourceVersion := v\<rparr>
                      else old\<lparr>trLabels := trLabels t, trUUID := trUUID t, trResourceVersion := v\<rparr>)
                in (Inr new,
                    k\<lparr>kRequests := AList.update (trNamespace t, trName t) new (kRequests k)\<rparr>)))"

definition refUpdateConfig :: "bool \<Rightarrow> KrknOperatorTargetProviderConfig \<Rightarrow> cluster \<Rightarrow>
    (err + KrknOperatorTargetProviderConfig) \<times> cluster" where
  "refUpdateConfig statusOnly c k =
     (case map_of (kConfigs k) (pcNamespace c, pcName c) of
        None \<Rightarrow> (Inl ApiNotFound, k)
      | Some old \<Rightarrow>
          if pcResourceVersion old \<noteq> pcResourceVersion c then (Inl ApiConflict, k)
          else (let v = nextVersion (pcResourceVersion old);
                    new = (if statusOnly
                      then old\<lparr>pcStatus := pcStatus c, pcConfigData := pcConfigData c,
                               pcCreated := pcCreated c, pcCompleted := pcCompleted c,
                               pcResourceVersion := v\<rparr>
                      else old\<lparr>pcLabels := pcLabels c, pcUUID := pcUUID c, pcResourceVersion := v\<rparr>)
                in (Inr new,
                    k\<lparr>kConfigs := AList.update (pcNamespace c, pcName c) new (kConfigs k)\<rparr>)))"

definition refContribute :: "KrknOperatorTargetProviderConfig \<Rightarrow> string \<Rightarrow> string \<Rightarrow> cluster \<Rightarrow>
    err option \<times> cluster" where
  "refContribute c oper schema k =
     (let m = (case pcConfigData c of None \<Rightarrow> Some [(oper, schema)]
               | Some al \<Rightarrow> Some (AList.update oper schema al))
      in case refUpdateConfig True (c\<lparr>pcConfigData := m\<rparr>) k of
           (Inl e, k') \<Rightarrow> (Some e, k') | (Inr _, k') \<Rightarrow> (None, k'))"

definition refCreateSecret :: "Secret \<Rightarrow> cluster \<Rightarrow> err option \<times> cluster" where
  "refCreateSecret s k =
     (case map_of (kSecrets k) (secNamespace s, secName s) of
        Some _ \<Rightarrow> (Some ApiAlreadyExists, k)
      | None \<Rightarrow> (None, k\<lparr>kSecrets := ((secNamespace s, secName s), s) # kSecrets k\<rparr>))"

definition refUpdateSecret :: "Secret \<Rightarrow> cluster \<Rightarrow> err option \<times> cluster" where
  "refUpdateSecret s k =
     (case map_of (kSecrets k) (secNamespace s, secName s) of
        None \<Rightarrow> (Some ApiNotFound, k)
      | Some old \<Rightarrow>
          if secResourceVersion old \<noteq> secResourceVersion s then (Some ApiConflict, k)
          else (None, k\<lparr>kSecrets := AList.update (secNamespace s, secName s)
                  (s\<lparr>secResourceVersion := nextVersion (secResourceVersion s)\<rparr>) (kSecrets k)\<rparr>))"

definition refSetController :: "KrknTargetRequest \<Rightarrow> Secret \<Rightarrow> err + Secret" where
  "refSetController t s =
     (if list_ex (\<lambda>r. ownerController r \<and> ownerName r \<noteq> trName t) (secOwners s)
      then Inl (ErrMsg ''already owned'')
      else Inr (s\<lparr>secOwners := [\<lparr>ownerName = trName t, ownerController = True\<rparr>]\<rparr>))"

fun refNested :: "json \<Rightarrow> string list \<Rightarrow> err + json option" where
  "refNested v [] = Inr (Some v)"
| "refNested (JObj kvs) (f # fs) =
     (case map_of kvs f of None \<Rightarrow> Inr None | Some v \<Rightarrow> refNested v fs)"
| "refNested v (f # fs) = Inl (ErrMsg ''accessor error'')"

definition refNestedString :: "json \<Rightarrow> string list \<Rightarrow> err + string option" where
  "refNestedString v fs = (case refNested v fs of Inl e \<Rightarrow> Inl e | Inr None \<Rightarrow> Inr None
     | Inr (Some (JStr s)) \<Rightarrow> Inr (Some s) | Inr (Some _) \<Rightarrow> Inl (ErrMsg ''accessor error''))"

definition refNestedSlice :: "json \<Rightarrow> string list \<Rightarrow> err + json list option" where
  "refNestedSlice v fs = (case refNested v fs of Inl e \<Rightarrow> Inl e | Inr None \<Rightarrow> Inr None
     | Inr (Some (JArr vs)) \<Rightarrow> Inr (Some vs) | Inr (Some _) \<Rightarrow> Inl (ErrMsg ''accessor error''))"

definition refUrlParse :: "string \<Rightarrow> err + url" where
  "refUrlParse s =
     (let mk = \<lambda>sch r. Inr \<lparr>Scheme = sch, Host = takeWhile (\<lambda>c. c \<noteq> CHR ''/'') r,
            Path = dropWhile (\<lambda>c. c \<noteq> CHR ''/'') r, RawPath = [], RawQuery = [], Fragment = []\<rparr>
      in if take 8 s = ''https://'' then mk ''https'' (drop 8 s)
         else if take 7 s = ''http://'' then mk ''http'' (drop 7 s)
         else Inl (ErrMsg ''not a URL''))"

definition refHttpGet :: "rootCAs option \<Rightarrow> url \<Rightarrow> cluster \<Rightarrow> (err + httpResponse) \<times> cluster" where
  "refHttpGet tls u k = (case map_of (kHttp k) (Host u @ Path u) of
      None \<Rightarrow> (Inl (ErrMsg ''connection refused''), k)
    | Some st \<Rightarrow> (Inr \<lparr>StatusCode = st, StatusText = ''status'', CloseError = None\<rparr>, k))"

definition refApi :: "cluster api" where
  "refApi = \<lparr>
     apiGetTargetRequest = (\<lambda>n k. (lookupOr (kRequests k) n, k)),
     apiUpdateTargetRequest = refUpdateRequest False,
     apiStatusUpdateTargetRequest = refUpdateRequest True,
     apiCleanupTargetRequests = (\<lambda>ns s k. (Inr 0, k)),
     apiGetProviderConfig = (\<lambda>n k. (lookupOr (kConfigs k) n, k)),
     apiUpdateProviderConfigObject = refUpdateConfig False,
     apiStatusUpdateProviderConfig = refUpdateConfig True,
     apiCleanupProviderConfigs = (\<lambda>ns s k. (Inr 0, k)),
     apiContributeProviderConfig = (\<lambda>c oper cm ns schema. refContribute c oper schema),
     apiListProviders = (\<lambda>ns k. (Inr (filter (\<lambda>p. pvNamespace p = ns) (kProviders k)), k)),
     apiListManagedClusters = (\<lambda>k. (Inr (kClusters k), k)),
     apiMarshalList = (\<lambda>vs. Inr (jsonPrint (JObj [(''items'', JArr vs)]))),
     apiGetSecret = (\<lambda>n k. (lookupOr (kSecrets k) n, k)),
     apiCreateSecret = refCreateSecret,
     apiUpdateSecret = refUpdateSecret,
     apiListSecrets = (\<lambda>ns k. (Inr (map snd (filter (\<lambda>s. fst (fst s) = ns) (kSecrets k))), k)),
     apiSetControllerReference = refSetController,
     apiGetConfigMap = (\<lambda>n k. (lookupOr (kConfigMaps k) n, k)),
     apiGetManagedProxyConfiguration =
       (\<lambda>n k. (case kProxyConf k of None \<Rightarrow> Inl ApiNotFound | Some v \<Rightarrow> Inr v, k)),
     apiGetManifestWork = (\<lambda>n k. (lookupOr (kWorks k) (fst n), k)),
     apiCreateManifestWork = (\<lambda>m k. (case map_of (kWorks k) (mwNamespace m) of
         Some _ \<Rightarrow> (Some ApiAlreadyExists, k)
       | None \<Rightarrow> (None, k\<lparr>kWorks := (mwNamespace m, mwObject m) # kWorks k\<rparr>))),
     apiListServices = (\<lambda>ns ls k. (Inr (filter (\<lambda>s. svcNamespace s = ns) (kServices k)), k)),
     apiNestedString = refNestedString,
     apiNestedSlice = refNestedSlice,
     apiYamlUnmarshal = (\<lambda>s. Inr (JObj [(''manifest'', JStr s)])),
     apiSyncConfigMap = (\<lambda>cm k. (None, k\<lparr>kStore := (case cmData cm of None \<Rightarrow> [] | Some al \<Rightarrow> al)\<rparr>)),
     apiGetValue = (\<lambda>k n. map_of (kStore k) n),
     apiGetenv = (\<lambda>k n. case map_of (kEnviron k) n of None \<Rightarrow> [] | Some v \<Rightarrow> v),
     apiReadFile = (\<lambda>p k. lookupOr (kFiles k) p),
     apiNow = kClock,
     apiUrlParse = refUrlParse,
     apiValidCerts = (\<lambda>s. s \<noteq> []),
     apiSystemCertPool = (\<lambda>k. Inr True),
     apiNewRequestError = (\<lambda>u. None),
     apiHttpGet = refHttpGet,
     apiCheckClusterLiveness =
       (\<lambda>c t k. (if c \<in> set (kBadCredentials k) then Some (ErrMsg ''unauthorized'') else None, k))\<rparr>"

lemma refApi_simps [simp]:
  "apiGetTargetRequest refApi = (\<lambda>n k. (lookupOr (kRequests k) n, k))"
  "apiUpdateTargetRequest refApi = refUpdateRequest False"
  "apiStatusUpdateTargetRequest refApi = refUpdateRequest True"
  "apiCleanupTargetRequests refApi = (\<lambda>ns s k. (Inr 0, k))"
  "apiGetProviderConfig refApi = (\<lambda>n k. (lookupOr (kConfigs k) n, k))"
  "apiUpdateProviderConfigObject refApi = refUpdateConfig False"
  "apiStatusUpdateProviderConfig refApi = refUpdateConfig True"
  "apiCleanupProviderConfigs refApi = (\<lambda>ns s k. (Inr 0, k))"
  "apiContributeProviderConfig refApi = (\<lambda>c oper cm ns schema. refContribute c oper schema)"
  "apiListProviders refApi = (\<lambda>ns k. (Inr (filter (\<lambda>p. pvNamespace p = ns) (kProviders k)), k))"
  "apiListManagedClusters refApi = (\<lambda>k. (Inr (kClusters k), k))"
  "apiMarshalList refApi = (\<lambda>vs. Inr (jsonPrint (JObj [(''items'', JArr vs)])))"
  "apiGetSecret refApi = (\<lambda>n k. (lookupOr (kSecrets k) n, k))"
  "apiCreateSecret refApi = refCreateSecret"
  "apiUpdateSecret refApi = refUpdateSecret"
  "apiListSecrets refApi = (\<lambda>ns k. (Inr (map snd (filter (\<lambda>s. fst (fst s) = ns) (kSecrets k))), k))"
  "apiSetControllerReference refApi = refSetController"
  "apiGetConfigMap refApi = (\<lambda>n k. (lookupOr (kConfigMaps k) n, k))"
  "apiGetManagedProxyConfiguration refApi = (\<lambda>n k. (case kProxyConf k of None \<Rightarrow> Inl ApiNotFound | Some v \<Rightarrow> Inr v, k))"
  "apiGetManifestWork refApi = (\<lambda>n k. (lookupOr (kWorks k) (fst n), k))"
  "apiCreateManifestWork refApi = (\<lambda>m k. (case map_of (kWorks k) (mwNamespace m) of Some _ \<Rightarrow> (Some ApiAlreadyExists, k) | None \<Rightarrow> (None, k\<lparr>kWorks := (mwNamespace m, mwObject m) # kWorks k\<rparr>)))"
  "apiListServices refApi = (\<lambda>ns ls k. (Inr (filter (\<lambda>s. svcNamespace s = ns) (kServices k)), k))"
  "apiNestedString refApi = refNestedString"
  "apiNestedSlice refApi = refNestedSlice"
  "apiYamlUnmarshal refApi = (\<lambda>s. Inr (JObj [(''manifest'', JStr s)]))"
  "apiSyncConfigMap refApi = (\<lambda>cm k. (None, k\<lparr>kStore := (case cmData cm of None \<Rightarrow> [] | Some al \<Rightarrow> al)\<rparr>))"
  "apiGetValue refApi = (\<lambda>k n. map_of (kStore k) n)"
  "apiGetenv refApi = (\<lambda>k n. case map_of (kEnviron k) n of None \<Rightarrow> [] | Some v \<Rightarrow> v)"
  "apiReadFile refApi = (\<lambda>p k. lookupOr (kFiles k) p)"
  "apiNow refApi = kClock"
  "apiUrlParse refApi = refUrlParse"
  "apiValidCerts refApi = (\<lambda>s. s \<noteq> [])"
  "apiSystemCertPool refApi = (\<lambda>k. Inr True)"
  "apiNewRequestError refApi = (\<lambda>u. None)"
  "apiHttpGet refApi = refHttpGet"
  "apiCheckClusterLiveness refApi = (\<lambda>c t k. (if c \<in> set (kBadCredentials k) then Some (ErrMsg ''unauthorized'') else None, k))"
  by (simp_all add: refApi_def)

definition inCluster :: "cluster \<Rightarrow> (apiCall, cluster) world" where
  "inCluster k = \<lparr>env = k, calls = []\<rparr>"

lemma inCluster_simps [simp]: "env (inCluster k) = k" "calls (inCluster k) = []"
  by (simp_all add: inCluster_def)

end
