(* ===== verification/ConfigStore.thy ===== *)
theory ConfigStore
  imports ProviderHelpers ReferenceApi
begin

text \<open>
  The configstore variables of a managed cluster: their names
  (\<^verbatim>\<open>formatNamespaceToVarName\<close>, \<^verbatim>\<open>formatProxyVarName\<close>) and the decisions read from them
  (\<^verbatim>\<open>isProxyModeEnabled\<close>, \<^verbatim>\<open>getDefaultProxyMode\<close>, \<^verbatim>\<open>getDefaultSecret\<close>,
  \<^verbatim>\<open>getConfiguredSecretName\<close>).  The locale \<open>cluster_variable\<close> is what the rest of the
  program relies on: one variable per cluster, so that setting one never changes another.
\<close>

definition ACMDefaultSecret :: string where
  "ACMDefaultSecret = ''application-manager''"

definition ProxyConfigVarPrefix :: string where
  "ProxyConfigVarPrefix = ''ACM_USE_PROXY_''"

definition formatNamespaceToVarName :: "string \<Rightarrow> string" where
  "formatNamespaceToVarName namespace =
     (let formatted = ReplaceAll namespace (CHR ''-'') (CHR ''_'');
          formatted = ToUpper formatted
      in ''ACM_SECRET_'' @ formatted)"

definition formatProxyVarName :: "string \<Rightarrow> string" where
  "formatProxyVarName clusterName =
     (let formatted = ReplaceAll clusterName (CHR ''-'') (CHR ''_'');
          formatted = ToUpper formatted
      in ProxyConfigVarPrefix @ formatted)"

definition isProxyModeEnabled :: "'e api \<Rightarrow> string \<Rightarrow> ('e, bool) prog" where
  "isProxyModeEnabled a clusterName = do {
     v \<leftarrow> GetValue a (formatProxyVarName clusterName);
     ret (case v of None \<Rightarrow> False
          | Some value \<Rightarrow>
              if value = [] then False
              else value = ''true'' \<or> value = ''yes'' \<or> value = ''1'')
   }"

definition getDefaultProxyMode :: "'e api \<Rightarrow> string \<Rightarrow> ('e, string) prog" where
  "getDefaultProxyMode a clusterName = do {
     v \<leftarrow> GetValue a (formatProxyVarName clusterName);
     ret (case v of None \<Rightarrow> ''false''
          | Some configuredValue \<Rightarrow>
              if configuredValue \<noteq> [] then
                (let normalized = ToLower (TrimSpace configuredValue) in
                 if normalized = ''true'' \<or> normalized = ''yes'' \<or> normalized = ''1'' then ''true''
                 else if normalized = ''false'' \<or> normalized = ''no'' \<or> normalized = ''0''
                   then ''false''
                 else ''false'')
              else ''false'')
   }"

text \<open>The loops that look for one name in the list of secrets.\<close>

definition findSecret :: "string \<Rightarrow> string list \<Rightarrow> string option" where
  "findSecret name secrets = find (\<lambda>secret. secret = name) secrets"

definition getDefaultSecret :: "'e api \<Rightarrow> string \<Rightarrow> string list \<Rightarrow> ('e, string) prog" where
  "getDefaultSecret a namespace secrets =
     (case secrets of [] \<Rightarrow> ret []
      | firstSecret # _ \<Rightarrow> do {
          v \<leftarrow> GetValue a (formatNamespaceToVarName namespace);
          let configured = (case v of None \<Rightarrow> None
            | Some configuredValue \<Rightarrow>
                if configuredValue \<noteq> [] \<and> configuredValue \<noteq> ACMDefaultSecret
                then findSecret configuredValue secrets else None);
          ret (case configured of Some c \<Rightarrow> c
            | None \<Rightarrow> (case findSecret ACMDefaultSecret secrets of Some d \<Rightarrow> d
                      | None \<Rightarrow> firstSecret))
        })"

definition getConfiguredSecretName :: "'e api \<Rightarrow> string \<Rightarrow> ('e, string) prog" where
  "getConfiguredSecretName a clusterName = do {
     v \<leftarrow> GetValue a (formatNamespaceToVarName clusterName);
     ret (case v of None \<Rightarrow> ACMDefaultSecret
          | Some secretName \<Rightarrow> if secretName \<noteq> [] then secretName else ACMDefaultSecret)
   }"

section \<open>One variable per cluster\<close>

locale cluster_variable =
  fixes varName :: "string \<Rightarrow> string"
    and varPrefix :: string
  assumes varName_inj: "dnsName c \<Longrightarrow> dnsName d \<Longrightarrow> varName c = varName d \<Longrightarrow> c = d"
    and varName_prefix: "take (length varPrefix) (varName c) = varPrefix"
begin

lemma set_other:
  assumes "dnsName c" "dnsName d" "c \<noteq> d"
  shows "(m(varName c \<mapsto> v)) (varName d) = m (varName d)"
  using assms varName_inj[of d c] by auto

lemma set_same: "(m(varName c \<mapsto> v)) (varName c) = Some v"
  by simp

end

text \<open>Two families of variables whose prefixes tell them apart.\<close>

locale two_variables =
  one: cluster_variable f p + two: cluster_variable g q
  for f :: "string \<Rightarrow> string" and p :: string and g :: "string \<Rightarrow> string" and q :: string +
  assumes prefixes_differ: "take (length q) p \<noteq> take (length p) q"
begin

lemma families_disjoint: "f c \<noteq> g d"
proof
  assume eq: "f c = g d"
  have "take (length q) p = take (length q) (take (length p) (f c))"
    by (simp add: one.varName_prefix)
  also have "\<dots> = take (length p) (take (length q) (g d))"
    by (simp add: eq take_take min.commute)
  also have "\<dots> = take (length p) q" by (simp add: two.varName_prefix)
  finally show False using prefixes_differ by simp
qed

lemma set_one_keeps_two: "(m(f c \<mapsto> v)) (g d) = m (g d)"
  using families_disjoint[of c d] by auto

end

lemma formatNamespaceToVarName_map:
  "formatNamespaceToVarName c = ''ACM_SECRET_'' @ map envChar c"
  by (simp only: formatNamespaceToVarName_def Let_def ToUpper_ReplaceAll)

lemma formatProxyVarName_map:
  "formatProxyVarName c = ''ACM_USE_PROXY_'' @ map envChar c"
  by (simp only: formatProxyVarName_def Let_def ToUpper_ReplaceAll ProxyConfigVarPrefix_def)

interpretation secret_var: cluster_variable formatNamespaceToVarName "''ACM_SECRET_''"
  by unfold_locales (auto simp: formatNamespaceToVarName_map intro: envName_inj)

interpretation proxy_var: cluster_variable formatProxyVarName "''ACM_USE_PROXY_''"
  by unfold_locales (auto simp: formatProxyVarName_map intro: envName_inj)

interpretation cluster_vars:
  two_variables formatNamespaceToVarName "''ACM_SECRET_''" formatProxyVarName "''ACM_USE_PROXY_''"
  by unfold_locales simp

section \<open>Facts\<close>

lemma only_isProxyModeEnabled [wp]: "only P (isProxyModeEnabled a c)"
  unfolding isProxyModeEnabled_def by (intro wp)

lemma only_getDefaultProxyMode [wp]: "only P (getDefaultProxyMode a c)"
  unfolding getDefaultProxyMode_def by (intro wp)

lemma only_getDefaultSecret [wp]: "only P (getDefaultSecret a c ss)"
  unfolding getDefaultSecret_def by (intro wp)

lemma only_getConfiguredSecretName [wp]: "only P (getConfiguredSecretName a c)"
  unfolding getConfiguredSecretName_def by (intro wp)

lemma findSecret_eq: "findSecret n ss = (if n \<in> set ss then Some n else None)"
  by (induction ss) (auto simp: findSecret_def)

lemma run_getDefaultSecret:
  "outcome (getDefaultSecret a c ss) w =
     (if ss = [] then []
      else case apiGetValue a (env w) (formatNamespaceToVarName c) of
        Some v \<Rightarrow> (if v \<noteq> [] \<and> v \<noteq> ACMDefaultSecret \<and> v \<in> set ss then v
                   else if ACMDefaultSecret \<in> set ss then ACMDefaultSecret else hd ss)
      | None \<Rightarrow> (if ACMDefaultSecret \<in> set ss then ACMDefaultSecret else hd ss))"
  by (cases ss) (simp_all add: getDefaultSecret_def outcome_def findSecret_eq Let_def
      split: option.split del: set_simps list.set)

section \<open>Properties\<close>

text \<open>
  C33. One cluster's settings never reach another: between two worlds whose stores differ only in
  the secret and the proxy variable of a cluster \<open>c\<close>, every decision read from the store for
  another cluster \<open>d\<close> (proxy mode, its shown default, the secret used, the secret offered) is
  the same, for any two different names made of DNS characters.
\<close>

theorem cluster_settings_independent:
  assumes "dnsName c" "dnsName d" "c \<noteq> d"
    and store: "apiGetValue a (env w') = (apiGetValue a (env w))
          (formatProxyVarName c \<mapsto> v, formatNamespaceToVarName c \<mapsto> s)"
  shows "outcome (isProxyModeEnabled a d) w' = outcome (isProxyModeEnabled a d) w
       \<and> outcome (getDefaultProxyMode a d) w' = outcome (getDefaultProxyMode a d) w
       \<and> outcome (getConfiguredSecretName a d) w' = outcome (getConfiguredSecretName a d) w
       \<and> outcome (getDefaultSecret a d ss) w' = outcome (getDefaultSecret a d ss) w"
proof -
  have "apiGetValue a (env w') (formatProxyVarName d) = apiGetValue a (env w) (formatProxyVarName d)"
    unfolding store
    by (simp only: proxy_var.set_other[OF assms(1-3)] cluster_vars.set_one_keeps_two)
  moreover have "apiGetValue a (env w') (formatNamespaceToVarName d)
      = apiGetValue a (env w) (formatNamespaceToVarName d)"
    unfolding store secret_var.set_other[OF assms(1-3)]
    using cluster_vars.families_disjoint[of d c] by simp
  ultimately show ?thesis
    by (simp add: isProxyModeEnabled_def getDefaultProxyMode_def getConfiguredSecretName_def
        run_getDefaultSecret) (simp add: outcome_def)
qed

definition exampleStore :: cluster where
  "exampleStore = emptyCluster\<lparr>kStore := [(''ACM_USE_PROXY_PROD_EU'', ''true'')]\<rparr>"

theorem cluster_settings_independent_witness:
  "let k' = exampleStore\<lparr>kStore := (''ACM_SECRET_PROD_US'', ''other'') #
         (''ACM_USE_PROXY_PROD_US'', ''yes'') # kStore exampleStore\<rparr>
   in outcome (isProxyModeEnabled refApi ''prod-eu'') (inCluster k')
        = outcome (isProxyModeEnabled refApi ''prod-eu'') (inCluster exampleStore)
      \<and> outcome (isProxyModeEnabled refApi ''prod-eu'') (inCluster exampleStore)"
proof -
  let ?k = "exampleStore\<lparr>kStore := (''ACM_SECRET_PROD_US'', ''other'') #
         (''ACM_USE_PROXY_PROD_US'', ''yes'') # kStore exampleStore\<rparr>"
  have dns: "dnsName ''prod-us''" "dnsName ''prod-eu''" by code_simp+
  have names: "formatProxyVarName ''prod-us'' = ''ACM_USE_PROXY_PROD_US''"
    "formatNamespaceToVarName ''prod-us'' = ''ACM_SECRET_PROD_US''"
    "formatProxyVarName ''prod-eu'' = ''ACM_USE_PROXY_PROD_EU''" by code_simp+
  have "apiGetValue refApi (env (inCluster ?k)) = (apiGetValue refApi (env (inCluster exampleStore)))
      (formatProxyVarName ''prod-us'' \<mapsto> ''yes'', formatNamespaceToVarName ''prod-us'' \<mapsto> ''other'')"
    by (rule ext) (simp add: refApi_def names)
  from cluster_settings_independent[OF dns _ this] names show ?thesis
    by (simp add: isProxyModeEnabled_def outcome_def refApi_def exampleStore_def)
qed

text \<open>
  The default secret offered for a cluster: of a non-empty list it is always a member; it is
  the configured name when that is listed and not the standard one, else the standard
  \<^verbatim>\<open>application-manager\<close> when listed, else the first.  Reading it makes no call.
\<close>

theorem default_secret_choice:
  "run_state (getDefaultSecret a c ss) w = (outcome (getDefaultSecret a c ss) w, w)
   \<and> (ss = [] \<or> outcome (getDefaultSecret a c ss) w \<in> set ss)
   \<and> (ss = [] \<or> outcome (getDefaultSecret a c ss) w =
       (case apiGetValue a (env w) (formatNamespaceToVarName c) of
          Some v \<Rightarrow> (if v \<noteq> [] \<and> v \<noteq> ACMDefaultSecret \<and> v \<in> set ss then v
                     else if ACMDefaultSecret \<in> set ss then ACMDefaultSecret else hd ss)
        | None \<Rightarrow> (if ACMDefaultSecret \<in> set ss then ACMDefaultSecret else hd ss)))"
proof -
  have "snd (run_state (getDefaultSecret a c ss) w) = w"
    by (cases ss) (simp_all add: getDefaultSecret_def Let_def)
  then have "run_state (getDefaultSecret a c ss) w = (outcome (getDefaultSecret a c ss) w, w)"
    by (simp add: outcome_def prod_eq_iff)
  then show ?thesis by (auto simp: run_getDefaultSecret split: option.splits)
qed

text \<open>
  A proxy setting that turns proxy mode on is always shown as on in the configuration form:
  whenever \<^verbatim>\<open>isProxyModeEnabled\<close> answers true, the form's default is the text "true".
\<close>

theorem proxy_enabled_is_shown:
  assumes "outcome (isProxyModeEnabled a c) w"
  shows "outcome (getDefaultProxyMode a c) w = ''true''"
proof -
  have plain: "ToLower (TrimSpace ''true'') = ''true''" "ToLower (TrimSpace ''yes'') = ''yes''"
    "ToLower (TrimSpace ''1'') = ''1''" by code_simp+
  from assms obtain v where "apiGetValue a (env w) (formatProxyVarName c) = Some v"
    "v = ''true'' \<or> v = ''yes'' \<or> v = ''1''"
    by (auto simp: isProxyModeEnabled_def outcome_def split: option.splits if_splits)
  then show ?thesis
    using plain by (auto simp: getDefaultProxyMode_def outcome_def Let_def)
qed

theorem proxy_enabled_is_shown_witness:
  "outcome (isProxyModeEnabled refApi ''prod-eu'') (inCluster exampleStore)
   \<and> outcome (getDefaultProxyMode refApi ''prod-eu'') (inCluster exampleStore) = ''true''"
proof -
  have "formatProxyVarName ''prod-eu'' = ''ACM_USE_PROXY_PROD_EU''" by code_simp
  then have "outcome (isProxyModeEnabled refApi ''prod-eu'') (inCluster exampleStore)"
    by (simp add: isProxyModeEnabled_def outcome_def refApi_def exampleStore_def)
  with proxy_enabled_is_shown[OF this] show ?thesis by simp
qed

text \<open>
  The converse fails: a setting in capitals is normalised for the form and shown as "true",
  while the reconciler, which compares the raw text, keeps proxy mode off.
\<close>

theorem proxy_shown_but_disabled:
  "let w = inCluster (emptyCluster\<lparr>kStore := [(''ACM_USE_PROXY_PROD'', ''True'')]\<rparr>)
   in outcome (getDefaultProxyMode refApi ''prod'') w = ''true''
      \<and> \<not> outcome (isProxyModeEnabled refApi ''prod'') w"
proof -
  have "formatProxyVarName ''prod'' = ''ACM_USE_PROXY_PROD''" by code_simp
  moreover have "ToLower (TrimSpace ''True'') = ''true''" by code_simp
  ultimately show ?thesis
    by (simp add: isProxyModeEnabled_def getDefaultProxyMode_def outcome_def refApi_def)
qed

end
