(* ===== verification/Liveness.thy ===== *)
theory Liveness
  imports ReferenceApi
begin

text \<open>
  \<^verbatim>\<open>internal/controller/cluster_liveness.go\<close>: the anonymous probe of a cluster's API
  server.  The HTTP exchange, the parsing of URLs and certificates are parameters; which
  endpoints are tried, in which order, how each answer is judged and which certificates are
  trusted is the code.  Error texts are the constant parts of the code's format strings.
\<close>

record clusterLivenessResult =
  lvOnline :: bool
  lvHealthy :: bool

definition noLiveness :: clusterLivenessResult where
  "noLiveness = \<lparr>lvOnline = False, lvHealthy = False\<rparr>"

text \<open>A Go context: \<open>None\<close> is nil.\<close>

type_synonym ctx = "unit option"

definition clusterHealthEndpoints :: "string list" where
  "clusterHealthEndpoints = [''/readyz'', ''/livez'', ''/healthz'']"

definition usableURL :: "url \<Rightarrow> bool" where
  "usableURL u = (Host u \<noteq> [] \<and> (Scheme u = ''https'' \<or> Scheme u = ''http''))"

definition endpointURL :: "url \<Rightarrow> string \<Rightarrow> url" where
  "endpointURL baseURL healthPath = baseURL\<lparr>
     Path := TrimRight (Path baseURL) (CHR ''/'') @ ''/'' @ TrimLeft healthPath (CHR ''/''),
     RawPath := [], RawQuery := [], Fragment := []\<rparr>"

fun probeEndpoints :: "'e api \<Rightarrow> rootCAs option \<Rightarrow> url \<Rightarrow> string list \<Rightarrow> clusterLivenessResult \<Rightarrow>
    ('e, clusterLivenessResult \<times> err option) prog" where
  "probeEndpoints a tls baseURL [] result =
     ret (result, Some (ErrMsg ''cluster API does not support health endpoints''))"
| "probeEndpoints a tls baseURL (healthPath # rest) result =
     (let u = endpointURL baseURL healthPath in
      case apiNewRequestError a u of
        Some e \<Rightarrow> ret (result, Some (ErrWrap ''failed to create cluster API health request'' e))
      | None \<Rightarrow> do {
          r \<leftarrow> Http_Get a tls u;
          case r of
            Inl e \<Rightarrow> ret (result, Some (ErrWrap ''cluster API health check failed'' e))
          | Inr response \<Rightarrow>
              (let result = result\<lparr>lvOnline := True\<rparr>; statusCode = StatusCode response in
               case CloseError response of
                 Some e \<Rightarrow>
                   ret (result, Some (ErrWrap ''failed to close cluster API health response'' e))
               | None \<Rightarrow>
                   if statusCode = 404 \<or> statusCode = 405
                   then probeEndpoints a tls baseURL rest result
                   else if statusCode < 200 \<or> 300 \<le> statusCode
                   then ret (result, Some (ErrMsg ''cluster API health endpoint returned HTTP''))
                   else ret (result\<lparr>lvHealthy := True\<rparr>, None))
        })"

definition checkClusterAPILivenessWithClient :: "'e api \<Rightarrow> ctx \<Rightarrow> url option \<Rightarrow> rootCAs option \<Rightarrow>
    ('e, clusterLivenessResult \<times> err option) prog" where
  "checkClusterAPILivenessWithClient a ctx baseURL tls =
     (if ctx = None then ret (noLiveness, Some (ErrMsg ''context must not be nil''))
      else case baseURL of
        None \<Rightarrow> ret (noLiveness, Some (ErrMsg ''invalid cluster API URL''))
      | Some u \<Rightarrow>
          if \<not> usableURL u then ret (noLiveness, Some (ErrMsg ''invalid cluster API URL''))
          else probeEndpoints a tls u clusterHealthEndpoints noLiveness)"

definition clusterAPITLSConfig :: "'e api \<Rightarrow> string \<Rightarrow> ('e, err + rootCAs) prog" where
  "clusterAPITLSConfig a caBundle =
     (if caBundle \<noteq> [] then
        (let caPEM = (case base64Decode caBundle of Some bytes \<Rightarrow> bytes | None \<Rightarrow> caBundle)
         in ret (if \<not> apiValidCerts a caPEM
                 then Inl (ErrMsg ''CA bundle contains no valid certificates'')
                 else Inr (OnlyCerts caPEM)))
      else do {
        p \<leftarrow> ask (apiSystemCertPool a);
        ret (case p of
               Inl e \<Rightarrow> Inl (ErrWrap ''failed to load system root certificates'' e)
             | Inr nonNil \<Rightarrow> if nonNil then Inr SystemRoots else Inr EmptyRoots)
      })"

definition checkClusterAPILiveness :: "'e api \<Rightarrow> ctx \<Rightarrow> string \<Rightarrow> string \<Rightarrow>
    ('e, clusterLivenessResult \<times> err option) prog" where
  "checkClusterAPILiveness a ctx apiURL caBundle =
     (if ctx = None then ret (noLiveness, Some (ErrMsg ''context must not be nil''))
      else case apiUrlParse a apiURL of
        Inl e \<Rightarrow> ret (noLiveness, Some (ErrMsg ''invalid cluster API URL''))
      | Inr baseURL \<Rightarrow>
          if \<not> usableURL baseURL then ret (noLiveness, Some (ErrMsg ''invalid cluster API URL''))
          else if Scheme baseURL = ''https'' then do {
            t \<leftarrow> clusterAPITLSConfig a caBundle;
            case t of
              Inl e \<Rightarrow> ret (noLiveness, Some (ErrWrap ''failed to configure cluster API TLS'' e))
            | Inr tls \<Rightarrow> checkClusterAPILivenessWithClient a ctx (Some baseURL) (Some tls)
          }
          else checkClusterAPILivenessWithClient a ctx (Some baseURL) None)"

section \<open>The contract of a liveness probe\<close>

text \<open>
  What callers rely on: a healthy cluster is online, and the probe reports no error exactly
  when the cluster is healthy.
\<close>

definition soundLiveness :: "clusterLivenessResult \<times> err option \<Rightarrow> bool" where
  "soundLiveness r = ((lvHealthy (fst r) \<longrightarrow> lvOnline (fst r)) \<and> (snd r = None \<longleftrightarrow> lvHealthy (fst r)))"

locale liveness_probe =
  fixes probe :: "string \<Rightarrow> string \<Rightarrow> ('e, clusterLivenessResult \<times> err option) prog"
  assumes probe_sound: "soundLiveness (outcome (probe u ca) w)"
    and probe_calls: "only (\<lambda>c. \<not> writes c) (probe u ca)"
begin

lemma offline_error: "\<not> lvOnline (fst (outcome (probe u ca) w)) \<Longrightarrow> snd (outcome (probe u ca) w) \<noteq> None"
  using probe_sound[of u ca w] by (auto simp: soundLiveness_def)

lemma healthy_online: "lvHealthy (fst (outcome (probe u ca) w)) \<Longrightarrow> lvOnline (fst (outcome (probe u ca) w))"
  using probe_sound[of u ca w] by (auto simp: soundLiveness_def)

end

lemma soundLiveness_none: "soundLiveness (noLiveness, Some e)"
  by (simp add: soundLiveness_def noLiveness_def)

lemma probeEndpoints_sound:
  "\<not> lvHealthy r \<Longrightarrow> soundLiveness (fst (run_state (probeEndpoints a tls u ps r) w))"
  by (induction ps arbitrary: r w)
    (auto simp: soundLiveness_def Let_def split: option.splits sum.splits)

lemma withClient_sound:
  "soundLiveness (fst (run_state (checkClusterAPILivenessWithClient a ctx b tls) w))"
  by (auto simp: checkClusterAPILivenessWithClient_def soundLiveness_none noLiveness_def
      intro!: probeEndpoints_sound split: option.splits) (simp add: soundLiveness_def)+

lemma only_probeEndpoints:
  "(\<And>p. p \<in> set ps \<Longrightarrow> P (CHttpGet tls (endpointURL u p))) \<Longrightarrow> only P (probeEndpoints a tls u ps r)"
  by (induction ps arbitrary: r) (auto simp: Let_def intro!: wp)

lemma only_withClient:
  "(\<And>tls u. P (CHttpGet tls u)) \<Longrightarrow> only P (checkClusterAPILivenessWithClient a ctx b tls)"
  unfolding checkClusterAPILivenessWithClient_def by (intro wp only_probeEndpoints) auto

lemma only_clusterAPITLSConfig: "only P (clusterAPITLSConfig a ca)"
  unfolding clusterAPITLSConfig_def by (intro wp)

lemma only_checkClusterAPILiveness [wp]:
  "(\<And>tls u. P (CHttpGet tls u)) \<Longrightarrow> only P (checkClusterAPILiveness a ctx url ca)"
  unfolding checkClusterAPILiveness_def by (intro wp only_withClient only_clusterAPITLSConfig)

lemma checkClusterAPILiveness_sound:
  "soundLiveness (outcome (checkClusterAPILiveness a ctx url ca) w)"
  by (auto simp: checkClusterAPILiveness_def outcome_def soundLiveness_none
      intro!: withClient_sound split: sum.splits prod.splits)

interpretation anonymous: liveness_probe "checkClusterAPILiveness a ctx" for a :: "'e api" and ctx
  by unfold_locales (auto intro!: checkClusterAPILiveness_sound only_checkClusterAPILiveness)

section \<open>The verdict as a specification\<close>

text \<open>
  How a sequence of answers should be judged: endpoints the server does not support (404 or
  405) are skipped, the first other one decides.
\<close>

definition unsupported :: "err + httpResponse \<Rightarrow> bool" where
  "unsupported r = (case r of Inl e \<Rightarrow> False
     | Inr resp \<Rightarrow> CloseError resp = None \<and> (StatusCode resp = 404 \<or> StatusCode resp = 405))"

definition answered :: "err + httpResponse \<Rightarrow> bool" where
  "answered r = (case r of Inl e \<Rightarrow> False | Inr resp \<Rightarrow> True)"

definition success :: "err + httpResponse \<Rightarrow> bool" where
  "success r = (case r of Inl e \<Rightarrow> False
     | Inr resp \<Rightarrow> CloseError resp = None \<and> 200 \<le> StatusCode resp \<and> StatusCode resp < 300)"

definition livenessVerdict :: "(err + httpResponse) list \<Rightarrow> clusterLivenessResult" where
  "livenessVerdict answers =
     (let rest = dropWhile unsupported answers in
      \<lparr>lvOnline = (takeWhile unsupported answers \<noteq> [] \<or> (rest \<noteq> [] \<and> answered (hd rest))),
       lvHealthy = (rest \<noteq> [] \<and> success (hd rest))\<rparr>)"

lemma probeEndpoints_verdict:
  assumes "\<And>u. apiNewRequestError a u = None" "\<And>u. apiHttpGet a tls u k = (f u, k)"
  shows "env w = k \<Longrightarrow> \<not> lvHealthy r \<Longrightarrow>
     fst (fst (run_state (probeEndpoints a tls b ps r) w)) =
       (let v = livenessVerdict (map (\<lambda>p. f (endpointURL b p)) ps)
        in \<lparr>lvOnline = (lvOnline r \<or> lvOnline v), lvHealthy = lvHealthy v\<rparr>)"
proof (induction ps arbitrary: r w)
  case Nil
  then show ?case by (cases r) (simp add: livenessVerdict_def)
next
  case (Cons p ps)
  show ?case
  proof (cases "f (endpointURL b p)")
    case (Inl e)
    with Cons.prems assms show ?thesis
      by (cases r) (simp add: livenessVerdict_def unsupported_def answered_def success_def Let_def)
  next
    case (Inr resp)
    show ?thesis
    proof (cases "unsupported (f (endpointURL b p))")
      case True
      with Inr Cons assms show ?thesis
        by (cases r) (simp add: livenessVerdict_def unsupported_def Let_def)
    next
      case False
      with Inr Cons.prems assms show ?thesis
        by (cases r) (auto simp: livenessVerdict_def unsupported_def answered_def success_def
            Let_def split: option.splits)
    qed
  qed
qed

lemma probeEndpoints_requests:
  "\<exists>n \<le> length ps. calls (snd (run_state (probeEndpoints a tls b ps r) w)) =
     calls w @ map (\<lambda>p. CHttpGet tls (endpointURL b p)) (take n ps)"
proof (induction ps arbitrary: r w)
  case (Cons p ps)
  let ?c = "CHttpGet tls (endpointURL b p)"
  let ?h = "apiHttpGet a tls (endpointURL b p) (env w)"
  let ?w = "w\<lparr>env := snd ?h, calls := calls w @ [?c]\<rparr>"
  have rec: "\<exists>n \<le> length ps. calls (snd (run_state (probeEndpoints a tls b ps q) ?w)) =
     calls w @ ?c # map (\<lambda>p. CHttpGet tls (endpointURL b p)) (take n ps)" for q
    using Cons.IH[of q ?w] by auto
  have "calls (snd (run_state (probeEndpoints a tls b (p # ps) r) w)) = calls w \<or>
    calls (snd (run_state (probeEndpoints a tls b (p # ps) r) w)) = calls w @ [?c] \<or>
    (\<exists>q. calls (snd (run_state (probeEndpoints a tls b (p # ps) r) w)) =
         calls (snd (run_state (probeEndpoints a tls b ps q) ?w)))"
    by (simp add: Let_def split: option.split sum.split) blast
  then show ?case
  proof (elim disjE exE)
    fix q
    assume "calls (snd (run_state (probeEndpoints a tls b (p # ps) r) w)) =
         calls (snd (run_state (probeEndpoints a tls b ps q) ?w))"
    with rec[of q] obtain n where "n \<le> length ps"
      "calls (snd (run_state (probeEndpoints a tls b (p # ps) r) w)) =
         calls w @ ?c # map (\<lambda>p. CHttpGet tls (endpointURL b p)) (take n ps)" by auto
    then show ?thesis by (intro exI[of _ "Suc n"]) simp
  qed (rule exI[of _ 0], simp, rule exI[of _ 1], simp)
qed simp

section \<open>Properties\<close>

text \<open>
  The liveness probe never reports a cluster as healthy without having reached it, and it
  returns an error exactly when the cluster is not healthy: for every URL, CA bundle, network
  and context.
\<close>

theorem liveness_result_sound:
  "let (r, e) = outcome (checkClusterAPILiveness a ctx url ca) w
   in (lvHealthy r \<longrightarrow> lvOnline r) \<and> (e = None \<longleftrightarrow> lvHealthy r)"
  using anonymous.probe_sound[of a ctx url ca w]
  by (simp add: soundLiveness_def split: prod.split) auto

theorem liveness_result_sound_witness:
  "let k = emptyCluster\<lparr>kHttp := [(''c1:6443/readyz'', 404), (''c1:6443/livez'', 200)]\<rparr>
   in (case outcome (checkClusterAPILiveness refApi (Some ()) ''http://c1:6443'' []) (inCluster k) of
        (r, e) \<Rightarrow> lvHealthy r \<and> lvOnline r \<and> e = None)"
proof -
  let ?k = "emptyCluster\<lparr>kHttp := [(''c1:6443/readyz'', 404), (''c1:6443/livez'', 200)]\<rparr>"
  have "snd (outcome (checkClusterAPILiveness refApi (Some ()) ''http://c1:6443'' []) (inCluster ?k)) = None"
    by (simp add: checkClusterAPILiveness_def outcome_def refApi_def refUrlParse_def usableURL_def
        checkClusterAPILivenessWithClient_def clusterHealthEndpoints_def endpointURL_def
        TrimRight_def TrimLeft_def refHttpGet_def noLiveness_def Let_def)
  then show ?thesis
    using liveness_result_sound[of refApi "Some ()" "''http://c1:6443''" "[]" "inCluster ?k"]
    by (simp add: Let_def split: prod.splits)
qed



text \<open>
  The requests of a probe: at most three, to the health endpoints under one base URL, in
  their order without gaps, and with one TLS configuration.
\<close>

theorem liveness_requests:
  "\<exists>tls u n. n \<le> 3 \<and> trace (checkClusterAPILiveness a ctx url ca) w =
     map (\<lambda>p. CHttpGet tls (endpointURL u p)) (take n [''/readyz'', ''/livez'', ''/healthz''])"
proof -
  have inner: "\<exists>tls u n. n \<le> 3 \<and> calls (snd (run_state
       (checkClusterAPILivenessWithClient a ctx b t) w')) = calls w' @
     map (\<lambda>p. CHttpGet tls (endpointURL u p)) (take n clusterHealthEndpoints)" for b t w'
  proof (cases "ctx = None \<or> b = None \<or> \<not> usableURL (the b)")
    case True
    then show ?thesis
      by (auto simp: checkClusterAPILivenessWithClient_def split: option.split intro!: exI[of _ 0])
  next
    case False
    then obtain u where "b = Some u" by auto
    with False have "checkClusterAPILivenessWithClient a ctx b t =
        probeEndpoints a t u clusterHealthEndpoints noLiveness"
      by (auto simp: checkClusterAPILivenessWithClient_def)
    moreover have "length clusterHealthEndpoints = 3" by (simp add: clusterHealthEndpoints_def)
    ultimately show ?thesis
      using probeEndpoints_requests[of clusterHealthEndpoints a t u noLiveness w'] by metis
  qed
  have tls: "calls (snd (run_state (clusterAPITLSConfig a ca) w)) = calls w"
    "snd (run_state (clusterAPITLSConfig a ca) w) = w"
    by (simp_all add: clusterAPITLSConfig_def Let_def)
  have "\<exists>tls u n. n \<le> 3 \<and> calls (snd (run_state (checkClusterAPILiveness a ctx url ca) w)) =
     calls w @ map (\<lambda>p. CHttpGet tls (endpointURL u p)) (take n clusterHealthEndpoints)"
  proof (cases "calls (snd (run_state (checkClusterAPILiveness a ctx url ca) w)) = calls w")
    case True
    then show ?thesis by (intro exI[of _ 0] exI) simp
  next
    case False
    then obtain b t where "snd (run_state (checkClusterAPILiveness a ctx url ca) w) =
        snd (run_state (checkClusterAPILivenessWithClient a ctx b t) w)"
      using tls by (auto simp: checkClusterAPILiveness_def split: sum.splits if_splits prod.splits)
    then show ?thesis using inner[of b t w] by simp
  qed
  then obtain tls u n where "n \<le> 3"
    "calls (snd (run_state (checkClusterAPILiveness a ctx url ca) w)) =
     calls w @ map (\<lambda>p. CHttpGet tls (endpointURL u p)) (take n clusterHealthEndpoints)" by blast
  then show ?thesis
    by (intro exI[of _ tls] exI[of _ u] exI[of _ n]) (simp add: trace_def clusterHealthEndpoints_def)
qed

text \<open>
  An explicit CA bundle is the only trust anchor: with a non-empty bundle the TLS
  configuration is either refused or holds exactly the given certificates (decoded from base64
  where the bundle is base64, taken as PEM text otherwise), never the host's roots.
\<close>

theorem explicit_ca_only:
  assumes "ca \<noteq> []"
  shows "outcome (clusterAPITLSConfig a ca) w =
     (let pem = (case base64Decode ca of Some b \<Rightarrow> b | None \<Rightarrow> ca)
      in if apiValidCerts a pem then Inr (OnlyCerts pem)
         else Inl (ErrMsg ''CA bundle contains no valid certificates''))
   \<and> (\<forall>roots. outcome (clusterAPITLSConfig a ca) w = Inr roots \<longrightarrow> (\<exists>pem. roots = OnlyCerts pem))"
  using assms by (simp add: clusterAPITLSConfig_def outcome_def Let_def)

theorem explicit_ca_only_witness:
  "outcome (clusterAPITLSConfig refApi (base64Encode ''PEM'')) (inCluster emptyCluster)
     = Inr (OnlyCerts ''PEM'')"
proof -
  have "base64Encode ''PEM'' \<noteq> []" by simp
  from explicit_ca_only[OF this, of refApi "inCluster emptyCluster"] show ?thesis
    by (simp add: refApi_def del: base64Encode.simps)
qed

end
