(* ===== verification/Clusters.thy ===== *)
theory Clusters
  imports Liveness
begin

text \<open>
  The managed clusters of \<^verbatim>\<open>internal/controller/krkntargetrequest_controller.go\<close>: the structs
  an OCM list is decoded into (\<^verbatim>\<open>ManagedCluster\<close>), decoding as \<^verbatim>\<open>encoding/json\<close> does it for
  these structs (fields matched without regard to case, unknown fields ignored, null leaving a
  field as it is, any other type an error), \<^verbatim>\<open>getManagedClusters\<close>, and the health status.
\<close>

record ManagedClusterCondition =
  condType :: string
  condStatus :: string
  condReason :: string

record ClientConfig =
  ccURL :: string
  ccCABundle :: string

record ManagedCluster =
  mcAPIVersion :: string
  mcKind :: string
  mcName :: string
  mcClientConfigs :: "ClientConfig list"
  mcConditions :: "ManagedClusterCondition list"

type_synonym ManagedClusterList = "ManagedCluster list"

definition managedClusterConditionAvailable :: string where
  "managedClusterConditionAvailable = ''ManagedClusterConditionAvailable''"

section \<open>Decoding\<close>

type_synonym 'a decoder = "json \<Rightarrow> 'a \<Rightarrow> err + 'a"

definition typeError :: err where
  "typeError = ErrMsg ''json: cannot unmarshal value into Go value''"

definition decString :: "string decoder" where
  "decString v cur = (case v of JNull \<Rightarrow> Inr cur | JStr s \<Rightarrow> Inr s | _ \<Rightarrow> Inl typeError)"

definition decStruct :: "(string \<times> 'a decoder) list \<Rightarrow> 'a decoder" where
  "decStruct members v cur =
     (case v of JNull \<Rightarrow> Inr cur
      | JObj kvs \<Rightarrow> foldE (\<lambda>kv acc.
          case find (\<lambda>f. ToLower (fst f) = ToLower (fst kv)) members of
            None \<Rightarrow> Inr acc | Some f \<Rightarrow> snd f (snd kv) acc) kvs cur
      | _ \<Rightarrow> Inl typeError)"

definition decSlice :: "'a \<Rightarrow> 'a decoder \<Rightarrow> 'a list decoder" where
  "decSlice zero dec v cur =
     (case v of JNull \<Rightarrow> Inr [] | JArr vs \<Rightarrow> mapE (\<lambda>x. dec x zero) vs | _ \<Rightarrow> Inl typeError)"

text \<open>A field of a struct: how to read it, how to set it, how its value decodes.\<close>

definition structField :: "('a \<Rightarrow> 'b) \<Rightarrow> ('b \<Rightarrow> 'a \<Rightarrow> 'a) \<Rightarrow> 'b decoder \<Rightarrow> 'a decoder" where
  "structField get put dec v c = (case dec v (get c) of Inl e \<Rightarrow> Inl e | Inr x \<Rightarrow> Inr (put x c))"

definition decCondition :: "ManagedClusterCondition decoder" where
  "decCondition = decStruct [
     (''type'', structField condType (\<lambda>x c. c\<lparr>condType := x\<rparr>) decString),
     (''status'', structField condStatus (\<lambda>x c. c\<lparr>condStatus := x\<rparr>) decString),
     (''reason'', structField condReason (\<lambda>x c. c\<lparr>condReason := x\<rparr>) decString)]"

definition decClientConfig :: "ClientConfig decoder" where
  "decClientConfig = decStruct [
     (''url'', structField ccURL (\<lambda>x c. c\<lparr>ccURL := x\<rparr>) decString),
     (''caBundle'', structField ccCABundle (\<lambda>x c. c\<lparr>ccCABundle := x\<rparr>) decString)]"

definition zeroCluster :: ManagedCluster where
  "zeroCluster = \<lparr>mcAPIVersion = [], mcKind = [], mcName = [], mcClientConfigs = [],
     mcConditions = []\<rparr>"

definition decManagedCluster :: "ManagedCluster decoder" where
  "decManagedCluster = decStruct [
     (''apiVersion'', structField mcAPIVersion (\<lambda>x c. c\<lparr>mcAPIVersion := x\<rparr>) decString),
     (''kind'', structField mcKind (\<lambda>x c. c\<lparr>mcKind := x\<rparr>) decString),
     (''metadata'', decStruct [
        (''name'', structField mcName (\<lambda>x c. c\<lparr>mcName := x\<rparr>) decString)]),
     (''spec'', decStruct [
        (''managedClusterClientConfigs'', structField mcClientConfigs (\<lambda>x c. c\<lparr>mcClientConfigs := x\<rparr>)
           (decSlice \<lparr>ccURL = [], ccCABundle = []\<rparr> decClientConfig))]),
     (''status'', decStruct [
        (''conditions'', structField mcConditions (\<lambda>x c. c\<lparr>mcConditions := x\<rparr>)
           (decSlice \<lparr>condType = [], condStatus = [], condReason = []\<rparr> decCondition))])]"

definition decManagedClusterList :: "ManagedClusterList decoder" where
  "decManagedClusterList = decStruct [(''items'', decSlice zeroCluster decManagedCluster)]"

definition getManagedClusters :: "'e api \<Rightarrow> ('e, err + ManagedClusterList) prog" where
  "getManagedClusters a = do {
     l \<leftarrow> List_ManagedClusters a;
     ret (case l of
       Inl e \<Rightarrow> Inl (ErrWrap ''failed to list managed clusters'' e)
     | Inr clusterList \<Rightarrow>
         (case apiMarshalList a clusterList of
            Inl e \<Rightarrow> Inl (ErrWrap ''failed to marshal managed clusters'' e)
          | Inr text \<Rightarrow>
              (case jsonParse text of
                 None \<Rightarrow> Inl (ErrWrap ''failed to unmarshal managed clusters''
                           (ErrMsg ''json: syntax error''))
               | Some v \<Rightarrow>
                   (case decManagedClusterList v [] of
                      Inl e \<Rightarrow> Inl (ErrWrap ''failed to unmarshal managed clusters'' e)
                    | Inr cs \<Rightarrow> Inr cs))))
   }"

section \<open>Health\<close>

fun healthFromConditions :: "ManagedClusterCondition list \<Rightarrow> ClusterHealthStatus" where
  "healthFromConditions [] = ClusterStatusUnknown"
| "healthFromConditions (condition # rest) =
     (if condType condition \<noteq> managedClusterConditionAvailable then healthFromConditions rest
      else if condStatus condition = ''True'' then ClusterStatusHealthy
      else if condStatus condition = ''False'' then ClusterStatusUnhealthy
      else if condStatus condition = ''Unknown'' \<and>
              condReason condition = ''ManagedClusterLeaseUpdateStopped''
        then ClusterStatusUnhealthy
      else ClusterStatusUnknown)"

definition clusterHealthStatus :: "ManagedCluster \<Rightarrow> ClusterHealthStatus" where
  "clusterHealthStatus cluster = healthFromConditions (mcConditions cluster)"

definition clusterHealthStatusAfterLiveness ::
    "ManagedCluster \<Rightarrow> clusterLivenessResult \<Rightarrow> ClusterHealthStatus" where
  "clusterHealthStatusAfterLiveness cluster liveness =
     (if \<not> lvOnline liveness then ClusterStatusUnknown
      else if \<not> lvHealthy liveness then ClusterStatusUnhealthy
      else clusterHealthStatus cluster)"

definition clusterHealthStatusAfterProxyPrerequisiteFailure ::
    "clusterLivenessResult \<Rightarrow> ClusterHealthStatus" where
  "clusterHealthStatusAfterProxyPrerequisiteFailure liveness =
     (if \<not> lvOnline liveness then ClusterStatusUnknown else ClusterStatusUnhealthy)"

section \<open>Facts\<close>

lemma only_getManagedClusters [wp]: "P CListManagedClusters \<Longrightarrow> only P (getManagedClusters a)"
  unfolding getManagedClusters_def by (intro wp)

lemma healthFromConditions_set: "healthFromConditions cs \<noteq> ClusterStatusUnset"
  by (induction cs) auto

definition availableCondition :: "ManagedCluster \<Rightarrow> ManagedClusterCondition option" where
  "availableCondition c = find (\<lambda>x. condType x = managedClusterConditionAvailable) (mcConditions c)"

lemma clusterHealthStatus_first:
  "clusterHealthStatus c = (case availableCondition c of
      None \<Rightarrow> ClusterStatusUnknown
    | Some x \<Rightarrow> if condStatus x = ''True'' then ClusterStatusHealthy
        else if condStatus x = ''False'' \<or>
          (condStatus x = ''Unknown'' \<and> condReason x = ''ManagedClusterLeaseUpdateStopped'')
        then ClusterStatusUnhealthy else ClusterStatusUnknown)"
proof -
  have "healthFromConditions cs = (case find (\<lambda>x. condType x = managedClusterConditionAvailable) cs of
      None \<Rightarrow> ClusterStatusUnknown
    | Some x \<Rightarrow> if condStatus x = ''True'' then ClusterStatusHealthy
        else if condStatus x = ''False'' \<or>
          (condStatus x = ''Unknown'' \<and> condReason x = ''ManagedClusterLeaseUpdateStopped'')
        then ClusterStatusUnhealthy else ClusterStatusUnknown)" for cs
    by (induction cs) auto
  then show ?thesis by (simp add: clusterHealthStatus_def availableCondition_def)
qed

text \<open>The JSON a well-formed ManagedCluster carries, in the key order of the marshaller.\<close>

definition encCondition :: "ManagedClusterCondition \<Rightarrow> json" where
  "encCondition c = JObj [(''reason'', JStr (condReason c)), (''status'', JStr (condStatus c)),
     (''type'', JStr (condType c))]"

definition encClientConfig :: "ClientConfig \<Rightarrow> json" where
  "encClientConfig c = JObj [(''caBundle'', JStr (ccCABundle c)), (''url'', JStr (ccURL c))]"

definition encManagedCluster :: "ManagedCluster \<Rightarrow> json" where
  "encManagedCluster c = JObj [
     (''apiVersion'', JStr (mcAPIVersion c)), (''kind'', JStr (mcKind c)),
     (''metadata'', JObj [(''labels'', JObj []), (''name'', JStr (mcName c))]),
     (''spec'', JObj [(''hubAcceptsClient'', JBool True),
        (''managedClusterClientConfigs'', JArr (map encClientConfig (mcClientConfigs c)))]),
     (''status'', JObj [(''conditions'', JArr (map encCondition (mcConditions c)))])]"

lemmas decode_simps = decStruct_def structField_def decString_def ToLower_def lowerChar_def

lemma decCondition_enc: "decCondition (encCondition c) z = Inr c"
  by (cases c; cases z) (simp add: decCondition_def encCondition_def decode_simps)

lemma decClientConfig_enc: "decClientConfig (encClientConfig c) z = Inr c"
  by (cases c; cases z) (simp add: decClientConfig_def encClientConfig_def decode_simps)

lemma decSlice_conditions: "decSlice z decCondition (JArr (map encCondition cs)) cur = Inr cs"
  by (simp add: decSlice_def mapE_inverse decCondition_enc)

lemma decSlice_configs: "decSlice z decClientConfig (JArr (map encClientConfig cs)) cur = Inr cs"
  by (simp add: decSlice_def mapE_inverse decClientConfig_enc)

lemma decManagedCluster_enc: "decManagedCluster (encManagedCluster c) zeroCluster = Inr c"
  by (cases c) (simp add: decManagedCluster_def encManagedCluster_def decode_simps zeroCluster_def
      decSlice_conditions decSlice_configs)

lemma encManagedCluster_wf: "jsonWf (encManagedCluster c)"
  by (simp add: encManagedCluster_def encCondition_def encClientConfig_def list_all_iff)

text \<open>
  The documented text of a marshalled list: an object with the list's items between its type
  fields.
\<close>

definition marshalsItems :: "'e api \<Rightarrow> bool" where
  "marshalsItems a = (\<forall>vs. \<exists>ver meta. jsonWf meta \<and>
     apiMarshalList a vs = Inr (jsonPrint (JObj [(''apiVersion'', JStr ver), (''items'', JArr vs),
        (''kind'', JStr ''ManagedClusterList''), (''metadata'', meta)])))"

lemma decManagedClusterList_enc:
  "decManagedClusterList (JObj [(''apiVersion'', x), (''items'', JArr (map encManagedCluster cs)),
     (''kind'', y), (''metadata'', z)]) [] = Inr cs"
  by (simp add: decManagedClusterList_def decode_simps decSlice_def mapE_inverse
      decManagedCluster_enc)

section \<open>Properties\<close>

text \<open>
  C29. What OCM lists is what the operator works on: when the API lists ManagedClusters in their
  JSON form and the list is marshalled as documented, \<^verbatim>\<open>getManagedClusters\<close> returns exactly
  those clusters, in the same order and with every field the program reads intact.
\<close>

theorem managed_clusters_roundtrip:
  assumes "marshalsItems a" "apiListManagedClusters a (env w) = (Inr (map encManagedCluster cs), k)"
  shows "run_state (getManagedClusters a) w =
     (Inr cs, w\<lparr>env := k, calls := calls w @ [CListManagedClusters]\<rparr>)"
proof -
  from assms(1) obtain ver meta where m: "jsonWf meta" "apiMarshalList a (map encManagedCluster cs) =
     Inr (jsonPrint (JObj [(''apiVersion'', JStr ver), (''items'', JArr (map encManagedCluster cs)),
        (''kind'', JStr ''ManagedClusterList''), (''metadata'', meta)]))"
    unfolding marshalsItems_def by blast
  then show ?thesis using assms(2)
    by (simp add: getManagedClusters_def jsonParse_print list_all_iff encManagedCluster_wf
        decManagedClusterList_enc del: jsonPrint.simps)
qed

definition ocmApi :: "cluster api" where
  "ocmApi = refApi\<lparr>apiMarshalList := (\<lambda>vs. Inr (jsonPrint (JObj [(''apiVersion'', JStr ''v1''),
     (''items'', JArr vs), (''kind'', JStr ''ManagedClusterList''), (''metadata'', JObj [])])))\<rparr>"

lemma ocmApi_marshals: "marshalsItems ocmApi"
  unfolding marshalsItems_def
  by (intro allI exI[of _ "''v1''"] exI[of _ "JObj []"]) (simp add: ocmApi_def)

definition exampleCluster :: "string \<Rightarrow> string \<Rightarrow> ManagedCluster" where
  "exampleCluster name available = \<lparr>mcAPIVersion = ''cluster.open-cluster-management.io/v1'',
     mcKind = ''ManagedCluster'', mcName = name,
     mcClientConfigs = [\<lparr>ccURL = ''http://'' @ name, ccCABundle = []\<rparr>],
     mcConditions = [\<lparr>condType = ''HubAcceptedManagedCluster'', condStatus = ''True'', condReason = []\<rparr>,
       \<lparr>condType = managedClusterConditionAvailable, condStatus = available, condReason = []\<rparr>]\<rparr>"

theorem managed_clusters_roundtrip_witness:
  "let cs = [exampleCluster ''c1'' ''True'', exampleCluster ''c2'' ''False'']
   in fst (run_state (getManagedClusters ocmApi)
        (inCluster (emptyCluster\<lparr>kClusters := map encManagedCluster cs\<rparr>))) = Inr cs"
  using managed_clusters_roundtrip[OF ocmApi_marshals,
      of "inCluster (emptyCluster\<lparr>kClusters := map encManagedCluster
          [exampleCluster ''c1'' ''True'', exampleCluster ''c2'' ''False'']\<rparr>)"
        "[exampleCluster ''c1'' ''True'', exampleCluster ''c2'' ''False'']"]
  by (simp add: ocmApi_def refApi_def)

text \<open>
  C28. A cluster is advertised as healthy only on full evidence: the status after the liveness
  check is healthy exactly when the API was reached, a health endpoint succeeded and the first
  availability condition ACM reports is "True"; and an API that was not reached always gives an
  unknown status, also when proxy prerequisites are missing.
\<close>

theorem healthy_needs_evidence:
  "(clusterHealthStatusAfterLiveness c l = ClusterStatusHealthy \<longleftrightarrow>
      lvOnline l \<and> lvHealthy l \<and> (\<exists>x. availableCondition c = Some x \<and> condStatus x = ''True''))
   \<and> (\<not> lvOnline l \<longrightarrow> clusterHealthStatusAfterLiveness c l = ClusterStatusUnknown
        \<and> clusterHealthStatusAfterProxyPrerequisiteFailure l = ClusterStatusUnknown)
   \<and> clusterHealthStatusAfterLiveness c l \<noteq> ClusterStatusUnset"
  by (auto simp: clusterHealthStatusAfterLiveness_def clusterHealthStatus_first
      clusterHealthStatusAfterProxyPrerequisiteFailure_def split: option.split)

theorem healthy_needs_evidence_witness:
  "clusterHealthStatusAfterLiveness (exampleCluster ''c1'' ''True'')
     \<lparr>lvOnline = False, lvHealthy = False\<rparr> = ClusterStatusUnknown
   \<and> clusterHealthStatusAfterLiveness (exampleCluster ''c1'' ''True'')
     \<lparr>lvOnline = True, lvHealthy = True\<rparr> = ClusterStatusHealthy"
  using healthy_needs_evidence[of "exampleCluster ''c1'' ''True''" "\<lparr>lvOnline = False, lvHealthy = False\<rparr>"]
    healthy_needs_evidence[of "exampleCluster ''c1'' ''True''" "\<lparr>lvOnline = True, lvHealthy = True\<rparr>"]
  by (simp add: availableCondition_def exampleCluster_def managedClusterConditionAvailable_def)

end
