(* ===== verification/Probes.thy ===== *)
theory Probes
  imports Clusters
begin

text \<open>
  Probing the managed clusters (\<^verbatim>\<open>internal/controller/krkntargetrequest_controller.go\<close>):
  \<^verbatim>\<open>buildClusterTargetWithProbe\<close>, \<^verbatim>\<open>validateClusterCredentials\<close> and
  \<^verbatim>\<open>probeManagedClusters\<close>.  The latter runs a pool of goroutines over a channel of indices.
  \<open>probeManagedClusters\<close> is its sequential run, which the reconciler below uses; \<open>pool_step\<close>
  is the pool itself as a step relation, one rule per move a goroutine can make, and the
  theorems show that every complete run of the pool fills the result slice with one answer per
  input, at the input's own index, and that no run is stuck or endless.
\<close>

definition maxConcurrentClusterProbes :: nat where
  "maxConcurrentClusterProbes = 8"

definition clusterLivenessTimeout :: nat where
  "clusterLivenessTimeout = 2 * 1000000000"  \<comment> \<open>2 * time.Second\<close>

record clusterProbeInput =
  piCluster :: ManagedCluster
  piClusterURL :: string
  piClusterCABundle :: string
  piProbeURL :: string
  piProbeCABundle :: string
  piProxyModeEnabled :: bool

record clusterProbeResult =
  prTarget :: ClusterTarget
  prLiveness :: clusterLivenessResult
  prErr :: "err option"

type_synonym 'e livenessProbe =
  "string \<Rightarrow> string \<Rightarrow> ('e, clusterLivenessResult \<times> err option) prog"

type_synonym 'e credentialProbe = "string \<Rightarrow> nat \<Rightarrow> ('e, err option) prog"

text \<open>The reconciler of KrknTargetRequest; a probe left nil stands for the default one.\<close>

record 'e KrknTargetRequestReconciler =
  OperatorName :: string
  OperatorNamespace :: string
  clusterLivenessProbe :: "'e livenessProbe option"
  clusterCredentialProbe :: "'e credentialProbe option"

definition buildClusterTargetWithProbe :: "'e api \<Rightarrow> string \<Rightarrow> string \<Rightarrow> string \<Rightarrow>
    'e livenessProbe \<Rightarrow> ('e, ClusterTarget \<times> clusterLivenessResult \<times> err option) prog" where
  "buildClusterTargetWithProbe a clusterName clusterAPIURL caBundle probe = do {
     (liveness, livenessErr) \<leftarrow> probe clusterAPIURL caBundle;
     let online = lvOnline liveness;
     checkedAt \<leftarrow> Now a;
     ret (\<lparr>ClusterName = clusterName, ClusterAPIURL = clusterAPIURL, Online = Some online,
           CheckedAt = Some checkedAt, ClusterStatus = ClusterStatusUnset\<rparr>, liveness, livenessErr)
   }"

definition validateClusterCredentials ::
    "string \<Rightarrow> 'e credentialProbe option \<Rightarrow> ('e, err option) prog" where
  "validateClusterCredentials kubeconfigBase64 probe =
     (case probe of
        None \<Rightarrow> ret (Some (ErrMsg ''cluster credential probe must not be nil''))
      | Some p \<Rightarrow> p kubeconfigBase64 clusterLivenessTimeout)"

definition probeOne ::
    "'e api \<Rightarrow> 'e livenessProbe \<Rightarrow> clusterProbeInput \<Rightarrow> ('e, clusterProbeResult) prog" where
  "probeOne a probe input = do {
     (target, liveness, err) \<leftarrow> buildClusterTargetWithProbe a (mcName (piCluster input))
        (piProbeURL input) (piProbeCABundle input) probe;
     ret \<lparr>prTarget = target, prLiveness = liveness, prErr = err\<rparr>
   }"

definition probeManagedClusters :: "'e api \<Rightarrow> clusterProbeInput list \<Rightarrow> 'e livenessProbe \<Rightarrow>
    ('e, clusterProbeResult list) prog" where
  "probeManagedClusters a inputs probe = mapM (probeOne a probe) inputs"

section \<open>The pool of goroutines\<close>

text \<open>
  A goroutine waits on the channel, works on an index, or has left its loop because the channel
  is closed.  \<open>sent\<close> indices have been received by the workers, in order; the slice of results
  starts empty.
\<close>

datatype worker = Waiting | Working nat | Finished

record 'r pool =
  sent :: nat
  workers :: "worker list"
  results :: "'r option list"

definition workerCount :: "nat \<Rightarrow> nat" where
  "workerCount n = (if n < maxConcurrentClusterProbes then n else maxConcurrentClusterProbes)"

definition startPool :: "nat \<Rightarrow> 'r pool" where
  "startPool n = \<lparr>sent = 0, workers = replicate (workerCount n) Waiting, results = replicate n None\<rparr>"

text \<open>
  \<open>answer i r\<close> says that probing input \<open>i\<close> may give \<open>r\<close>.  The unbuffered send of the next
  index meets a waiting worker; a working one stores its answer and waits again; once all
  indices are sent the channel is closed and waiting workers finish.
\<close>

inductive pool_step :: "(nat \<Rightarrow> 'r \<Rightarrow> bool) \<Rightarrow> nat \<Rightarrow> 'r pool \<Rightarrow> 'r pool \<Rightarrow> bool"
  for answer :: "nat \<Rightarrow> 'r \<Rightarrow> bool" and n :: nat where
  receive: "k < length (workers s) \<Longrightarrow> workers s ! k = Waiting \<Longrightarrow> sent s < n \<Longrightarrow>
     pool_step answer n s (s\<lparr>sent := Suc (sent s), workers := (workers s)[k := Working (sent s)]\<rparr>)"
| store: "k < length (workers s) \<Longrightarrow> workers s ! k = Working i \<Longrightarrow> answer i r \<Longrightarrow>
     pool_step answer n s (s\<lparr>workers := (workers s)[k := Waiting], results := (results s)[i := Some r]\<rparr>)"
| finish: "k < length (workers s) \<Longrightarrow> workers s ! k = Waiting \<Longrightarrow> sent s = n \<Longrightarrow>
     pool_step answer n s (s\<lparr>workers := (workers s)[k := Finished]\<rparr>)"

inductive pool_run :: "(nat \<Rightarrow> 'r \<Rightarrow> bool) \<Rightarrow> nat \<Rightarrow> nat \<Rightarrow> 'r pool \<Rightarrow> bool"
  for answer :: "nat \<Rightarrow> 'r \<Rightarrow> bool" and n :: nat where
  start: "pool_run answer n 0 (startPool n)"
| step: "pool_run answer n m s \<Longrightarrow> pool_step answer n s t \<Longrightarrow> pool_run answer n (Suc m) t"

definition poolDone :: "'r pool \<Rightarrow> bool" where
  "poolDone s = list_all (\<lambda>v. v = Finished) (workers s)"

definition busy :: "'r pool \<Rightarrow> nat" where
  "busy s = length (filter (\<lambda>v. \<exists>i. v = Working i) (workers s))"

inductive_cases pool_stepE: "pool_step answer n s t"

definition pool_inv :: "(nat \<Rightarrow> 'r \<Rightarrow> bool) \<Rightarrow> nat \<Rightarrow> 'r pool \<Rightarrow> bool" where
  "pool_inv answer n s =
     (length (workers s) = workerCount n \<and> length (results s) = n \<and> sent s \<le> n
      \<and> (\<forall>k < length (workers s). \<forall>i. workers s ! k = Working i \<longrightarrow> i < sent s \<and> results s ! i = None)
      \<and> (\<forall>k < length (workers s). \<forall>j < length (workers s). \<forall>i.
            workers s ! k = Working i \<longrightarrow> workers s ! j = Working i \<longrightarrow> k = j)
      \<and> (\<forall>i < sent s. results s ! i = None \<longrightarrow> (\<exists>k < length (workers s). workers s ! k = Working i))
      \<and> (\<forall>i < n. \<forall>r. results s ! i = Some r \<longrightarrow> answer i r \<and> i < sent s)
      \<and> (\<forall>k < length (workers s). workers s ! k = Finished \<longrightarrow> sent s = n))"

lemma pool_inv_start: "pool_inv answer n (startPool n)"
  by (simp add: pool_inv_def startPool_def)

lemma pool_invD:
  assumes "pool_inv answer n s"
  shows pool_lengths: "length (workers s) = workerCount n" "length (results s) = n" "sent s \<le> n"
    and pool_owns: "\<And>k i. k < length (workers s) \<Longrightarrow> workers s ! k = Working i \<Longrightarrow>
          i < sent s \<and> results s ! i = None"
    and pool_unique: "\<And>k j i. k < length (workers s) \<Longrightarrow> j < length (workers s) \<Longrightarrow>
          workers s ! k = Working i \<Longrightarrow> workers s ! j = Working i \<Longrightarrow> k = j"
    and pool_covers: "\<And>i. i < sent s \<Longrightarrow> results s ! i = None \<Longrightarrow>
          \<exists>k < length (workers s). workers s ! k = Working i"
    and pool_answers: "\<And>i r. i < n \<Longrightarrow> results s ! i = Some r \<Longrightarrow> answer i r \<and> i < sent s"
    and pool_closed: "\<And>k. k < length (workers s) \<Longrightarrow> workers s ! k = Finished \<Longrightarrow> sent s = n"
  using assms unfolding pool_inv_def by blast+

lemma pool_invI:
  assumes "length (workers s) = workerCount n" "length (results s) = n" "sent s \<le> n"
    and "\<And>k i. k < length (workers s) \<Longrightarrow> workers s ! k = Working i \<Longrightarrow>
          i < sent s \<and> results s ! i = None"
    and "\<And>k j i. k < length (workers s) \<Longrightarrow> j < length (workers s) \<Longrightarrow>
          workers s ! k = Working i \<Longrightarrow> workers s ! j = Working i \<Longrightarrow> k = j"
    and "\<And>i. i < sent s \<Longrightarrow> results s ! i = None \<Longrightarrow>
          \<exists>k < length (workers s). workers s ! k = Working i"
    and "\<And>i r. i < n \<Longrightarrow> results s ! i = Some r \<Longrightarrow> answer i r \<and> i < sent s"
    and "\<And>k. k < length (workers s) \<Longrightarrow> workers s ! k = Finished \<Longrightarrow> sent s = n"
  shows "pool_inv answer n s"
  using assms unfolding pool_inv_def by blast

text \<open>A slot of the updated slice of workers is the new one or an old one.\<close>

lemma nth_updateD: "k < length xs \<Longrightarrow> xs[j := v] ! k = x \<Longrightarrow> (k = j \<and> v = x) \<or> (k \<noteq> j \<and> xs ! k = x)"
  by (cases "k = j") auto

lemma pool_inv_receive:
  assumes inv: "pool_inv answer n s" and k: "k < length (workers s)" "workers s ! k = Waiting" "sent s < n"
  shows "pool_inv answer n (s\<lparr>sent := Suc (sent s), workers := (workers s)[k := Working (sent s)]\<rparr>)"
    (is "pool_inv _ _ ?t")
proof (rule pool_invI)
  note D = pool_invD[OF inv]
  have fresh: "results s ! sent s = None"
    using pool_answers[OF inv k(3)] by (cases "results s ! sent s") auto
  show "length (workers ?t) = workerCount n" "length (results ?t) = n" "sent ?t \<le> n"
    using D(1-3) k(3) by simp_all
  show "i < sent ?t \<and> results ?t ! i = None" if "j < length (workers ?t)" "workers ?t ! j = Working i" for j i
    using that nth_updateD[of j "workers s" k] pool_owns[OF inv, of j i] fresh by fastforce
  show "j = l" if "j < length (workers ?t)" "l < length (workers ?t)" "workers ?t ! j = Working i"
    "workers ?t ! l = Working i" for j l i
    using that nth_updateD[of j "workers s" k] nth_updateD[of l "workers s" k]
      pool_unique[OF inv, of j l i] pool_owns[OF inv, of j i] pool_owns[OF inv, of l i] by fastforce
  show "\<exists>j < length (workers ?t). workers ?t ! j = Working i" if "i < sent ?t" "results ?t ! i = None" for i
  proof (cases "i = sent s")
    case True
    then show ?thesis using k(1) by (intro exI[of _ k]) simp
  next
    case False
    with that obtain j where "j < length (workers s)" "workers s ! j = Working i"
      using pool_covers[OF inv, of i] by auto
    moreover with k(2) have "j \<noteq> k" by auto
    ultimately show ?thesis by (intro exI[of _ j]) simp
  qed
  show "answer i r \<and> i < sent ?t" if "i < n" "results ?t ! i = Some r" for i r
    using that pool_answers[OF inv, of i r] by simp
  show "sent ?t = n" if "j < length (workers ?t)" "workers ?t ! j = Finished" for j
    using that nth_updateD[of j "workers s" k] pool_closed[OF inv, of j] k(3) by fastforce
qed

lemma pool_inv_store:
  assumes inv: "pool_inv answer n s" and k: "k < length (workers s)" "workers s ! k = Working i0"
    "answer i0 r0"
  shows "pool_inv answer n
    (s\<lparr>workers := (workers s)[k := Waiting], results := (results s)[i0 := Some r0]\<rparr>)"
    (is "pool_inv _ _ ?t")
proof (rule pool_invI)
  note D = pool_invD[OF inv]
  have i0: "i0 < sent s" "i0 < length (results s)" using pool_owns[OF inv k(1,2)] D(2,3) by auto
  show "length (workers ?t) = workerCount n" "length (results ?t) = n" "sent ?t \<le> n"
    using D(1-3) by simp_all
  have old: "j \<noteq> k \<and> workers s ! j = w" if "j < length (workers s)" "workers ?t ! j = w" "w \<noteq> Waiting" for j w
    using that nth_updateD[of j "workers s" k Waiting w] by auto
  show "i < sent ?t \<and> results ?t ! i = None" if "j < length (workers ?t)" "workers ?t ! j = Working i" for j i
    using that old[of j "Working i"] pool_owns[OF inv, of j i] pool_unique[OF inv, of j k i] k by fastforce
  show "j = l" if "j < length (workers ?t)" "l < length (workers ?t)" "workers ?t ! j = Working i"
    "workers ?t ! l = Working i" for j l i
    using that old[of j "Working i"] old[of l "Working i"] pool_unique[OF inv, of j l i] by simp
  show "\<exists>j < length (workers ?t). workers ?t ! j = Working i" if "i < sent ?t" "results ?t ! i = None" for i
  proof -
    from that i0 have "i \<noteq> i0" "i < sent s" "results s ! i = None"
      by (auto simp: nth_list_update split: if_splits)
    then obtain j where "j < length (workers s)" "workers s ! j = Working i"
      using pool_covers[OF inv, of i] by auto
    moreover from this k(2) \<open>i \<noteq> i0\<close> have "j \<noteq> k" by auto
    ultimately show ?thesis by (intro exI[of _ j]) simp
  qed
  show "answer i r \<and> i < sent ?t" if "i < n" "results ?t ! i = Some r" for i r
    using that pool_answers[OF inv, of i r] i0 k(3) by (cases "i = i0") auto
  show "sent ?t = n" if "j < length (workers ?t)" "workers ?t ! j = Finished" for j
    using that old[of j Finished] pool_closed[OF inv, of j] by simp
qed

lemma pool_inv_finish:
  assumes inv: "pool_inv answer n s" and k: "k < length (workers s)" "workers s ! k = Waiting" "sent s = n"
  shows "pool_inv answer n (s\<lparr>workers := (workers s)[k := Finished]\<rparr>)" (is "pool_inv _ _ ?t")
proof (rule pool_invI)
  note D = pool_invD[OF inv]
  show "length (workers ?t) = workerCount n" "length (results ?t) = n" "sent ?t \<le> n"
    using D(1-3) by simp_all
  have old: "workers s ! j = Working i" if "j < length (workers s)" "workers ?t ! j = Working i" for j i
    using that nth_updateD[of j "workers s" k Finished] by auto
  show "i < sent ?t \<and> results ?t ! i = None" if "j < length (workers ?t)" "workers ?t ! j = Working i" for j i
    using that old[of j i] pool_owns[OF inv, of j i] by simp
  show "j = l" if "j < length (workers ?t)" "l < length (workers ?t)" "workers ?t ! j = Working i"
    "workers ?t ! l = Working i" for j l i
    using that old[of j i] old[of l i] pool_unique[OF inv, of j l i] by simp
  show "\<exists>j < length (workers ?t). workers ?t ! j = Working i" if "i < sent ?t" "results ?t ! i = None" for i
  proof -
    from that obtain j where "j < length (workers s)" "workers s ! j = Working i"
      using pool_covers[OF inv, of i] by auto
    moreover from this k(2) have "j \<noteq> k" by auto
    ultimately show ?thesis by (intro exI[of _ j]) simp
  qed
  show "answer i r \<and> i < sent ?t" if "i < n" "results ?t ! i = Some r" for i r
    using that pool_answers[OF inv, of i r] by simp
  show "sent ?t = n" if "j < length (workers ?t)" "workers ?t ! j = Finished" for j
    using k(3) by simp
qed

lemma pool_step_inv: "pool_step answer n s t \<Longrightarrow> pool_inv answer n s \<Longrightarrow> pool_inv answer n t"
  by (induction rule: pool_step.induct)
    (auto intro: pool_inv_receive pool_inv_store pool_inv_finish)

lemma pool_run_inv: "pool_run answer n m s \<Longrightarrow> pool_inv answer n s"
  by (induction rule: pool_run.induct) (auto intro: pool_inv_start pool_step_inv)

text \<open>Every move uses up one unit of work, so all complete runs have the same length.\<close>

fun weight :: "worker \<Rightarrow> nat" where
  "weight Waiting = 1"
| "weight (Working i) = 2"
| "weight Finished = 0"

definition workLeft :: "nat \<Rightarrow> 'r pool \<Rightarrow> nat" where
  "workLeft n s = 2 * (n - sent s) + sum_list (map weight (workers s))"

lemma weight_update:
  "k < length ws \<Longrightarrow> sum_list (map weight (ws[k := v])) + weight (ws ! k)
     = sum_list (map weight ws) + weight v"
  by (induction ws arbitrary: k) (auto simp: nth_Cons' less_Suc_eq_0_disj split: nat.split)

lemma pool_step_work: "pool_step answer n s t \<Longrightarrow> workLeft n s = Suc (workLeft n t)"
proof (induction rule: pool_step.induct)
  case (receive k s)
  then show ?case using weight_update[of k "workers s" "Working (sent s)"]
    by (simp add: workLeft_def)
next
  case (store k s i r)
  then show ?case using weight_update[of k "workers s" Waiting] by (simp add: workLeft_def)
next
  case (finish k s)
  then show ?case using weight_update[of k "workers s" Finished] by (simp add: workLeft_def)
qed

lemma pool_run_work: "pool_run answer n m s \<Longrightarrow> m + workLeft n s = 2 * n + workerCount n"
proof (induction rule: pool_run.induct)
  case start
  show ?case by (simp add: workLeft_def startPool_def sum_list_replicate)
next
  case (step m s t)
  then show ?case using pool_step_work[of answer n s t] by simp
qed

lemma pool_progress:
  assumes inv: "pool_inv answer n s" and "\<not> poolDone s" "\<And>i. i < n \<Longrightarrow> \<exists>r. answer i r"
  shows "\<exists>t. pool_step answer n s t"
proof -
  from assms(2) obtain k where k: "k < length (workers s)" "workers s ! k \<noteq> Finished"
    by (auto simp: poolDone_def list_all_length)
  show ?thesis
  proof (cases "workers s ! k")
    case Waiting
    show ?thesis
    proof (cases "sent s < n")
      case True
      from receive[OF k(1) Waiting this] show ?thesis by blast
    next
      case False
      with pool_lengths(3)[OF inv] have "sent s = n" by simp
      from finish[OF k(1) Waiting this] show ?thesis by blast
    qed
  next
    case (Working i)
    with pool_owns[OF inv k(1)] pool_lengths(3)[OF inv] have "i < n" by fastforce
    with assms(3) obtain r where "answer i r" by blast
    with store[where answer = answer and i = i and r = r, OF k(1) Working] show ?thesis by blast
  qed (use k in simp)
qed

lemma pool_done_results:
  assumes inv: "pool_inv answer n s" and "poolDone s" "0 < n"
  shows "length (results s) = n \<and> (\<forall>i < n. \<exists>r. results s ! i = Some r \<and> answer i r)"
proof -
  from assms(3) have "0 < length (workers s)"
    using pool_lengths(1)[OF inv] by (simp add: workerCount_def maxConcurrentClusterProbes_def)
  moreover from assms(2) have all: "\<And>k. k < length (workers s) \<Longrightarrow> workers s ! k = Finished"
    by (simp add: poolDone_def list_all_length)
  ultimately have "sent s = n" using pool_closed[OF inv, of 0] by simp
  then have "results s ! i \<noteq> None" if "i < n" for i
  proof -
    have "\<not> (\<exists>k < length (workers s). workers s ! k = Working i)" using all by auto
    with that \<open>sent s = n\<close> show ?thesis using pool_covers[OF inv, of i] by blast
  qed
  then show ?thesis
    using pool_answers[OF inv] pool_lengths(2)[OF inv] by (metis not_None_eq)
qed

section \<open>What a probe result says\<close>

definition probeResultFor :: "clusterProbeInput \<Rightarrow> clusterProbeResult \<Rightarrow> bool" where
  "probeResultFor input r =
     (ClusterName (prTarget r) = mcName (piCluster input)
      \<and> ClusterAPIURL (prTarget r) = piProbeURL input
      \<and> Online (prTarget r) = Some (lvOnline (prLiveness r)) \<and> CheckedAt (prTarget r) \<noteq> None
      \<and> soundLiveness (prLiveness r, prErr r))"

context liveness_probe
begin

lemma probeOne_result: "probeResultFor input (fst (run_state (probeOne a probe input) w))"
  using probe_sound[of "piProbeURL input" "piProbeCABundle input" w]
  by (auto simp: probeOne_def buildClusterTargetWithProbe_def probeResultFor_def outcome_def
      split: prod.split)

lemma only_probeOne: "(\<And>c. \<not> writes c \<Longrightarrow> P c) \<Longrightarrow> only P (probeOne a probe input)"
  unfolding probeOne_def buildClusterTargetWithProbe_def Let_def
  by (intro wp only_mono[OF probe_calls])

lemma probeManagedClusters_results:
  "list_all2 probeResultFor inputs (fst (run_state (probeManagedClusters a inputs probe) w))"
proof (induction inputs arbitrary: w)
  case (Cons input inputs)
  obtain r w' where r: "run_state (probeOne a probe input) w = (r, w')" by fastforce
  obtain rs w'' where rs: "run_state (probeManagedClusters a inputs probe) w' = (rs, w'')" by fastforce
  from probeOne_result[of input a w] r have "probeResultFor input r" by simp
  moreover from Cons.IH[of w'] rs have "list_all2 probeResultFor inputs rs" by simp
  ultimately show ?case using r rs by (simp add: probeManagedClusters_def)
qed (simp add: probeManagedClusters_def)

lemma only_probeManagedClusters:
  "(\<And>c. \<not> writes c \<Longrightarrow> P c) \<Longrightarrow> only P (probeManagedClusters a inputs probe)"
  unfolding probeManagedClusters_def by (intro wp only_probeOne)

end

text \<open>A smallest complete run, for the examples: one input, one worker, three moves.\<close>

definition onePool :: "'r \<Rightarrow> 'r pool" where
  "onePool r = \<lparr>sent = 1, workers = [Finished], results = [Some r]\<rparr>"

lemma onePool_done: "poolDone (onePool r)"
  by (simp add: poolDone_def onePool_def)

lemma pool_run_one:
  fixes r :: 'r
  assumes "answer 0 r"
  shows "pool_run answer 1 3 (onePool r)"
proof -
  let ?s = "\<lambda>k ws rs. \<lparr>sent = k, workers = ws, results = rs\<rparr> :: 'r pool"
  have "startPool 1 = ?s 0 [Waiting] [None]"
    by (simp add: startPool_def workerCount_def maxConcurrentClusterProbes_def)
  with pool_run.start[of answer 1] have 0: "pool_run answer 1 0 (?s 0 [Waiting] [None])" by simp
  have "pool_step answer 1 (?s 0 [Waiting] [None]) (?s 1 [Working 0] [None])"
    using receive[of 0 "?s 0 [Waiting] [None]" 1 answer] by simp
  from pool_run.step[OF 0 this] have 1: "pool_run answer 1 1 (?s 1 [Working 0] [None])" by simp
  have "pool_step answer 1 (?s 1 [Working 0] [None]) (?s 1 [Waiting] [Some r])"
    using store[of 0 "?s 1 [Working 0] [None]" 0 answer r 1] assms by simp
  from pool_run.step[OF 1 this] have 2: "pool_run answer 1 2 (?s 1 [Waiting] [Some r])"
    by (simp add: numeral_2_eq_2)
  have "pool_step answer 1 (?s 1 [Waiting] [Some r]) (onePool r)"
    using finish[of 0 "?s 1 [Waiting] [Some r]" 1 answer] by (simp add: onePool_def)
  from pool_run.step[OF 2 this] show ?thesis by (simp add: numeral_3_eq_3 numeral_2_eq_2)
qed

section \<open>Properties\<close>

text \<open>
  The worker pool is correct: every complete run of \<open>n\<close> probes has exactly
  \<open>2 * n + workerCount n\<close> moves, whatever the scheduling, and leaves a slice of \<open>n\<close> results
  in which the entry at each index is an answer to the probe of the input at that index.
\<close>

theorem pool_complete:
  assumes "pool_run answer n m s" "poolDone s"
  shows "m = 2 * n + workerCount n \<and> length (results s) = n
     \<and> (\<forall>i < n. \<exists>r. results s ! i = Some r \<and> answer i r)"
proof -
  from assms(1) have inv: "pool_inv answer n s" by (rule pool_run_inv)
  have idle: "sum_list (map weight (workers s)) = 0"
    using assms(2) by (auto simp: poolDone_def list_all_iff sum_list_eq_0_iff)
  show ?thesis
  proof (cases "0 < n")
    case True
    have "0 < length (workers s)"
      using True pool_lengths(1)[OF inv] by (simp add: workerCount_def maxConcurrentClusterProbes_def)
    with assms(2) have "sent s = n"
      using pool_closed[OF inv, of 0] by (simp add: poolDone_def list_all_length)
    with idle have "workLeft n s = 0" by (simp add: workLeft_def)
    with pool_run_work[OF assms(1)] pool_done_results[OF inv assms(2) True] show ?thesis by simp
  next
    case False
    with idle have "workLeft n s = 0" by (simp add: workLeft_def)
    with False pool_run_work[OF assms(1)] pool_lengths(2)[OF inv] show ?thesis by simp
  qed
qed

theorem pool_complete_witness:
  "length (results (onePool (10 :: nat))) = 1 \<and> results (onePool 10) ! 0 = Some (10 :: nat)"
  using pool_complete[OF pool_run_one[where answer = "\<lambda>i r. r = 10 + i"] onePool_done] by simp

text \<open>
  C25. The pool is bounded, never stuck and always ends: in every reachable state at most eight
  probes are in flight, a state in which some worker has not finished has a next move as long as
  every probe can give some answer, and no run is longer than \<open>2 * n + 8\<close> moves.
\<close>

theorem pool_bounded_progress:
  assumes "pool_run answer n m s"
  shows "busy s \<le> 8 \<and> m \<le> 2 * n + 8
     \<and> (\<not> poolDone s \<and> (\<forall>i < n. \<exists>r. answer i r) \<longrightarrow> (\<exists>t. pool_step answer n s t))"
proof -
  from assms have inv: "pool_inv answer n s" by (rule pool_run_inv)
  have "workerCount n \<le> 8" by (simp add: workerCount_def maxConcurrentClusterProbes_def)
  moreover have "busy s \<le> length (workers s)" by (simp add: busy_def)
  ultimately show ?thesis
    using pool_lengths(1)[OF inv] pool_run_work[OF assms] pool_progress[OF inv] by auto
qed

theorem pool_bounded_progress_witness:
  "\<exists>t :: nat pool. pool_step (\<lambda>i r. True) 20 (startPool 20) t"
proof -
  have "\<not> poolDone (startPool 20 :: nat pool)"
    by (simp add: poolDone_def startPool_def workerCount_def maxConcurrentClusterProbes_def
        list_all_iff)
  then show ?thesis
    using pool_bounded_progress[OF pool_run.start[of "\<lambda>i r. True :: bool" 20]] by blast
qed



end
