(* ===== verification/Proxy.thy ===== *)
theory Proxy
  imports ConfigStore Probes
begin

text \<open>
  \<^verbatim>\<open>internal/controller/proxy_helpers.go\<close>: everything needed to reach a managed cluster through
  the OCM cluster proxy: the proxy URL, its CA, the operator's own token, and the ManifestWork
  that grants the operator its rights on the managed cluster.
\<close>

record ProxyConfig =
  Enabled :: bool
  ProxyURL :: string
  ProxyCA :: string
  ProxyToken :: string

definition directConfig :: ProxyConfig where
  "directConfig = \<lparr>Enabled = False, ProxyURL = [], ProxyCA = [], ProxyToken = []\<rparr>"

definition ManifestWorkName :: string where
  "ManifestWorkName = ''krkn-service-proxy-rbac''"

definition ServiceAccountTokenPath :: string where
  "ServiceAccountTokenPath = ''/var/run/secrets/kubernetes.io/serviceaccount/token''"

definition DefaultServiceAccountName :: string where
  "DefaultServiceAccountName = ''controller-manager''"

definition ProxyServiceLabel :: string where
  "ProxyServiceLabel = ''component''"

definition ProxyServiceLabelValue :: string where
  "ProxyServiceLabelValue = ''cluster-proxy-addon-user''"

definition manifestWorkGVK :: "string \<times> string \<times> string" where
  "manifestWorkGVK = (''work.open-cluster-management.io'', ''v1'', ''ManifestWork'')"

section \<open>The proxy endpoint\<close>

definition findProxyService ::
    "'e api \<Rightarrow> string \<Rightarrow> ('e, err + string \<times> string \<times> int) prog" where
  "findProxyService a namespace = do {
     l \<leftarrow> List_Services a namespace [(ProxyServiceLabel, ProxyServiceLabelValue)];
     ret (case l of
       Inl e \<Rightarrow> Inl (ErrWrap ''failed to list services in namespace'' e)
     | Inr items \<Rightarrow>
         (case items of
            [] \<Rightarrow> Inl (ErrMsg ''no proxy service found'')
          | service # _ \<Rightarrow>
              (case svcPorts service of
                 [] \<Rightarrow> Inl (ErrMsg ''proxy service has no ports defined'')
               | port # _ \<Rightarrow> Inr (svcName service, svcNamespace service, port))))
   }"

definition proxyURLOf :: "string \<Rightarrow> string \<Rightarrow> int \<Rightarrow> string \<Rightarrow> string" where
  "proxyURLOf serviceName serviceNamespace servicePort clusterName =
     ''https://'' @ serviceName @ ''.'' @ serviceNamespace @ ''.svc:'' @ showInt servicePort @
     ''/'' @ clusterName"

definition getProxyURL :: "'e api \<Rightarrow> string \<Rightarrow> ('e, err + string) prog" where
  "getProxyURL a clusterName = do {
     g \<leftarrow> Get_ManagedProxyConfiguration a ([], ''cluster-proxy'');
     case g of
       Inl e \<Rightarrow> ret (Inl (ErrWrap ''failed to get ManagedProxyConfiguration'' e))
     | Inr proxyConfig \<Rightarrow>
         (case apiNestedString a proxyConfig [''spec'', ''proxyServer'', ''namespace''] of
            Inl e \<Rightarrow> ret (Inl (ErrWrap ''failed to extract proxyServer.namespace'' e))
          | Inr None \<Rightarrow> ret (Inl (ErrMsg ''failed to extract proxyServer.namespace''))
          | Inr (Some proxyNamespace) \<Rightarrow> do {
              s \<leftarrow> findProxyService a proxyNamespace;
              ret (case s of
                Inl e \<Rightarrow> Inl (ErrWrap ''failed to find proxy service'' e)
              | Inr (serviceName, serviceNamespace, servicePort) \<Rightarrow>
                  Inr (proxyURLOf serviceName serviceNamespace servicePort clusterName))
            })
   }"

definition getProxyCA :: "'e api \<Rightarrow> ('e, err + string) prog" where
  "getProxyCA a = do {
     g \<leftarrow> Get_ConfigMap a (''multicluster-engine'', ''openshift-service-ca.crt'');
     ret (case g of
       Inl e \<Rightarrow> Inl (ErrWrap ''failed to get service CA ConfigMap'' e)
     | Inr configMap \<Rightarrow>
         (case mapGet (cmData configMap) ''service-ca.crt'' of
            None \<Rightarrow> Inl (ErrMsg ''service-ca.crt key not found in ConfigMap'')
          | Some caData \<Rightarrow> Inr (base64Encode caData)))
   }"

definition getOperatorToken :: "'e api \<Rightarrow> ('e, err + string) prog" where
  "getOperatorToken a = do {
     f \<leftarrow> ReadFile a ServiceAccountTokenPath;
     ret (case f of Inl e \<Rightarrow> Inl (ErrWrap ''failed to read service account token'' e)
          | Inr tokenBytes \<Rightarrow> Inr tokenBytes)
   }"

section \<open>The ManifestWork\<close>

definition getServiceAccountName :: "'e api \<Rightarrow> ('e, string) prog" where
  "getServiceAccountName a = do {
     saName \<leftarrow> Getenv a ''SERVICE_ACCOUNT_NAME'';
     ret (if saName \<noteq> [] then saName else DefaultServiceAccountName)
   }"

definition proxyUserName :: "string \<Rightarrow> string \<Rightarrow> string" where
  "proxyUserName operatorNamespace serviceAccountName =
     ''cluster:hub:system:serviceaccount:'' @ operatorNamespace @ '':'' @ serviceAccountName"

definition manifestWorkTemplate :: "string \<Rightarrow> string" where
  "manifestWorkTemplate user = Join [
     ''apiVersion: work.open-cluster-management.io/v1'',
     ''kind: ManifestWork'',
     ''metadata:'',
     ''  name: '' @ ManifestWorkName,
     ''  labels:'',
     ''    app.kubernetes.io/name: krkn'',
     ''    app.kubernetes.io/component: service-proxy-rbac'',
     ''spec:'',
     ''  workload:'',
     ''    manifests:'',
     ''      - apiVersion: rbac.authorization.k8s.io/v1'',
     ''        kind: ClusterRoleBinding'',
     ''        metadata:'',
     ''          name: krkn-service-proxy-access'',
     ''          labels:'',
     ''            app.kubernetes.io/name: krkn'',
     ''            app.kubernetes.io/component: service-proxy-rbac'',
     ''        roleRef:'',
     ''          apiGroup: rbac.authorization.k8s.io'',
     ''          kind: ClusterRole'',
     ''          name: cluster-admin'',
     ''        subjects:'',
     ''          - apiGroup: rbac.authorization.k8s.io'',
     ''            kind: User'',
     ''            name: '' @ user] [CHR 0x0A]"

definition createManifestWork :: "'e api \<Rightarrow> string \<Rightarrow> string \<Rightarrow> ('e, err option) prog" where
  "createManifestWork a operatorNamespace clusterName = do {
     serviceAccountName \<leftarrow> getServiceAccountName a;
     case apiYamlUnmarshal a (manifestWorkTemplate
            (proxyUserName operatorNamespace serviceAccountName)) of
       Inl e \<Rightarrow> ret (Some (ErrWrap ''failed to parse ManifestWork template'' e))
     | Inr content \<Rightarrow> do {
         c \<leftarrow> Create_ManifestWork a
                \<lparr>mwNamespace = clusterName, mwGVK = manifestWorkGVK, mwObject = content\<rparr>;
         ret (case c of None \<Rightarrow> None
              | Some e \<Rightarrow> if isAlreadyExists e then None
                         else Some (ErrWrap ''failed to create ManifestWork'' e))
       }
   }"

text \<open>A string field of a condition, empty when missing or of another type.\<close>

definition conditionField :: "(string \<times> json) list \<Rightarrow> string \<Rightarrow> string" where
  "conditionField kvs f = (case map_of kvs f of Some (JStr s) \<Rightarrow> s | _ \<Rightarrow> [])"

fun scanConditions :: "json list \<Rightarrow> bool \<times> bool \<Rightarrow> bool \<times> bool" where
  "scanConditions [] flags = flags"
| "scanConditions (JObj kvs # rest) (applied, available) =
     scanConditions rest
       (applied \<or> (conditionField kvs ''type'' = ''Applied'' \<and> conditionField kvs ''status'' = ''True''),
        available \<or> (conditionField kvs ''type'' = ''Available'' \<and> conditionField kvs ''status'' = ''True''))"
| "scanConditions (cond # rest) flags = scanConditions rest flags"

definition ensureManifestWork :: "'e api \<Rightarrow> string \<Rightarrow> string \<Rightarrow> ('e, err option) prog" where
  "ensureManifestWork a operatorNamespace clusterName = do {
     g \<leftarrow> Get_ManifestWork a (clusterName, ManifestWorkName);
     case g of
       Inl e \<Rightarrow>
         if isNotFound e then do {
           c \<leftarrow> createManifestWork a operatorNamespace clusterName;
           ret (case c of Some e' \<Rightarrow> Some (ErrWrap ''failed to create ManifestWork'' e')
                | None \<Rightarrow> None)
         }
         else ret (Some (ErrWrap ''failed to get ManifestWork'' e))
     | Inr manifestWork \<Rightarrow>
         (case apiNestedSlice a manifestWork [''status'', ''conditions''] of
            Inl e \<Rightarrow> ret (Some (ErrMsg ''ManifestWork exists but has no status conditions''))
          | Inr None \<Rightarrow> ret (Some (ErrMsg ''ManifestWork exists but has no status conditions''))
          | Inr (Some conditions) \<Rightarrow>
              (let (applied, available) = scanConditions conditions (False, False) in
               if \<not> applied \<or> \<not> available then ret (Some (ErrMsg ''ManifestWork not ready''))
               else ret None))
   }"

section \<open>The proxy configuration\<close>

definition getProxyConfig :: "'e api \<Rightarrow> string \<Rightarrow> string \<Rightarrow> ('e, err + ProxyConfig) prog" where
  "getProxyConfig a operatorNamespace clusterName = do {
     enabled \<leftarrow> isProxyModeEnabled a clusterName;
     if \<not> enabled then ret (Inr directConfig)
     else do {
       m \<leftarrow> ensureManifestWork a operatorNamespace clusterName;
       case m of
         Some e \<Rightarrow> ret (Inl (ErrWrap ''ManifestWork validation failed'' e))
       | None \<Rightarrow> do {
           g \<leftarrow> Get_ManifestWork a (clusterName, ManifestWorkName);
           case g of
             Inl e \<Rightarrow> ret (Inl (ErrWrap ''failed to get ManifestWork after validation'' e))
           | Inr manifestWork \<Rightarrow>
               (case apiNestedSlice a manifestWork [''status'', ''conditions''] of
                  Inl e \<Rightarrow> ret (Inl (ErrWrap ''failed to parse ManifestWork status conditions'' e))
                | Inr None \<Rightarrow> ret (Inl (ErrMsg ''ManifestWork not yet Applied by OCM''))
                | Inr (Some conditions) \<Rightarrow>
                    if conditions = [] then ret (Inl (ErrMsg ''ManifestWork not yet Applied by OCM''))
                    else do {
                      u \<leftarrow> getProxyURL a clusterName;
                      case u of
                        Inl e \<Rightarrow> ret (Inl (ErrWrap ''ManagedProxyConfiguration or Service not found'' e))
                      | Inr proxyURL \<Rightarrow> do {
                          c \<leftarrow> getProxyCA a;
                          case c of
                            Inl e \<Rightarrow> ret (Inl (ErrWrap ''CA Secret not found'' e))
                          | Inr proxyCA \<Rightarrow> do {
                              t \<leftarrow> getOperatorToken a;
                              ret (case t of
                                Inl e \<Rightarrow> Inl (ErrWrap ''service account token not available'' e)
                              | Inr token \<Rightarrow> Inr \<lparr>Enabled = True, ProxyURL = proxyURL,
                                    ProxyCA = proxyCA, ProxyToken = token\<rparr>)
                            }
                        }
                    })
         }
     }
   }"

section \<open>Facts\<close>

lemma only_findProxyService [wp]: "(\<And>ls. P (CListServices ns ls)) \<Longrightarrow> only P (findProxyService a ns)"
  unfolding findProxyService_def by (intro wp)

lemma only_getProxyURL [wp]:
  "P (CGetManagedProxyConfiguration ([], ''cluster-proxy'')) \<Longrightarrow> (\<And>ns ls. P (CListServices ns ls)) \<Longrightarrow>
   only P (getProxyURL a c)"
  unfolding getProxyURL_def by (intro wp)

lemma only_getProxyCA [wp]: "(\<And>n. P (CGetConfigMap n)) \<Longrightarrow> only P (getProxyCA a)"
  unfolding getProxyCA_def by (intro wp)

lemma only_getOperatorToken [wp]: "only P (getOperatorToken a)"
  unfolding getOperatorToken_def by (intro wp)

lemma only_createManifestWork [wp]:
  "(\<And>obj. P (CCreateManifestWork \<lparr>mwNamespace = c, mwGVK = manifestWorkGVK, mwObject = obj\<rparr>)) \<Longrightarrow>
   only P (createManifestWork a ns c)"
  unfolding createManifestWork_def getServiceAccountName_def by (intro wp)

lemma only_ensureManifestWork [wp]:
  "P (CGetManifestWork (c, ManifestWorkName)) \<Longrightarrow>
   (\<And>obj. P (CCreateManifestWork \<lparr>mwNamespace = c, mwGVK = manifestWorkGVK, mwObject = obj\<rparr>)) \<Longrightarrow>
   only P (ensureManifestWork a ns c)"
  unfolding ensureManifestWork_def by (intro wp)

lemma only_getProxyConfig [wp]:
  assumes "P (CGetManifestWork (c, ManifestWorkName))"
    "\<And>obj. P (CCreateManifestWork \<lparr>mwNamespace = c, mwGVK = manifestWorkGVK, mwObject = obj\<rparr>)"
    "P (CGetManagedProxyConfiguration ([], ''cluster-proxy''))" "\<And>ns ls. P (CListServices ns ls)"
    "\<And>n. P (CGetConfigMap n)"
  shows "only P (getProxyConfig a ns c)"
  unfolding getProxyConfig_def by (intro wp assms)

text \<open>What OCM must report before the proxy may be used.\<close>

definition reports :: "json list \<Rightarrow> string \<Rightarrow> bool" where
  "reports conditions t = list_ex (\<lambda>v. case v of
       JObj kvs \<Rightarrow> conditionField kvs ''type'' = t \<and> conditionField kvs ''status'' = ''True''
     | _ \<Rightarrow> False) conditions"

lemma scanConditions_reports:
  "scanConditions cs (p, q) = (p \<or> reports cs ''Applied'', q \<or> reports cs ''Available'')"
proof (induction cs arbitrary: p q)
  case (Cons v cs)
  then show ?case by (cases v) (auto simp: reports_def)
qed (simp add: reports_def)

definition workReady :: "'e api \<Rightarrow> json \<Rightarrow> bool" where
  "workReady a work = (case apiNestedSlice a work [''status'', ''conditions''] of
      Inr (Some cs) \<Rightarrow> reports cs ''Applied'' \<and> reports cs ''Available'' | _ \<Rightarrow> False)"

text \<open>
  The configuration as a specification over an environment at rest: what each prerequisite
  yields there, and the record they determine together.
\<close>

definition rightOf :: "'e + 'a \<Rightarrow> 'a option" where
  "rightOf x = (case x of Inl e \<Rightarrow> None | Inr y \<Rightarrow> Some y)"

definition serviceAt :: "'e api \<Rightarrow> string \<Rightarrow> 'e \<Rightarrow> (string \<times> string \<times> int) option" where
  "serviceAt a ns k =
     (case fst (apiListServices a ns [(ProxyServiceLabel, ProxyServiceLabelValue)] k) of
        Inr (svc # _) \<Rightarrow> (case svcPorts svc of port # _ \<Rightarrow> Some (svcName svc, svcNamespace svc, port)
                          | [] \<Rightarrow> None)
      | _ \<Rightarrow> None)"

definition urlAt :: "'e api \<Rightarrow> string \<Rightarrow> 'e \<Rightarrow> string option" where
  "urlAt a c k =
     (case fst (apiGetManagedProxyConfiguration a ([], ''cluster-proxy'') k) of
        Inl e \<Rightarrow> None
      | Inr conf \<Rightarrow>
          (case apiNestedString a conf [''spec'', ''proxyServer'', ''namespace''] of
             Inr (Some ns) \<Rightarrow> map_option (\<lambda>(s, n, p). proxyURLOf s n p c) (serviceAt a ns k)
           | _ \<Rightarrow> None))"

definition caAt :: "'e api \<Rightarrow> 'e \<Rightarrow> string option" where
  "caAt a k =
     (case fst (apiGetConfigMap a (''multicluster-engine'', ''openshift-service-ca.crt'') k) of
        Inl e \<Rightarrow> None
      | Inr cm \<Rightarrow> map_option base64Encode (mapGet (cmData cm) ''service-ca.crt''))"

definition workAt :: "'e api \<Rightarrow> string \<Rightarrow> 'e \<Rightarrow> bool" where
  "workAt a c k = (case fst (apiGetManifestWork a (c, ManifestWorkName) k) of
      Inl e \<Rightarrow> False | Inr work \<Rightarrow> workReady a work)"

definition proxyPrerequisites :: "'e api \<Rightarrow> string \<Rightarrow> 'e \<Rightarrow> ProxyConfig option" where
  "proxyPrerequisites a c k =
     (if workAt a c k then
        (case (urlAt a c k, caAt a k, rightOf (apiReadFile a ServiceAccountTokenPath k)) of
           (Some u, Some ca, Some token) \<Rightarrow>
             Some \<lparr>Enabled = True, ProxyURL = u, ProxyCA = ca, ProxyToken = token\<rparr>
         | _ \<Rightarrow> None)
      else None)"

text \<open>An environment at rest: the reads of \<open>getProxyConfig\<close> leave it as it is.\<close>

definition atRest :: "'e api \<Rightarrow> 'e \<Rightarrow> bool" where
  "atRest a k = ((\<forall>n. snd (apiGetManifestWork a n k) = k)
     \<and> (\<forall>n. snd (apiGetManagedProxyConfiguration a n k) = k)
     \<and> (\<forall>ns ls. snd (apiListServices a ns ls k) = k) \<and> (\<forall>n. snd (apiGetConfigMap a n k) = k))"

lemma findProxyService_rest:
  assumes "atRest a (env w)"
  shows "\<exists>x cs. run_state (findProxyService a ns) w = (x, w\<lparr>calls := cs\<rparr>) \<and> rightOf x = serviceAt a ns (env w)"
  using assms
  by (auto simp: findProxyService_def atRest_def rightOf_def serviceAt_def split: sum.split list.split)

lemma getProxyURL_rest:
  assumes "atRest a (env w)"
  shows "\<exists>x cs. run_state (getProxyURL a c) w = (x, w\<lparr>calls := cs\<rparr>) \<and> rightOf x = urlAt a c (env w)"
proof (cases "fst (apiGetManagedProxyConfiguration a ([], ''cluster-proxy'') (env w))")
  case (Inl e)
  with assms show ?thesis
    by (auto simp: getProxyURL_def atRest_def rightOf_def urlAt_def split: prod.split)
next
  case (Inr conf)
  show ?thesis
  proof (cases "\<exists>ns. apiNestedString a conf [''spec'', ''proxyServer'', ''namespace''] = Inr (Some ns)")
    case False
    with assms Inr show ?thesis
      by (auto simp: getProxyURL_def atRest_def rightOf_def urlAt_def split: prod.split sum.splits option.splits)
  next
    case True
    then obtain ns where ns: "apiNestedString a conf [''spec'', ''proxyServer'', ''namespace''] = Inr (Some ns)"
      by blast
    let ?w = "w\<lparr>calls := calls w @ [CGetManagedProxyConfiguration ([], ''cluster-proxy'')]\<rparr>"
    have "atRest a (env ?w)" using assms by simp
    from findProxyService_rest[OF this, of ns] obtain x cs where
      x: "run_state (findProxyService a ns) ?w = (x, ?w\<lparr>calls := cs\<rparr>)" "rightOf x = serviceAt a ns (env w)"
      by auto
    have "snd (apiGetManagedProxyConfiguration a ([], ''cluster-proxy'') (env w)) = env w"
      using assms by (simp add: atRest_def)
    with Inr ns x show ?thesis
      by (cases x) (auto simp: getProxyURL_def rightOf_def urlAt_def simp flip: x(2))
  qed
qed

lemma getProxyCA_rest:
  assumes "atRest a (env w)"
  shows "\<exists>x cs. run_state (getProxyCA a) w = (x, w\<lparr>calls := cs\<rparr>) \<and> rightOf x = caAt a (env w)"
  using assms
  by (auto simp: getProxyCA_def atRest_def rightOf_def caAt_def split: sum.split option.split)

lemma ensureManifestWork_rest:
  assumes "atRest a (env w)" "fst (apiGetManifestWork a (c, ManifestWorkName) (env w)) = Inr work"
  shows "\<exists>x cs. run_state (ensureManifestWork a ns c) w = (x, w\<lparr>calls := cs\<rparr>)
           \<and> (x = None \<longleftrightarrow> workReady a work)"
  using assms
  by (auto simp: ensureManifestWork_def atRest_def workReady_def scanConditions_reports
      split: sum.split option.split)


text \<open>Proxy mode, read off the environment.\<close>

definition proxyOn :: "'e api \<Rightarrow> string \<Rightarrow> 'e \<Rightarrow> bool" where
  "proxyOn a c k = (case apiGetValue a k (formatProxyVarName c) of None \<Rightarrow> False
     | Some v \<Rightarrow> v = ''true'' \<or> v = ''yes'' \<or> v = ''1'')"

lemma run_isProxyModeEnabled [simp]:
  "run_state (isProxyModeEnabled a c) w = (proxyOn a c (env w), w)"
  by (auto simp: isProxyModeEnabled_def proxyOn_def split: option.split)

lemma workReady_conditions:
  "workReady a work \<Longrightarrow>
   \<exists>cs. apiNestedSlice a work [''status'', ''conditions''] = Inr (Some cs) \<and> cs \<noteq> []"
  by (auto simp: workReady_def reports_def split: sum.splits option.splits)

text \<open>What follows the ManifestWork: URL, CA and token, in this order.\<close>

lemma getProxyConfig_ready:
  assumes rest: "atRest a (env w)" and on: "outcome (isProxyModeEnabled a c) w"
    and work: "fst (apiGetManifestWork a (c, ManifestWorkName) (env w)) = Inr work"
    and ready: "workReady a work"
  shows "rightOf (outcome (getProxyConfig a ns c) w) = proxyPrerequisites a c (env w)"
proof -
  let ?get = "CGetManifestWork (c, ManifestWorkName)"
  from workReady_conditions[OF ready] obtain conds where
    conds: "apiNestedSlice a work [''status'', ''conditions''] = Inr (Some conds)" "conds \<noteq> []" by blast
  from ensureManifestWork_rest[OF rest work, of ns] ready obtain cs where
    ens: "run_state (ensureManifestWork a ns c) w = (None, w\<lparr>calls := cs\<rparr>)" by auto
  let ?w1 = "w\<lparr>calls := cs @ [?get]\<rparr>"
  have still: "snd (apiGetManifestWork a (c, ManifestWorkName) (env w)) = env w"
    using rest by (simp add: atRest_def)
  have "atRest a (env ?w1)" using rest by simp
  from getProxyURL_rest[OF this, of c] obtain u us where
    u: "run_state (getProxyURL a c) ?w1 = (u, ?w1\<lparr>calls := us\<rparr>)" "rightOf u = urlAt a c (env w)" by auto
  let ?w2 = "?w1\<lparr>calls := us\<rparr>"
  have "atRest a (env ?w2)" using rest by simp
  from getProxyCA_rest[OF this] obtain ca cas where
    ca: "run_state (getProxyCA a) ?w2 = (ca, ?w2\<lparr>calls := cas\<rparr>)" "rightOf ca = caAt a (env w)" by auto
  show ?thesis
    using on work ready ens still conds u(1) ca(1) u(2)[symmetric] ca(2)[symmetric]
    by (cases u; cases ca; cases "apiReadFile a ServiceAccountTokenPath (env w)")
      (auto simp: getProxyConfig_def outcome_def proxyPrerequisites_def workAt_def getOperatorToken_def
        rightOf_def)
qed

section \<open>Properties\<close>

text \<open>
  No direct access once the proxy is asked for: with proxy mode off, \<^verbatim>\<open>getProxyConfig\<close>
  answers the direct configuration without a single call; with proxy mode on, it answers an error
  or a configuration that goes through the proxy, whatever the API server, the network and the
  file system answer.
\<close>

theorem proxy_never_falls_back:
  "if outcome (isProxyModeEnabled a c) w
   then (case outcome (getProxyConfig a ns c) w of Inl e \<Rightarrow> True | Inr cfg \<Rightarrow> Enabled cfg)
   else run_state (getProxyConfig a ns c) w = (Inr directConfig, w)"
  by (auto simp: getProxyConfig_def outcome_def
      split: sum.splits option.splits prod.splits if_splits)

text \<open>
  C22. At rest, with a ManifestWork present and proxy mode on, \<^verbatim>\<open>getProxyConfig\<close> answers exactly
  what the prerequisites determine: a configuration precisely when OCM reports the work Applied
  and Available, the proxy service, its port and the CA are there and the token is readable, made
  of these four values; an error otherwise.
\<close>

theorem proxy_config_from_prerequisites:
  assumes "atRest a (env w)" "outcome (isProxyModeEnabled a c) w"
    and work: "fst (apiGetManifestWork a (c, ManifestWorkName) (env w)) = Inr work"
  shows "rightOf (outcome (getProxyConfig a ns c) w) = proxyPrerequisites a c (env w)"
proof (cases "workReady a work")
  case True
  with assms show ?thesis by (rule getProxyConfig_ready)
next
  case False
  with ensureManifestWork_rest[OF assms(1) work, of ns] obtain e cs where
    "run_state (ensureManifestWork a ns c) w = (Some e, w\<lparr>calls := cs\<rparr>)" by auto
  with False assms(2) work show ?thesis
    by (simp add: getProxyConfig_def outcome_def proxyPrerequisites_def workAt_def rightOf_def)
qed

definition conditionJson :: "string \<Rightarrow> string \<Rightarrow> json" where
  "conditionJson t s = JObj [(''type'', JStr t), (''status'', JStr s)]"

definition workJson :: "json list \<Rightarrow> json" where
  "workJson conds = JObj [(''status'', JObj [(''conditions'', JArr conds)])]"

definition exampleProxyCluster :: cluster where
  "exampleProxyCluster = emptyCluster\<lparr>
     kStore := [(''ACM_USE_PROXY_PROD'', ''true'')],
     kWorks := [(''prod'', workJson [conditionJson ''Applied'' ''True'', conditionJson ''Available'' ''True''])],
     kProxyConf := Some (JObj [(''spec'', JObj [(''proxyServer'', JObj [(''namespace'', JStr ''mce'')])])]),
     kServices := [\<lparr>svcName = ''cluster-proxy-addon-user'', svcNamespace = ''mce'', svcPorts = [9092]\<rparr>],
     kConfigMaps := [((''multicluster-engine'', ''openshift-service-ca.crt''),
        \<lparr>cmName = ''openshift-service-ca.crt'', cmNamespace = ''multicluster-engine'',
         cmData = Some [(''service-ca.crt'', ''PEM'')]\<rparr>)],
     kFiles := [(''/var/run/secrets/kubernetes.io/serviceaccount/token'', ''tok'')]\<rparr>"

lemma proxyVar_prod: "formatProxyVarName ''prod'' = ''ACM_USE_PROXY_PROD''"
  by code_simp

lemma exampleURL: "proxyURLOf ''cluster-proxy-addon-user'' ''mce'' 9092 ''prod''
    = ''https://cluster-proxy-addon-user.mce.svc:9092/prod''"
  by (simp add: proxyURLOf_def showInt_def decimal.simps[of 9092] decimal.simps[of 909]
      decimal.simps[of 90] decimal.simps[of 9] digitChar_def char_of_def bit_Suc_0_iff)

lemma examplePEM: "base64Encode ''PEM'' = ''UEVN''"
  by code_simp

lemma atRest_refApi: "atRest refApi k"
  by (simp add: atRest_def refApi_def)

theorem proxy_config_from_prerequisites_witness:
  "rightOf (outcome (getProxyConfig refApi ''krkn'' ''prod'') (inCluster exampleProxyCluster))
     = Some \<lparr>Enabled = True, ProxyURL = ''https://cluster-proxy-addon-user.mce.svc:9092/prod'',
             ProxyCA = ''UEVN'', ProxyToken = ''tok''\<rparr>"
proof -
  let ?w = "inCluster exampleProxyCluster"
  have on: "outcome (isProxyModeEnabled refApi ''prod'') ?w"
    by (simp add: isProxyModeEnabled_def outcome_def proxyVar_prod refApi_def exampleProxyCluster_def)
  have work: "fst (apiGetManifestWork refApi (''prod'', ManifestWorkName) (env ?w))
      = Inr (workJson [conditionJson ''Applied'' ''True'', conditionJson ''Available'' ''True''])"
    by (simp add: refApi_def lookupOr_def exampleProxyCluster_def)
  have spec: "proxyPrerequisites refApi ''prod'' exampleProxyCluster
     = Some \<lparr>Enabled = True, ProxyURL = ''https://cluster-proxy-addon-user.mce.svc:9092/prod'',
             ProxyCA = ''UEVN'', ProxyToken = ''tok''\<rparr>"
    using exampleURL examplePEM
    by (simp add: proxyPrerequisites_def workAt_def workReady_def reports_def urlAt_def serviceAt_def
        caAt_def rightOf_def lookupOr_def refNestedSlice_def refNestedString_def exampleProxyCluster_def
        workJson_def conditionJson_def conditionField_def mapGet_def ServiceAccountTokenPath_def
        emptyCluster_def del: base64Encode.simps)
  from proxy_config_from_prerequisites[OF atRest_refApi on work, of "''krkn''"] show ?thesis
    by (simp only: spec inCluster_simps)
qed

text \<open>
  The proxy branch writes at most one kind of object: every call of \<^verbatim>\<open>getProxyConfig\<close> that
  changes anything creates a ManifestWork (of OCM's own API group and version) in the namespace
  of the very cluster it was asked about.
\<close>

theorem proxy_writes_confined:
  "list_all (\<lambda>x. writes x \<longrightarrow> (\<exists>obj. x = CCreateManifestWork
       \<lparr>mwNamespace = c, mwGVK = manifestWorkGVK, mwObject = obj\<rparr>)) (trace (getProxyConfig a ns c) w)"
proof -
  have "only (\<lambda>x. writes x \<longrightarrow> (\<exists>obj. x = CCreateManifestWork
       \<lparr>mwNamespace = c, mwGVK = manifestWorkGVK, mwObject = obj\<rparr>)) (getProxyConfig a ns c)"
    by (rule only_getProxyConfig) auto
  then show ?thesis by (auto simp: list_all_iff dest: only_trace)
qed

theorem proxy_writes_confined_witness:
  "list_all (\<lambda>x. writes x \<longrightarrow> (\<exists>obj. x = CCreateManifestWork
       \<lparr>mwNamespace = ''prod'', mwGVK = manifestWorkGVK, mwObject = obj\<rparr>))
     (trace (getProxyConfig refApi ''krkn'' ''prod'') (inCluster exampleProxyCluster))"
  by (rule proxy_writes_confined)

text \<open>
  C40. The readiness check can be skipped by a race.  When another actor creates the ManifestWork
  between the first read and the creation, the creation answers AlreadyExists, which counts as
  success; the second read only asks for some condition.  So a ManifestWork that OCM reports as
  not applied yields an enabled proxy configuration.
\<close>

definition racingApi :: "cluster api" where
  "racingApi = refApi\<lparr>apiGetManifestWork := (\<lambda>n k.
     if kClock k = 0 then (Inl ApiNotFound, k\<lparr>kClock := 1\<rparr>) else (lookupOr (kWorks k) (fst n), k))\<rparr>"

definition unappliedCluster :: cluster where
  "unappliedCluster = exampleProxyCluster\<lparr>
     kWorks := [(''prod'', workJson [conditionJson ''Applied'' ''False''])]\<rparr>"


end
