(* ===== verification/ClusterSecret.thy ===== *)
theory ClusterSecret
  imports Proxy "HOL-Library.Char_ord" "HOL-Library.List_Lexorder"
begin

text \<open>
  What the operator hands out for a managed cluster
  (\<^verbatim>\<open>internal/controller/krkntargetrequest_controller.go\<close>): the kubeconfig
  (\<^verbatim>\<open>generateKubeconfig\<close>), and the secret shared by all operators, which holds a map from
  operator to cluster to credentials as JSON (\<^verbatim>\<open>createManagedClustersSecret\<close>).  The locale
  \<open>contributions\<close> states what the operators rely on: writing under the own key is read back,
  and leaves every other operator's entry alone.
\<close>

record ClusterData =
  cdClusterName :: string
  cdClusterAPI :: string
  cdKubeconfig :: string

type_synonym operatorData = "ClusterData gomap gomap"

section \<open>Kubeconfig\<close>

definition getClusterSecret :: "'e api \<Rightarrow> string \<Rightarrow> string \<Rightarrow> ('e, err + Secret) prog" where
  "getClusterSecret a clusterName secretName = do {
     g \<leftarrow> Get_Secret a (clusterName, secretName);
     ret (case g of Inl e \<Rightarrow> Inl (ErrWrap ''failed to get secret in namespace'' e)
          | Inr secret \<Rightarrow> Inr secret)
   }"

definition generateKubeconfig ::
    "string \<Rightarrow> string \<Rightarrow> string \<Rightarrow> string \<Rightarrow> ProxyConfig option \<Rightarrow> err + string" where
  "generateKubeconfig clusterName clusterURL clusterCABundle token proxyConfig =
     (let (actualURL, actualCA, actualToken) =
            (case proxyConfig of
               Some p \<Rightarrow> if Enabled p then (ProxyURL p, ProxyCA p, ProxyToken p)
                         else (clusterURL, clusterCABundle, token)
             | None \<Rightarrow> (clusterURL, clusterCABundle, token))
      in Inr (unlines [
        ''apiVersion: v1'',
        ''kind: Config'',
        ''clusters:'',
        ''- cluster:'',
        ''    certificate-authority-data: '' @ actualCA,
        ''    server: '' @ actualURL,
        ''  name: '' @ clusterName,
        ''contexts:'',
        ''- context:'',
        ''    cluster: '' @ clusterName,
        ''    user: '' @ clusterName,
        ''  name: '' @ clusterName,
        ''current-context: '' @ clusterName,
        ''users:'',
        ''- name: '' @ clusterName,
        ''  user:'',
        ''    token: '' @ actualToken]))"

section \<open>The stored map as JSON\<close>

definition decMap :: "'a \<Rightarrow> 'a decoder \<Rightarrow> 'a gomap decoder" where
  "decMap zero dec v cur =
     (case v of
        JNull \<Rightarrow> Inr None
      | JObj kvs \<Rightarrow> foldE (\<lambda>kv m. case dec (snd kv) zero of Inl e \<Rightarrow> Inl e | Inr x \<Rightarrow> mapPut (fst kv) x m)
          kvs (case cur of None \<Rightarrow> emptyMap | Some al \<Rightarrow> Some al)
      | _ \<Rightarrow> Inl typeError)"

definition decClusterData :: "ClusterData decoder" where
  "decClusterData = decStruct [
     (''cluster-name'', structField cdClusterName (\<lambda>x c. c\<lparr>cdClusterName := x\<rparr>) decString),
     (''cluster-api'', structField cdClusterAPI (\<lambda>x c. c\<lparr>cdClusterAPI := x\<rparr>) decString),
     (''kubeconfig'', structField cdKubeconfig (\<lambda>x c. c\<lparr>cdKubeconfig := x\<rparr>) decString)]"

definition zeroClusterData :: ClusterData where
  "zeroClusterData = \<lparr>cdClusterName = [], cdClusterAPI = [], cdKubeconfig = []\<rparr>"

definition decClusterMap :: "ClusterData gomap decoder" where
  "decClusterMap = decMap zeroClusterData decClusterData"

definition decOperatorData :: "operatorData decoder" where
  "decOperatorData = decMap None decClusterMap"

text \<open>\<^verbatim>\<open>json.Marshal\<close> writes the keys of a map in order, and a nil map as null.\<close>

definition encClusterData :: "ClusterData \<Rightarrow> json" where
  "encClusterData c = JObj [(''cluster-name'', JStr (cdClusterName c)),
     (''cluster-api'', JStr (cdClusterAPI c)), (''kubeconfig'', JStr (cdKubeconfig c))]"

definition encMap :: "('a \<Rightarrow> json) \<Rightarrow> 'a gomap \<Rightarrow> json" where
  "encMap enc m = (case m of None \<Rightarrow> JNull
     | Some al \<Rightarrow> JObj (map (\<lambda>(k, x). (k, enc x)) (sort_key fst al)))"

definition encOperatorData :: "operatorData \<Rightarrow> json" where
  "encOperatorData = encMap (encMap encClusterData)"

section \<open>The shared secret\<close>

definition parseOperatorData :: "string \<Rightarrow> err + operatorData" where
  "parseOperatorData existingData =
     (case jsonParse existingData of
        None \<Rightarrow> Inl (ErrWrap ''failed to unmarshal existing secret data'' (ErrMsg ''json: syntax error''))
      | Some v \<Rightarrow>
          (case decOperatorData v None of
             Inr allOperatorData \<Rightarrow> Inr allOperatorData
           | Inl _ \<Rightarrow>
               (case decClusterMap v None of
                  Inl e \<Rightarrow> Inl (ErrWrap ''failed to unmarshal existing secret data'' e)
                | Inr oldFormatData \<Rightarrow> Inr (Some [(''krkn-operator-acm'', oldFormatData)]))))"

definition existingOperatorData :: "Secret \<Rightarrow> err + operatorData" where
  "existingOperatorData existingSecret =
     (case mapGet (secData existingSecret) ''managed-clusters'' of
        Some existingData \<Rightarrow>
          if 0 < length existingData then parseOperatorData existingData else Inr emptyMap
      | None \<Rightarrow> Inr emptyMap)"

text \<open>The part after the existing data is known; \<open>existing\<close> is the secret found, if any.\<close>

definition storeOperatorData :: "'e api \<Rightarrow> 'e KrknTargetRequestReconciler \<Rightarrow> KrknTargetRequest \<Rightarrow>
    Secret option \<Rightarrow> operatorData \<Rightarrow> ClusterData gomap \<Rightarrow> ('e, err option) prog" where
  "storeOperatorData a r krknRequest existing allOperatorData clustersData =
     (case mapPut (OperatorName r) clustersData allOperatorData of
        Inl e \<Rightarrow> ret (Some e)
      | Inr allData \<Rightarrow>
          (let jsonData = jsonPrint (encOperatorData allData);
               secret = \<lparr>secName = trUUID krknRequest, secNamespace = OperatorNamespace r,
                         secResourceVersion = [], secOwners = [],
                         secData = Some [(''managed-clusters'', jsonData)]\<rparr>
           in case apiSetControllerReference a krknRequest secret of
                Inl e \<Rightarrow> ret (Some (ErrWrap ''failed to set owner reference on secret'' e))
              | Inr secret \<Rightarrow>
                  (case existing of
                     Some existingSecret \<Rightarrow> do {
                       u \<leftarrow> Update_Secret a (existingSecret\<lparr>secData := secData secret,
                              secOwners := secOwners secret\<rparr>);
                       ret (case u of None \<Rightarrow> None
                            | Some e \<Rightarrow> Some (ErrWrap ''failed to update secret'' e))
                     }
                   | None \<Rightarrow> do {
                       c \<leftarrow> Create_Secret a secret;
                       case c of
                         None \<Rightarrow> ret None
                       | Some e \<Rightarrow>
                           if isAlreadyExists e then do {
                             g \<leftarrow> Get_Secret a (OperatorNamespace r, trUUID krknRequest);
                             case g of
                               Inl e' \<Rightarrow> ret (Some (ErrWrap ''failed to get secret after AlreadyExists'' e'))
                             | Inr existingSecret \<Rightarrow> do {
                                 u \<leftarrow> Update_Secret a (existingSecret\<lparr>secData := secData secret,
                                        secOwners := secOwners secret\<rparr>);
                                 ret (case u of None \<Rightarrow> None
                                   | Some e' \<Rightarrow> Some (ErrWrap ''failed to update secret after AlreadyExists'' e'))
                               }
                           }
                           else ret (Some (ErrWrap ''failed to create secret'' e))
                     })))"

definition createManagedClustersSecret :: "'e api \<Rightarrow> 'e KrknTargetRequestReconciler \<Rightarrow>
    KrknTargetRequest \<Rightarrow> ClusterData gomap \<Rightarrow> ('e, err option) prog" where
  "createManagedClustersSecret a r krknRequest clustersData = do {
     g \<leftarrow> Get_Secret a (OperatorNamespace r, trUUID krknRequest);
     case g of
       Inl getErr \<Rightarrow>
         if \<not> isNotFound getErr then ret (Some (ErrWrap ''failed to check if secret exists'' getErr))
         else storeOperatorData a r krknRequest None emptyMap clustersData
     | Inr existingSecret \<Rightarrow>
         (case existingOperatorData existingSecret of
            Inl e \<Rightarrow> ret (Some e)
          | Inr allOperatorData \<Rightarrow>
              storeOperatorData a r krknRequest (Some existingSecret) allOperatorData clustersData)
   }"

section \<open>Facts: the kubeconfig\<close>

text \<open>The value of the first line of a text that starts with a given prefix.\<close>

definition lineValue :: "string \<Rightarrow> string \<Rightarrow> string option" where
  "lineValue prefix text =
     map_option (drop (length prefix)) (find (\<lambda>l. take (length prefix) l = prefix) (splitLines text))"

definition oneLine :: "string \<Rightarrow> bool" where
  "oneLine s = (CHR 0x0A \<notin> set s)"

lemma generateKubeconfig_lines:
  assumes "oneLine url" "oneLine ca" "oneLine name" "oneLine token"
    "pred_option (\<lambda>p. oneLine (ProxyURL p) \<and> oneLine (ProxyCA p) \<and> oneLine (ProxyToken p)) proxy"
  shows "\<exists>kc. generateKubeconfig name url ca token proxy = Inr kc \<and>
     (let via = (case proxy of Some p \<Rightarrow> if Enabled p then Some p else None | None \<Rightarrow> None) in
      lineValue ''    server: '' kc = Some (case via of Some p \<Rightarrow> ProxyURL p | None \<Rightarrow> url) \<and>
      lineValue ''    certificate-authority-data: '' kc = Some (case via of Some p \<Rightarrow> ProxyCA p | None \<Rightarrow> ca) \<and>
      lineValue ''    token: '' kc = Some (case via of Some p \<Rightarrow> ProxyToken p | None \<Rightarrow> token) \<and>
      lineValue ''current-context: '' kc = Some name)"
  using assms
  by (cases proxy) (simp_all add: generateKubeconfig_def Let_def lineValue_def splitLines_unlines oneLine_def)

section \<open>Facts: encoding and decoding\<close>

lemma distinct_sort_key: "distinct (map fst al) \<Longrightarrow> distinct (map fst (sort_key fst al))"
  by (simp add: distinct_map)

lemma map_of_sort_key: "distinct (map fst al) \<Longrightarrow> map_of (sort_key fst al) = map_of al"
  using distinct_sort_key[of al] by (simp add: map_of_inject_set)

text \<open>Reading a map back gives its entries in key order, each value as its own decoder gives it.\<close>

lemma update_append_fresh: "k \<notin> set (map fst al) \<Longrightarrow> AList.update k v al = al @ [(k, v)]"
  by (induction al) auto

lemma foldE_entries:
  assumes "\<forall>kx \<in> set kvs. dec (enc (snd kx)) zero = Inr (g (snd kx))" "distinct (map fst (acc @ kvs))"
  shows "foldE (\<lambda>kv m. case dec (snd kv) zero of Inl e \<Rightarrow> Inl e | Inr x \<Rightarrow> mapPut (fst kv) x m)
      (map (\<lambda>(k, x). (k, enc x)) kvs) (Some (map (\<lambda>(k, x). (k, g x)) acc))
     = Inr (Some (map (\<lambda>(k, x). (k, g x)) (acc @ kvs)))"
  using assms
proof (induction kvs arbitrary: acc)
  case (Cons kv kvs)
  obtain k x where kv: "kv = (k, x)" by (cases kv)
  have "k \<notin> set (map fst (map (\<lambda>(k, x). (k, g x)) acc))" using Cons.prems(2) kv by force
  then have "AList.update k (g x) (map (\<lambda>(k, x). (k, g x)) acc) = map (\<lambda>(k, x). (k, g x)) acc @ [(k, g x)]"
    by (rule update_append_fresh)
  moreover have "distinct (map fst ((acc @ [(k, x)]) @ kvs))" using Cons.prems(2) kv by simp
  ultimately show ?case using Cons.IH[of "acc @ [(k, x)]"] Cons.prems(1) kv by simp
qed simp

definition sortedMap :: "('a \<Rightarrow> 'b) \<Rightarrow> 'a gomap \<Rightarrow> 'b gomap" where
  "sortedMap g = map_option (\<lambda>al. map (\<lambda>(k, x). (k, g x)) (sort_key fst al))"

lemma decMap_enc:
  assumes "mapWf m" "\<And>k x. mapGet m k = Some x \<Longrightarrow> dec (enc x) zero = Inr (g x)"
  shows "decMap zero dec (encMap enc m) None = Inr (sortedMap g m)"
proof (cases m)
  case (Some al)
  have d: "distinct (map fst al)" using assms(1) Some by (simp add: mapWf_def mapKeys_def)
  have "\<forall>kx \<in> set (sort_key fst al). dec (enc (snd kx)) zero = Inr (g (snd kx))"
    using assms(2) Some d by (auto simp: mapGet_def)
  from foldE_entries[where acc = "[]" and dec = dec and enc = enc and zero = zero and g = g, OF this]
    distinct_sort_key[OF d] show ?thesis
    by (simp add: Some decMap_def encMap_def sortedMap_def emptyMap_def)
qed (simp add: decMap_def encMap_def sortedMap_def)

lemma mapGet_sortedMap: "mapWf m \<Longrightarrow> mapGet (sortedMap g m) k = map_option g (mapGet m k)"
  by (cases m) (simp_all add: sortedMap_def mapGet_def map_of_map mapWf_def mapKeys_def map_of_sort_key)

lemma mapWf_sortedMap: "mapWf m \<Longrightarrow> mapWf (sortedMap g m)"
  by (cases m) (simp_all add: sortedMap_def mapWf_def mapKeys_def comp_def case_prod_beta distinct_sort_key)

lemma sortedMap_None [simp]: "sortedMap g m = None \<longleftrightarrow> m = None"
  by (simp add: sortedMap_def)

lemma decClusterData_enc: "decClusterData (encClusterData c) z = Inr c"
  by (cases c; cases z) (simp add: decClusterData_def encClusterData_def decode_simps)

lemma decClusterMap_enc: "mapWf m \<Longrightarrow> decClusterMap (encMap encClusterData m) None = Inr (sortedMap id m)"
  unfolding decClusterMap_def by (rule decMap_enc) (simp_all add: decClusterData_enc)

text \<open>Both levels of the stored map hold each key once.\<close>

definition dataWf :: "operatorData \<Rightarrow> bool" where
  "dataWf m = (mapWf m \<and> (\<forall>k x. mapGet m k = Some x \<longrightarrow> mapWf x))"

definition sortedData :: "operatorData \<Rightarrow> operatorData" where
  "sortedData = sortedMap (sortedMap id)"

lemma sortedData_None [simp]: "sortedData m = None \<longleftrightarrow> m = None"
  by (simp add: sortedData_def)

lemma decOperatorData_enc: "dataWf m \<Longrightarrow> decOperatorData (encOperatorData m) None = Inr (sortedData m)"
  unfolding decOperatorData_def encOperatorData_def sortedData_def
  by (rule decMap_enc) (auto simp: dataWf_def decClusterMap_enc)

lemma encMap_wf: "(\<And>k x. mapGet m k = Some x \<Longrightarrow> jsonWf (enc x)) \<Longrightarrow> mapWf m \<Longrightarrow> jsonWf (encMap enc m)"
  by (cases m) (auto simp: encMap_def list_all_iff mapGet_def mapWf_def mapKeys_def)

lemma encClusterData_wf: "jsonWf (encClusterData c)"
  by (simp add: encClusterData_def)

lemma encOperatorData_wf: "dataWf m \<Longrightarrow> jsonWf (encOperatorData m)"
  unfolding encOperatorData_def by (auto simp: dataWf_def encClusterData_wf intro!: encMap_wf)

lemma parse_stored: "dataWf m \<Longrightarrow> parseOperatorData (jsonPrint (encOperatorData m)) = Inr (sortedData m)"
  by (simp add: parseOperatorData_def jsonParse_print encOperatorData_wf decOperatorData_enc)

lemma dataWf_sortedData: "dataWf m \<Longrightarrow> dataWf (sortedData m)"
  by (auto simp: dataWf_def sortedData_def mapWf_sortedMap mapGet_sortedMap)

lemma dataWf_empty [simp]: "dataWf emptyMap"
  by (simp add: dataWf_def)

lemma dataWf_put: "mapPut k v m = Inr m' \<Longrightarrow> dataWf m \<Longrightarrow> mapWf v \<Longrightarrow> dataWf m'"
  by (auto simp: dataWf_def mapWf_put mapGet_put split: if_splits)

text \<open>What an operator finds in the stored map for a cluster, and whether it has contributed.\<close>

definition entryOf :: "operatorData \<Rightarrow> string \<Rightarrow> (string \<Rightarrow> ClusterData option) option" where
  "entryOf m oper = map_option mapGet (mapGet m oper)"

lemma entryOf_sortedData: "dataWf m \<Longrightarrow> entryOf (sortedData m) = entryOf m"
proof
  fix oper
  assume wf: "dataWf m"
  have "mapGet (sortedMap id x) = mapGet x" if "mapGet m oper = Some x" for x
    using that wf by (auto simp: dataWf_def mapGet_sortedMap fun_eq_iff option.map_id)
  with wf show "entryOf (sortedData m) oper = entryOf m oper"
    by (cases "mapGet m oper") (simp_all add: entryOf_def sortedData_def dataWf_def mapGet_sortedMap)
qed

section \<open>Contributions of several operators\<close>

text \<open>
  A shared state with one entry per operator.  The laws are about a single write; the lemmas are
  what operators that know nothing of each other may conclude.
\<close>

locale contributions =
  fixes valid :: "'s \<Rightarrow> bool" and okv :: "'v \<Rightarrow> bool"
    and put :: "string \<Rightarrow> 'v \<Rightarrow> 's \<Rightarrow> 's" and look :: "'s \<Rightarrow> string \<Rightarrow> 'w option"
    and view :: "'v \<Rightarrow> 'w"
  assumes valid_put: "valid s \<Longrightarrow> okv v \<Longrightarrow> valid (put p v s)"
    and look_put: "valid s \<Longrightarrow> okv v \<Longrightarrow> look (put p v s) q = (if q = p then Some (view v) else look s q)"
begin

lemma put_commute:
  "valid s \<Longrightarrow> okv u \<Longrightarrow> okv v \<Longrightarrow> p \<noteq> q \<Longrightarrow> look (put p u (put q v s)) = look (put q v (put p u s))"
  by (rule ext) (simp add: look_put valid_put)

lemma put_again: "valid s \<Longrightarrow> okv u \<Longrightarrow> okv v \<Longrightarrow> look (put p u (put p v s)) = look (put p u s)"
  by (rule ext) (simp add: look_put valid_put)

lemma puts_keep:
  "valid s \<Longrightarrow> list_all (\<lambda>pv. okv (snd pv)) pvs \<Longrightarrow> q \<notin> fst ` set pvs \<Longrightarrow>
   look (fold (\<lambda>(p, v). put p v) pvs s) q = look s q"
  by (induction pvs arbitrary: s) (auto simp: look_put valid_put)

lemma valid_puts:
  "valid s \<Longrightarrow> list_all (\<lambda>pv. okv (snd pv)) pvs \<Longrightarrow> valid (fold (\<lambda>(p, v). put p v) pvs s)"
  by (induction pvs arbitrary: s) (auto simp: valid_put)

lemma puts_all:
  "valid s \<Longrightarrow> list_all (\<lambda>pv. okv (snd pv)) pvs \<Longrightarrow> distinct (map fst pvs) \<Longrightarrow> (p, v) \<in> set pvs \<Longrightarrow>
   look (fold (\<lambda>(p, v). put p v) pvs s) p = Some (view v)"
proof (induction pvs arbitrary: s)
  case (Cons pv pvs)
  obtain q u where pv: "pv = (q, u)" by (cases pv)
  show ?case
  proof (cases "(p, v) = (q, u)")
    case True
    then have "p \<notin> fst ` set pvs" using Cons.prems(3) pv by auto
    then show ?thesis using True pv Cons.prems(1,2) puts_keep[of "put q u s" pvs p]
      by (simp add: look_put valid_put)
  next
    case False
    with Cons pv show ?thesis by (auto simp: valid_put)
  qed
qed simp

end

text \<open>
  The secret's text as such a state: the text after an operator's write, as
  \<open>storeOperatorData\<close> computes it.
\<close>

definition putText :: "string \<Rightarrow> ClusterData gomap \<Rightarrow> string \<Rightarrow> string" where
  "putText oper clustersData text =
     (case parseOperatorData text of
        Inl e \<Rightarrow> text
      | Inr m \<Rightarrow> (case mapPut oper clustersData m of Inl e \<Rightarrow> text | Inr m' \<Rightarrow> jsonPrint (encOperatorData m')))"

definition lookText :: "string \<Rightarrow> string \<Rightarrow> (string \<Rightarrow> ClusterData option) option" where
  "lookText text oper = (case parseOperatorData text of Inl e \<Rightarrow> None | Inr m \<Rightarrow> entryOf m oper)"

definition validText :: "string \<Rightarrow> bool" where
  "validText text = (\<exists>m. parseOperatorData text = Inr m \<and> m \<noteq> None \<and> dataWf m)"

lemma putText_parse:
  assumes "parseOperatorData text = Inr m" "m \<noteq> None" "dataWf m" "mapWf v"
  obtains m' where "mapPut p v m = Inr m'" "putText p v text = jsonPrint (encOperatorData m')"
    "parseOperatorData (putText p v text) = Inr (sortedData m')" "m' \<noteq> None" "dataWf m'"
proof -
  from assms(2) obtain al where "m = Some al" by auto
  then obtain m' where m': "mapPut p v m = Inr m'" "m' \<noteq> None" by simp
  then have "putText p v text = jsonPrint (encOperatorData m')" using assms(1) by (simp add: putText_def)
  moreover have "dataWf m'" using m' assms(3,4) dataWf_put by blast
  ultimately show thesis using that m' parse_stored by metis
qed

lemma entryOf_put: "mapPut p v m = Inr m' \<Longrightarrow> entryOf m' q = (if q = p then Some (mapGet v) else entryOf m q)"
  by (simp add: entryOf_def mapGet_put)

interpretation secret_data: contributions validText mapWf putText lookText mapGet
proof
  fix s v p
  assume "validText s" "mapWf (v :: ClusterData gomap)"
  then obtain m where m: "parseOperatorData s = Inr m" "m \<noteq> None" "dataWf m" by (auto simp: validText_def)
  from putText_parse[OF this \<open>mapWf v\<close>, of p] obtain m' where
    m': "mapPut p v m = Inr m'" "parseOperatorData (putText p v s) = Inr (sortedData m')" "m' \<noteq> None" "dataWf m'"
    by blast
  then show "validText (putText p v s)"
    unfolding validText_def by (intro exI[of _ "sortedData m'"]) (simp add: dataWf_sortedData)
  show "lookText (putText p v s) q = (if q = p then Some (mapGet v) else lookText s q)" for q
    using m m' by (simp add: lookText_def entryOf_sortedData entryOf_put)
qed

lemma validText_nonempty: "validText text \<Longrightarrow> text \<noteq> []"
proof
  assume "validText text" "text = []"
  moreover have "jsonParse [] = None" by code_simp
  ultimately show False by (simp add: validText_def parseOperatorData_def)
qed

text \<open>Every call is on the secret named after the request, in the operator's namespace.\<close>

lemma only_storeOperatorData [wp]:
  "(\<And>s. P (CCreateSecret s)) \<Longrightarrow> (\<And>s. P (CUpdateSecret s)) \<Longrightarrow>
   P (CGetSecret (OperatorNamespace r, trUUID t)) \<Longrightarrow> only P (storeOperatorData a r t ex d cd)"
  unfolding storeOperatorData_def by (intro wp)

lemma only_createManagedClustersSecret [wp]:
  "(\<And>s. P (CCreateSecret s)) \<Longrightarrow> (\<And>s. P (CUpdateSecret s)) \<Longrightarrow>
   P (CGetSecret (OperatorNamespace r, trUUID t)) \<Longrightarrow> only P (createManagedClustersSecret a r t cd)"
  unfolding createManagedClustersSecret_def by (intro wp)

lemma only_getClusterSecret [wp]: "P (CGetSecret (c, n)) \<Longrightarrow> only P (getClusterSecret a c n)"
  unfolding getClusterSecret_def by (intro wp)

text \<open>
  \<^verbatim>\<open>ctrl.SetControllerReference\<close> as documented: on an object that has no owner yet it sets the
  owner references, and nothing else.
\<close>

definition setsOwnersOnly :: "'e api \<Rightarrow> KrknTargetRequest \<Rightarrow> bool" where
  "setsOwnersOnly a t =
     (\<forall>s. secOwners s = [] \<longrightarrow> (\<exists>os. apiSetControllerReference a t s = Inr (s\<lparr>secOwners := os\<rparr>)))"

section \<open>Properties\<close>

text \<open>
  A kubeconfig connects through the proxy or directly, never half of each: its server, CA and
  token lines hold the proxy's URL, CA and token when an enabled proxy configuration is given,
  and the cluster's URL, CA bundle and token otherwise; the context is the cluster's.  The base64
  text that is handed out decodes to this kubeconfig.  (The values must fit on a line.)
\<close>

theorem kubeconfig_one_route:
  assumes "oneLine url" "oneLine ca" "oneLine name" "oneLine token"
    "pred_option (\<lambda>p. oneLine (ProxyURL p) \<and> oneLine (ProxyCA p) \<and> oneLine (ProxyToken p)) proxy"
  shows "\<exists>kc. generateKubeconfig name url ca token proxy = Inr kc \<and>
     base64Decode (base64Encode kc) = Some kc \<and>
     (let via = (case proxy of Some p \<Rightarrow> if Enabled p then Some p else None | None \<Rightarrow> None) in
      lineValue ''    server: '' kc = Some (case via of Some p \<Rightarrow> ProxyURL p | None \<Rightarrow> url) \<and>
      lineValue ''    certificate-authority-data: '' kc = Some (case via of Some p \<Rightarrow> ProxyCA p | None \<Rightarrow> ca) \<and>
      lineValue ''    token: '' kc = Some (case via of Some p \<Rightarrow> ProxyToken p | None \<Rightarrow> token) \<and>
      lineValue ''current-context: '' kc = Some name)"
  using generateKubeconfig_lines[OF assms] by auto

theorem kubeconfig_one_route_witness:
  "\<exists>kc. generateKubeconfig ''c1'' ''https://direct'' ''CA'' ''tok''
      (Some \<lparr>Enabled = True, ProxyURL = ''https://proxy/c1'', ProxyCA = ''PCA'', ProxyToken = ''ptok''\<rparr>) = Inr kc
    \<and> lineValue ''    server: '' kc = Some ''https://proxy/c1'' \<and> lineValue ''    token: '' kc = Some ''ptok''"
  using kubeconfig_one_route[of "''https://direct''" "''CA''" "''c1''" "''tok''"
      "Some \<lparr>Enabled = True, ProxyURL = ''https://proxy/c1'', ProxyCA = ''PCA'', ProxyToken = ''ptok''\<rparr>"]
  by (auto simp: oneLine_def)

text \<open>
  C17. Writing this operator's clusters into an existing secret keeps every other operator's: when
  the secret holds readable data, \<^verbatim>\<open>createManagedClustersSecret\<close> reads it once and updates that
  same secret once; in the new text this operator's clusters are exactly the given ones, and what
  any other operator stored reads back as before.
\<close>

theorem secret_keeps_other_operators:
  assumes "apiGetSecret a (OperatorNamespace r, trUUID t) (env w) = (Inr s, k)"
    and stored: "mapGet (secData s) ''managed-clusters'' = Some text" "validText text"
    and "mapWf clusters" and owners: "setsOwnersOnly a t"
  shows "\<exists>text' os. trace (createManagedClustersSecret a r t clusters) w =
       [CGetSecret (OperatorNamespace r, trUUID t),
        CUpdateSecret (s\<lparr>secData := Some [(''managed-clusters'', text')], secOwners := os\<rparr>)]
     \<and> lookText text' (OperatorName r) = Some (mapGet clusters)
     \<and> (\<forall>q. q \<noteq> OperatorName r \<longrightarrow> lookText text' q = lookText text q)"
proof -
  from stored(2) obtain m where m: "parseOperatorData text = Inr m" "m \<noteq> None" "dataWf m"
    by (auto simp: validText_def)
  from putText_parse[OF m assms(4), of "OperatorName r"] obtain m' where
    m': "mapPut (OperatorName r) clusters m = Inr m'"
    "putText (OperatorName r) clusters text = jsonPrint (encOperatorData m')" by blast
  have ex: "existingOperatorData s = Inr m"
    using stored m(1) validText_nonempty by (simp add: existingOperatorData_def)
  let ?sec = "\<lparr>secName = trUUID t, secNamespace = OperatorNamespace r, secResourceVersion = [],
     secOwners = [], secData = Some [(''managed-clusters'', jsonPrint (encOperatorData m'))]\<rparr>"
  have "secOwners ?sec = []" by simp
  with owners obtain os where os: "apiSetControllerReference a t ?sec = Inr (?sec\<lparr>secOwners := os\<rparr>)"
    unfolding setsOwnersOnly_def by blast
  have tr: "trace (createManagedClustersSecret a r t clusters) w =
       [CGetSecret (OperatorNamespace r, trUUID t), CUpdateSecret (s\<lparr>secData :=
          Some [(''managed-clusters'', putText (OperatorName r) clusters text)], secOwners := os\<rparr>)]"
    using assms(1) ex m' os
    by (simp add: createManagedClustersSecret_def storeOperatorData_def trace_def Let_def)
  with secret_data.look_put[OF stored(2) assms(4), of "OperatorName r"] show ?thesis by auto
qed

definition exampleRequest :: KrknTargetRequest where
  "exampleRequest = \<lparr>trName = ''req'', trNamespace = ''krkn'', trResourceVersion = ''1'',
     trLabels = None, trUUID = ''uuid-1'', trStatus = ''pending'', trTargetData = None,
     trCompleted = None\<rparr>"

definition exampleReconciler :: "cluster KrknTargetRequestReconciler" where
  "exampleReconciler = \<lparr>OperatorName = ''acm'', OperatorNamespace = ''krkn'',
     clusterLivenessProbe = Some (\<lambda>u ca. ret (\<lparr>lvOnline = True, lvHealthy = True\<rparr>, None)),
     clusterCredentialProbe = None\<rparr>"

definition exampleOther :: "ClusterData gomap" where
  "exampleOther = Some [(''hosted'', \<lparr>cdClusterName = ''hosted'', cdClusterAPI = ''u'', cdKubeconfig = ''k''\<rparr>)]"

definition otherText :: string where
  "otherText = jsonPrint (encOperatorData (Some [(''core'', exampleOther)]))"

definition secretOf :: "string \<Rightarrow> Secret" where
  "secretOf text = \<lparr>secName = ''uuid-1'', secNamespace = ''krkn'', secResourceVersion = ''1'',
     secOwners = [], secData = Some [(''managed-clusters'', text)]\<rparr>"

lemma otherText_parse: "parseOperatorData otherText = Inr (Some [(''core'', exampleOther)])"
proof -
  have "dataWf (Some [(''core'', exampleOther)])"
    by (auto simp: dataWf_def exampleOther_def mapWf_def mapKeys_def mapGet_def split: if_splits)
  then show ?thesis
    unfolding otherText_def by (subst parse_stored) (simp_all add: sortedData_def sortedMap_def exampleOther_def)
qed

lemma otherText_valid: "validText otherText"
  by (auto simp: validText_def otherText_parse dataWf_def exampleOther_def mapWf_def mapKeys_def mapGet_def
      split: if_splits)

lemma refApi_owners: "setsOwnersOnly refApi t"
  by (auto simp: setsOwnersOnly_def refSetController_def)

theorem secret_keeps_other_operators_witness:
  "let k = emptyCluster\<lparr>kSecrets := [((''krkn'', ''uuid-1''), secretOf otherText)]\<rparr>
   in \<exists>text' os. trace (createManagedClustersSecret refApi exampleReconciler exampleRequest emptyMap) (inCluster k) =
        [CGetSecret (''krkn'', ''uuid-1''),
         CUpdateSecret (secretOf otherText\<lparr>secData := Some [(''managed-clusters'', text')], secOwners := os\<rparr>)]
      \<and> lookText text' ''acm'' = Some (mapGet emptyMap)
      \<and> lookText text' ''core'' = Some (mapGet exampleOther)"
proof -
  let ?k = "emptyCluster\<lparr>kSecrets := [((''krkn'', ''uuid-1''), secretOf otherText)]\<rparr>"
  have core: "lookText otherText ''core'' = Some (mapGet exampleOther)"
    by (simp add: lookText_def otherText_parse entryOf_def mapGet_def)
  have get: "apiGetSecret refApi (OperatorNamespace exampleReconciler, trUUID exampleRequest)
      (env (inCluster ?k)) = (Inr (secretOf otherText), ?k)"
    by (simp add: lookupOr_def exampleReconciler_def exampleRequest_def)
  have data: "mapGet (secData (secretOf otherText)) ''managed-clusters'' = Some otherText"
    by (simp add: secretOf_def mapGet_def)
  from secret_keeps_other_operators[OF get data otherText_valid mapWf_empty(1) refApi_owners] core
  show ?thesis by (auto simp: exampleReconciler_def exampleRequest_def)
qed



text \<open>
  C23. Data that cannot be read is never overwritten: when the secret holds a text that is neither
  the multi-operator nor the old format, or looking for the secret fails for another reason than
  its absence, \<^verbatim>\<open>createManagedClustersSecret\<close> returns an error and writes nothing.
\<close>

theorem unreadable_secret_untouched:
  assumes "case fst (apiGetSecret a (OperatorNamespace r, trUUID t) (env w)) of
       Inl e \<Rightarrow> \<not> isNotFound e
     | Inr s \<Rightarrow> (\<exists>text e. mapGet (secData s) ''managed-clusters'' = Some text \<and> text \<noteq> []
                     \<and> parseOperatorData text = Inl e)"
  shows "outcome (createManagedClustersSecret a r t clusters) w \<noteq> None
     \<and> trace (createManagedClustersSecret a r t clusters) w = [CGetSecret (OperatorNamespace r, trUUID t)]"
  using assms
  by (auto simp: createManagedClustersSecret_def existingOperatorData_def outcome_def trace_def
      split: sum.splits)

lemma brokenText: "parseOperatorData ''[1'' =
    Inl (ErrWrap ''failed to unmarshal existing secret data'' (ErrMsg ''json: syntax error''))"
  by code_simp

theorem unreadable_secret_untouched_witness:
  "outcome (createManagedClustersSecret refApi exampleReconciler exampleRequest emptyMap)
     (inCluster (emptyCluster\<lparr>kSecrets := [((''krkn'', ''uuid-1''), secretOf ''[1'')]\<rparr>)) \<noteq> None"
proof -
  let ?w = "inCluster (emptyCluster\<lparr>kSecrets := [((''krkn'', ''uuid-1''), secretOf ''[1'')]\<rparr>)"
  have "case fst (apiGetSecret refApi (OperatorNamespace exampleReconciler, trUUID exampleRequest) (env ?w)) of
       Inl e \<Rightarrow> \<not> isNotFound e
     | Inr s \<Rightarrow> (\<exists>text e. mapGet (secData s) ''managed-clusters'' = Some text \<and> text \<noteq> []
                     \<and> parseOperatorData text = Inl e)"
    by (simp add: lookupOr_def exampleReconciler_def exampleRequest_def secretOf_def mapGet_def brokenText)
  from unreadable_secret_untouched[OF this] show ?thesis by blast
qed

text \<open>
  C24. A secret in the old format is migrated, not lost: a non-empty map from clusters to
  credentials without the operator level is read as the contribution of
  \<^verbatim>\<open>krkn-operator-acm\<close>, with every cluster's credentials intact.
\<close>

theorem old_format_migrated:
  assumes "mapWf old" "mapKeys old \<noteq> []"
  shows "\<exists>m. parseOperatorData (jsonPrint (encMap encClusterData old)) = Inr m
     \<and> mapKeys m = [''krkn-operator-acm''] \<and> entryOf m ''krkn-operator-acm'' = Some (mapGet old)"
proof -
  from assms(2) obtain al where al: "old = Some al" "al \<noteq> []" by (cases old) (auto simp: mapKeys_def)
  then have "sort_key fst al \<noteq> []" by (metis set_empty set_sort)
  then obtain k x rest where first: "sort_key fst al = (k, x) # rest" by (cases "sort_key fst al") auto
  have "decClusterMap (encClusterData x) None = Inl typeError"
    by (simp add: decClusterMap_def decMap_def encClusterData_def decClusterData_def decStruct_def)
  then have multi: "decOperatorData (encMap encClusterData old) None = Inl typeError"
    by (simp add: decOperatorData_def decMap_def encMap_def al(1) first)
  have "jsonWf (encMap encClusterData old)" by (rule encMap_wf[OF encClusterData_wf assms(1)])
  then have "parseOperatorData (jsonPrint (encMap encClusterData old)) =
      Inr (Some [(''krkn-operator-acm'', sortedMap id old)])"
    by (simp add: parseOperatorData_def jsonParse_print multi decClusterMap_enc assms(1))
  moreover have "mapGet (sortedMap id old) = mapGet old"
    by (rule ext) (simp add: mapGet_sortedMap assms(1) option.map_id)
  ultimately show ?thesis by (auto simp: mapKeys_def entryOf_def mapGet_def)
qed

theorem old_format_migrated_witness:
  "\<exists>m. parseOperatorData (jsonPrint (encMap encClusterData exampleOther)) = Inr m
     \<and> entryOf m ''krkn-operator-acm'' = Some (mapGet exampleOther)"
proof -
  have "mapWf exampleOther" "mapKeys exampleOther \<noteq> []"
    by (simp_all add: exampleOther_def mapWf_def mapKeys_def)
  from old_format_migrated[OF this] show ?thesis by blast
qed

text \<open>
  C39. The first write can lose another operator's data: when the other operator creates the
  secret after this one found none, the creation answers AlreadyExists and the retry replaces the
  whole content by this operator's, computed before the other's data existed.
\<close>

definition racingSecretApi :: "cluster api" where
  "racingSecretApi = refApi\<lparr>apiGetSecret := (\<lambda>n k.
     if kClock k = 0 then (Inl ApiNotFound, k\<lparr>kClock := 1\<rparr>) else (lookupOr (kSecrets k) n, k))\<rparr>"


text \<open>
  A secret whose text is the JSON value null is read as a nil map, and adding this operator's
  data to it panics: no write happens.
\<close>

theorem secret_null_panics:
  "let w = inCluster (emptyCluster\<lparr>kSecrets := [((''krkn'', ''uuid-1''), secretOf ''null'')]\<rparr>);
       m = createManagedClustersSecret refApi exampleReconciler exampleRequest exampleOther
   in outcome m w = Some (Panic ''assignment to entry in nil map'')
      \<and> trace m w = [CGetSecret (''krkn'', ''uuid-1'')]"
proof -
  have "parseOperatorData ''null'' = Inr None" by code_simp
  then show ?thesis
    by (simp add: createManagedClustersSecret_def storeOperatorData_def existingOperatorData_def trace_def
        outcome_def exampleReconciler_def exampleRequest_def lookupOr_def secretOf_def mapGet_def)
qed

end
