(* ===== verification/ConfigMapController.thy ===== *)
theory ConfigMapController
  imports ReferenceApi
begin

text \<open>
  \<^verbatim>\<open>internal/controller/configmap_controller.go\<close>: the reconciler that copies the
  integration ConfigMap into the configstore, and the filter that lets only events of that
  ConfigMap through.  What copying does to the store is \<^verbatim>\<open>configmap.SyncConfigMapToStore\<close> of
  krkn-operator, a parameter.
\<close>

definition ConfigMap_Reconcile :: "'e api \<Rightarrow> nsname \<Rightarrow> ('e, reconcileResult) prog" where
  "ConfigMap_Reconcile a req = do {
     g \<leftarrow> Get_ConfigMap a req;
     case g of
       Inl e \<Rightarrow> if isNotFound e then ret (emptyResult, None) else ret (emptyResult, Some e)
     | Inr cm \<Rightarrow> do {
         s \<leftarrow> SyncConfigMapToStore a cm;
         case s of Some e \<Rightarrow> ret (emptyResult, Some e) | None \<Rightarrow> ret (emptyResult, None)
       }
   }"

definition NewConfigMapFilter :: "string \<Rightarrow> string \<Rightarrow> event \<Rightarrow> bool" where
  "NewConfigMapFilter name namespace ev =
     (let matches = (\<lambda>(objNamespace, objName). objName = name \<and> objNamespace = namespace)
      in case ev of CreateEvent obj \<Rightarrow> matches obj | UpdateEvent old new \<Rightarrow> matches new
         | DeleteEvent obj \<Rightarrow> matches obj | GenericEvent obj \<Rightarrow> matches obj)"

text \<open>The request a watch enqueues for an event, and a run over the events that pass.\<close>

fun eventObject :: "event \<Rightarrow> nsname" where
  "eventObject (CreateEvent obj) = obj"
| "eventObject (UpdateEvent old new) = new"
| "eventObject (DeleteEvent obj) = obj"
| "eventObject (GenericEvent obj) = obj"

definition ConfigMap_run ::
    "'e api \<Rightarrow> string \<Rightarrow> string \<Rightarrow> event list \<Rightarrow> ('e, reconcileResult list) prog" where
  "ConfigMap_run a name namespace evs =
     mapM (\<lambda>ev. ConfigMap_Reconcile a (eventObject ev))
       (filter (NewConfigMapFilter name namespace) evs)"

lemma NewConfigMapFilter_object:
  "NewConfigMapFilter name ns ev \<longleftrightarrow> eventObject ev = (ns, name)"
  by (cases ev) (auto simp: NewConfigMapFilter_def Let_def)

lemma only_ConfigMap_Reconcile:
  "P (CGetConfigMap req) \<Longrightarrow> (\<And>cm. P (CSyncConfigMap cm)) \<Longrightarrow> only P (ConfigMap_Reconcile a req)"
  unfolding ConfigMap_Reconcile_def by (intro wp)

section \<open>Properties\<close>

text \<open>
  The ConfigMap reconciler, branch by branch, for every API: it reads the ConfigMap once;
  if it is gone the store is left alone and nothing is reported, if it cannot be read the error
  is returned and the store is left alone, and otherwise exactly the ConfigMap read is copied
  into the store once and the copy's error, if any, is returned.
\<close>

theorem configmap_reconcile_branches:
  "run_state (ConfigMap_Reconcile a req) w =
     (case apiGetConfigMap a req (env w) of
        (Inl e, k) \<Rightarrow> ((emptyResult, if isNotFound e then None else Some e),
                       w\<lparr>env := k, calls := calls w @ [CGetConfigMap req]\<rparr>)
      | (Inr cm, k) \<Rightarrow> ((emptyResult, fst (apiSyncConfigMap a cm k)),
                       w\<lparr>env := snd (apiSyncConfigMap a cm k),
                         calls := calls w @ [CGetConfigMap req, CSyncConfigMap cm]\<rparr>))"
  by (simp add: ConfigMap_Reconcile_def split: prod.split sum.split option.split)

text \<open>
  Whatever events a watch delivers, the reconciler reads no ConfigMap other than the
  configured one, and its only write is the copy into the store.
\<close>

theorem configmap_filter_confines:
  assumes "c \<in> set (trace (ConfigMap_run a name ns evs) w)"
  shows "c = CGetConfigMap (ns, name) \<or> (\<exists>cm. c = CSyncConfigMap cm)"
proof -
  let ?P = "\<lambda>c. c = CGetConfigMap (ns, name) \<or> (\<exists>cm. c = CSyncConfigMap cm)"
  have "only ?P (mapM (\<lambda>ev. ConfigMap_Reconcile a (eventObject ev)) es)"
    if "list_all (NewConfigMapFilter name ns) es" for es
    using that by (induction es)
      (auto simp: NewConfigMapFilter_object intro!: wp only_ConfigMap_Reconcile)
  then have "only ?P (ConfigMap_run a name ns evs)"
    by (simp add: ConfigMap_run_def list_all_iff)
  from only_trace[OF this assms] show ?thesis .
qed

theorem configmap_filter_confines_witness:
  "let evs = [CreateEvent (''ns'', ''other''), UpdateEvent (''ns'', ''cfg'') (''ns'', ''cfg'')]
   in CGetConfigMap (''ns'', ''cfg'') \<in> set (trace (ConfigMap_run refApi ''cfg'' ''ns'' evs)
        (inCluster emptyCluster))
      \<and> (\<forall>c \<in> set (trace (ConfigMap_run refApi ''cfg'' ''ns'' evs) (inCluster emptyCluster)).
           c = CGetConfigMap (''ns'', ''cfg'') \<or> (\<exists>cm. c = CSyncConfigMap cm))"
  using configmap_filter_confines
    [where a = refApi and name = "''cfg''" and ns = "''ns''" and w = "inCluster emptyCluster"
      and evs = "[CreateEvent (''ns'', ''other''), UpdateEvent (''ns'', ''cfg'') (''ns'', ''cfg'')]"]
  by (simp add: ConfigMap_run_def NewConfigMapFilter_def ConfigMap_Reconcile_def trace_def
      refApi_def lookupOr_def emptyCluster_def)

end
