(* ===== verification/TargetRequest.thy ===== *)
theory TargetRequest
  imports ClusterSecret ConfigMapController
begin

text \<open>
  The reconciler of KrknTargetRequest
  (\<^verbatim>\<open>internal/controller/krkntargetrequest_controller.go\<close>).  \<^verbatim>\<open>Reconcile\<close> is split at its own
  comments: initialising a new request, the branch of a request this operator has already
  contributed to, resolving what to probe, turning each probe result into a target and perhaps
  credentials, and publishing secret and status.
\<close>

definition uuidLabel :: string where
  "uuidLabel = ''krkn.krkn-chaos.dev/uuid''"

definition CleanupThresholdSeconds :: nat where
  "CleanupThresholdSeconds = 3600"

text \<open>\<^verbatim>\<open>ctrl.Result{RequeueAfter: time.Nanosecond}\<close>\<close>

definition requeueNow :: Result where
  "requeueNow = \<lparr>RequeueAfter = 1\<rparr>"

section \<open>Helpers\<close>

definition getMapKeys :: "ClusterTarget list gomap \<Rightarrow> string list" where
  "getMapKeys m = mapKeys m"

definition getProviderNamespaces :: "KrknOperatorTargetProvider list \<Rightarrow> string list" where
  "getProviderNamespaces providers = map pvNamespace providers"

definition NewNamespaceFilter :: "string \<Rightarrow> event \<Rightarrow> bool" where
  "NewNamespaceFilter namespace ev =
     (case ev of
        CreateEvent obj \<Rightarrow> fst obj = namespace
      | UpdateEvent old new \<Rightarrow> fst new = namespace
      | DeleteEvent obj \<Rightarrow> fst obj = namespace
      | GenericEvent obj \<Rightarrow> fst obj = namespace)"

definition cleanupOldTargetRequests ::
    "'e api \<Rightarrow> 'e KrknTargetRequestReconciler \<Rightarrow> ('e, err option) prog" where
  "cleanupOldTargetRequests a r = do {
     d \<leftarrow> Cleanup_TargetRequests a (OperatorNamespace r) CleanupThresholdSeconds;
     ret (case d of Inl e \<Rightarrow> Some e | Inr deletedCount \<Rightarrow> None)
   }"

text \<open>The probes in use: a nil field stands for the default.\<close>

definition livenessProbeOf :: "'e api \<Rightarrow> 'e KrknTargetRequestReconciler \<Rightarrow> 'e livenessProbe" where
  "livenessProbeOf a r = (case clusterLivenessProbe r of
      None \<Rightarrow> checkClusterAPILiveness a (Some ()) | Some p \<Rightarrow> p)"

definition credentialProbeOf :: "'e api \<Rightarrow> 'e KrknTargetRequestReconciler \<Rightarrow> 'e credentialProbe" where
  "credentialProbeOf a r = (case clusterCredentialProbe r of
      None \<Rightarrow> (\<lambda>k t. Check_ClusterLiveness a k t) | Some p \<Rightarrow> p)"

section \<open>A new request\<close>

definition initializeStatus :: "'e api \<Rightarrow> KrknTargetRequest \<Rightarrow> ('e, reconcileResult) prog" where
  "initializeStatus a krknRequest = do {
     u \<leftarrow> StatusUpdate_TargetRequest a (krknRequest\<lparr>trStatus := StatusPending\<rparr>);
     ret (case u of
       Inl e \<Rightarrow> if isConflict e then (requeueNow, None) else (emptyResult, Some e)
     | Inr _ \<Rightarrow> (emptyResult, None))
   }"

definition initializeRequest :: "'e api \<Rightarrow> KrknTargetRequest \<Rightarrow> ('e, reconcileResult) prog" where
  "initializeRequest a krknRequest =
     (let labels = (case trLabels krknRequest of None \<Rightarrow> [] | Some al \<Rightarrow> al) in
      if mapGet (Some labels) uuidLabel = None then do {
        u \<leftarrow> Update_TargetRequest a
               (krknRequest\<lparr>trLabels := Some (AList.update uuidLabel (trUUID krknRequest) labels)\<rparr>);
        case u of
          Inl e \<Rightarrow> ret (if isConflict e then (requeueNow, None) else (emptyResult, Some e))
        | Inr updated \<Rightarrow> initializeStatus a updated
      }
      else initializeStatus a (krknRequest\<lparr>trLabels := Some labels\<rparr>))"

section \<open>Resolving what to probe\<close>

definition firstClientConfig :: "ManagedCluster \<Rightarrow> string \<times> string" where
  "firstClientConfig cluster =
     (case mcClientConfigs cluster of c # _ \<Rightarrow> (ccURL c, ccCABundle c) | [] \<Rightarrow> ([], []))"

definition resolveProxyRoute :: "'e api \<Rightarrow> string \<Rightarrow> string \<Rightarrow> ('e, string \<times> string) prog" where
  "resolveProxyRoute a clusterName clusterCABundle = do {
     u \<leftarrow> getProxyURL a clusterName;
     case u of
       Inl proxyErr \<Rightarrow> ret ([], clusterCABundle)
     | Inr proxyURL \<Rightarrow> do {
         c \<leftarrow> getProxyCA a;
         ret (case c of Inl caErr \<Rightarrow> (proxyURL, []) | Inr proxyCA \<Rightarrow> (proxyURL, proxyCA))
       }
   }"

definition buildProbeInput :: "'e api \<Rightarrow> ManagedCluster \<Rightarrow> ('e, clusterProbeInput) prog" where
  "buildProbeInput a cluster = do {
     let clusterName = mcName cluster;
     let (clusterURL, clusterCABundle) = firstClientConfig cluster;
     proxyModeEnabled \<leftarrow> isProxyModeEnabled a clusterName;
     (probeURL, probeCABundle) \<leftarrow>
        (if proxyModeEnabled then resolveProxyRoute a clusterName clusterCABundle
         else ret (clusterURL, clusterCABundle));
     ret \<lparr>piCluster = cluster, piClusterURL = clusterURL, piClusterCABundle = clusterCABundle,
          piProbeURL = probeURL, piProbeCABundle = probeCABundle,
          piProxyModeEnabled = proxyModeEnabled\<rparr>
   }"

section \<open>One cluster\<close>

text \<open>The token, unless the cluster has to be skipped.\<close>

definition getClusterToken :: "'e api \<Rightarrow> string \<Rightarrow> ProxyConfig \<Rightarrow> ('e, string option) prog" where
  "getClusterToken a clusterName proxyConfig =
     (if Enabled proxyConfig then ret (Some (ProxyToken proxyConfig))
      else do {
        secretName \<leftarrow> getConfiguredSecretName a clusterName;
        s \<leftarrow> getClusterSecret a clusterName secretName;
        ret (case s of Inl e \<Rightarrow> None | Inr secret \<Rightarrow> mapGet (secData secret) ''token'')
      })"

text \<open>From the kubeconfig on: validate it if the cluster is live, and hand it out.\<close>

definition advertiseCluster :: "'e api \<Rightarrow> 'e KrknTargetRequestReconciler \<Rightarrow> ClusterTarget \<Rightarrow>
    clusterLivenessResult \<Rightarrow> ClusterHealthStatus \<Rightarrow> string \<Rightarrow> string \<Rightarrow> string \<Rightarrow>
    ('e, ClusterTarget \<times> ClusterData option) prog" where
  "advertiseCluster a r target liveness clusterStatus clusterName actualURL kubeconfig = do {
     let kubeconfigBase64 = base64Encode kubeconfig;
     invalid \<leftarrow> (if lvOnline liveness \<and> lvHealthy liveness
                 then validateClusterCredentials kubeconfigBase64 (Some (credentialProbeOf a r)) else ret None);
     ret (case invalid of
       Some e \<Rightarrow> (target\<lparr>Online := Some False, ClusterStatus := ClusterStatusUnhealthy\<rparr>, None)
     | None \<Rightarrow> (target\<lparr>ClusterStatus := clusterStatus\<rparr>,
          Some \<lparr>cdClusterName = clusterName, cdClusterAPI = actualURL, cdKubeconfig = kubeconfigBase64\<rparr>))
   }"

definition processCluster :: "'e api \<Rightarrow> 'e KrknTargetRequestReconciler \<Rightarrow> clusterProbeInput \<Rightarrow>
    clusterProbeResult \<Rightarrow> ('e, ClusterTarget \<times> ClusterData option) prog" where
  "processCluster a r input probeResult = do {
     let cluster = piCluster input;
     let clusterName = mcName cluster;
     let target = prTarget probeResult;
     let liveness = prLiveness probeResult;
     let clusterStatus = clusterHealthStatusAfterLiveness cluster liveness;
     if mcClientConfigs cluster = [] \<and> \<not> piProxyModeEnabled input
     then ret (target\<lparr>ClusterStatus := clusterStatus\<rparr>, None)
     else do {
       p \<leftarrow> getProxyConfig a (OperatorNamespace r) clusterName;
       case p of
         Inl e \<Rightarrow> ret (target\<lparr>ClusterAPIURL := piProbeURL input,
            ClusterStatus := clusterHealthStatusAfterProxyPrerequisiteFailure liveness\<rparr>, None)
       | Inr proxyConfig \<Rightarrow> do {
           let actualURL = (if Enabled proxyConfig then ProxyURL proxyConfig else piClusterURL input);
           let target = target\<lparr>ClusterAPIURL := actualURL\<rparr>;
           tok \<leftarrow> getClusterToken a clusterName proxyConfig;
           case tok of
             None \<Rightarrow> ret (target\<lparr>ClusterStatus := clusterStatus\<rparr>, None)
           | Some token \<Rightarrow>
               (case generateKubeconfig clusterName (piClusterURL input) (piClusterCABundle input)
                       token (Some proxyConfig) of
                  Inl e \<Rightarrow> ret (target\<lparr>ClusterStatus := clusterStatus\<rparr>, None)
                | Inr kubeconfig \<Rightarrow>
                    advertiseCluster a r target liveness clusterStatus clusterName actualURL kubeconfig)
         }
     }
   }"

text \<open>The loop over probe inputs and results; the credentials are a map, never nil.\<close>

definition collectCluster :: "'e api \<Rightarrow> 'e KrknTargetRequestReconciler \<Rightarrow>
    clusterProbeInput \<times> clusterProbeResult \<Rightarrow> (string \<times> ClusterData) list \<times> ClusterTarget list \<Rightarrow>
    ('e, (string \<times> ClusterData) list \<times> ClusterTarget list) prog" where
  "collectCluster a r ip collected =
     (case (ip, collected) of ((input, probeResult), (clustersData, targetData)) \<Rightarrow> do {
        (target, data) \<leftarrow> processCluster a r input probeResult;
        ret (case data of None \<Rightarrow> clustersData
             | Some d \<Rightarrow> AList.update (mcName (piCluster input)) d clustersData,
             targetData @ [target])
      })"

definition processClusters :: "'e api \<Rightarrow> 'e KrknTargetRequestReconciler \<Rightarrow>
    (clusterProbeInput \<times> clusterProbeResult) list \<Rightarrow>
    ('e, (string \<times> ClusterData) list \<times> ClusterTarget list) prog" where
  "processClusters a r inputs = foldM (collectCluster a r) inputs ([], [])"

section \<open>Publishing\<close>

definition completeRequest :: "time \<Rightarrow> KrknTargetRequest \<Rightarrow> KrknTargetRequest" where
  "completeRequest completedTime krknRequest =
     krknRequest\<lparr>trStatus := StatusCompleted, trCompleted := Some completedTime\<rparr>"

definition cleanupAndReturn ::
    "'e api \<Rightarrow> 'e KrknTargetRequestReconciler \<Rightarrow> ('e, reconcileResult) prog" where
  "cleanupAndReturn a r = do {
     c \<leftarrow> cleanupOldTargetRequests a r;
     ret (emptyResult, c)
   }"

definition publishTargets :: "'e api \<Rightarrow> 'e KrknTargetRequestReconciler \<Rightarrow>
    KrknOperatorTargetProvider list \<Rightarrow> KrknTargetRequest \<Rightarrow> ClusterTarget list \<Rightarrow>
    ('e, reconcileResult) prog" where
  "publishTargets a r providerList krknRequest targetData = do {
     let targets = (case trTargetData krknRequest of None \<Rightarrow> [] | Some al \<Rightarrow> al);
     let krknRequest = krknRequest\<lparr>trTargetData :=
            Some (AList.update (OperatorName r) targetData targets)\<rparr>;
     let activeProviderCount = countActiveProviders providerList;
     let contributorCount = mapLen (trTargetData krknRequest);
     now \<leftarrow> Now a;
     let krknRequest = (if shouldMarkAsCompleted activeProviderCount contributorCount
                        then completeRequest now krknRequest else krknRequest);
     u \<leftarrow> StatusUpdate_TargetRequest a krknRequest;
     case u of
       Inl e \<Rightarrow> ret (if isConflict e then (requeueNow, None) else (emptyResult, Some e))
     | Inr _ \<Rightarrow> cleanupAndReturn a r
   }"

text \<open>What follows the probes: targets and credentials, the secret, the status.\<close>

definition reportProbes :: "'e api \<Rightarrow> 'e KrknTargetRequestReconciler \<Rightarrow>
    KrknOperatorTargetProvider list \<Rightarrow> KrknTargetRequest \<Rightarrow> clusterProbeInput list \<Rightarrow>
    clusterProbeResult list \<Rightarrow> ('e, reconcileResult) prog" where
  "reportProbes a r providerList krknRequest probeInputs probeResults = do {
     (clustersData, targetData) \<leftarrow> processClusters a r (zip probeInputs probeResults);
     s \<leftarrow> createManagedClustersSecret a r krknRequest (Some clustersData);
     case s of
       Some e \<Rightarrow> ret (emptyResult, Some e)
     | None \<Rightarrow> publishTargets a r providerList krknRequest targetData
   }"

definition contributeTargets :: "'e api \<Rightarrow> 'e KrknTargetRequestReconciler \<Rightarrow>
    KrknOperatorTargetProvider list \<Rightarrow> KrknTargetRequest \<Rightarrow> ('e, reconcileResult) prog" where
  "contributeTargets a r providerList krknRequest = do {
     m \<leftarrow> getManagedClusters a;
     case m of
       Inl e \<Rightarrow> ret (emptyResult, Some e)
     | Inr managedClusters \<Rightarrow> do {
         probeInputs \<leftarrow> mapM (buildProbeInput a) managedClusters;
         probeResults \<leftarrow> probeManagedClusters a probeInputs (livenessProbeOf a r);
         reportProbes a r providerList krknRequest probeInputs probeResults
       }
   }"

text \<open>A request that already holds this operator's targets: only its completion is checked.\<close>

definition awaitOthers :: "'e api \<Rightarrow> 'e KrknTargetRequestReconciler \<Rightarrow>
    KrknOperatorTargetProvider list \<Rightarrow> KrknTargetRequest \<Rightarrow> ('e, reconcileResult) prog" where
  "awaitOthers a r providerList krknRequest =
     (if shouldMarkAsCompleted (countActiveProviders providerList) (mapLen (trTargetData krknRequest))
      then do {
        completedTime \<leftarrow> Now a;
        u \<leftarrow> StatusUpdate_TargetRequest a (completeRequest completedTime krknRequest);
        case u of
          Inl e \<Rightarrow> ret (if isConflict e then (requeueNow, None) else (emptyResult, Some e))
        | Inr _ \<Rightarrow> cleanupAndReturn a r
      }
      else cleanupAndReturn a r)"

section \<open>Reconcile\<close>

definition processRequest :: "'e api \<Rightarrow> 'e KrknTargetRequestReconciler \<Rightarrow> KrknTargetRequest \<Rightarrow>
    ('e, reconcileResult) prog" where
  "processRequest a r krknRequest = do {
     (providerList, shouldSkip, result, err) \<leftarrow>
        checkProviderActive a (OperatorName r) (OperatorNamespace r);
     case err of
       Some e \<Rightarrow> ret (result, Some e)
     | None \<Rightarrow>
         if shouldSkip then ret (result, None)
         else (let providers = (case providerList of None \<Rightarrow> [] | Some ps \<Rightarrow> ps) in
               if mapGet (trTargetData krknRequest) (OperatorName r) \<noteq> None
               then awaitOthers a r providers krknRequest
               else contributeTargets a r providers krknRequest)
   }"

definition TargetRequest_Reconcile ::
    "'e api \<Rightarrow> 'e KrknTargetRequestReconciler \<Rightarrow> nsname \<Rightarrow> ('e, reconcileResult) prog" where
  "TargetRequest_Reconcile a r req = do {
     g \<leftarrow> Get_TargetRequest a req;
     case g of
       Inl e \<Rightarrow> ret (emptyResult, if isNotFound e then None else Some e)
     | Inr krknRequest \<Rightarrow>
         if trStatus krknRequest = [] then initializeRequest a krknRequest
         else if trStatus krknRequest = StatusCompleted then ret (emptyResult, None)
         else if trStatus krknRequest \<noteq> StatusPending then ret (emptyResult, None)
         else processRequest a r krknRequest
   }"

section \<open>What the probes promise\<close>

text \<open>A credential probe that accepts only good kubeconfigs, and writes nothing.\<close>

locale credential_probe =
  fixes check :: "string \<Rightarrow> nat \<Rightarrow> ('e, err option) prog" and good :: "string \<Rightarrow> bool"
  assumes check_good: "outcome (check k t) w = None \<Longrightarrow> good k"
    and check_calls: "only (\<lambda>c. \<not> writes c) (check k t)"
begin

lemma validated_good: "yields (\<lambda>e. e = None \<longrightarrow> good k) (validateClusterCredentials k (Some check))"
  using check_good[of k] by (simp add: yields_def validateClusterCredentials_def outcome_def)

lemma only_validated: "(\<And>c. \<not> writes c \<Longrightarrow> P c) \<Longrightarrow> only P (validateClusterCredentials k (Some check))"
  unfolding validateClusterCredentials_def option.case by (rule only_mono[OF check_calls])

end

text \<open>The default probe accepts what \<^verbatim>\<open>provider.CheckClusterLiveness\<close> has accepted.\<close>

definition acceptedBy :: "'e api \<Rightarrow> string \<Rightarrow> bool" where
  "acceptedBy a k = (\<exists>t e. fst (apiCheckClusterLiveness a k t e) = None)"

interpretation default_check: credential_probe "\<lambda>k t. Check_ClusterLiveness a k t" "acceptedBy a"
    for a :: "'e api"
  by unfold_locales (auto simp: outcome_def acceptedBy_def intro: only_call)

definition soundProbes :: "'e api \<Rightarrow> 'e KrknTargetRequestReconciler \<Rightarrow> (string \<Rightarrow> bool) \<Rightarrow> bool" where
  "soundProbes a r good =
     (liveness_probe (livenessProbeOf a r) \<and> credential_probe (credentialProbeOf a r) good)"

lemma soundProbes_default:
  "clusterLivenessProbe r = None \<Longrightarrow> clusterCredentialProbe r = None \<Longrightarrow> soundProbes a r (acceptedBy a)"
  by (simp add: soundProbes_def livenessProbeOf_def credentialProbeOf_def
      anonymous.liveness_probe_axioms default_check.credential_probe_axioms)

section \<open>Facts: one cluster\<close>

text \<open>What the target and the credentials of a cluster say.\<close>

definition targetFor :: "(string \<Rightarrow> bool) \<Rightarrow> clusterProbeInput \<Rightarrow> clusterProbeResult \<Rightarrow>
    ClusterTarget \<times> ClusterData option \<Rightarrow> bool" where
  "targetFor good input p td =
     (let t = fst td; live = lvOnline (prLiveness p) \<and> lvHealthy (prLiveness p) in
      ClusterName t = mcName (piCluster input) \<and> CheckedAt t \<noteq> None \<and> ClusterStatus t \<noteq> ClusterStatusUnset
      \<and> (ClusterStatus t = ClusterStatusHealthy \<longrightarrow> live \<and> Online t = Some True)
      \<and> (case snd td of
           None \<Rightarrow> Online t = Some (lvOnline (prLiveness p)) \<or> Online t = Some False
         | Some d \<Rightarrow> Online t = Some (lvOnline (prLiveness p))
             \<and> cdClusterName d = mcName (piCluster input) \<and> cdClusterAPI d = ClusterAPIURL t
             \<and> (live \<longrightarrow> good (cdKubeconfig d))))"

lemma status_set:
  "clusterHealthStatusAfterLiveness c l \<noteq> ClusterStatusUnset"
  "clusterHealthStatusAfterProxyPrerequisiteFailure l \<noteq> ClusterStatusUnset"
  "clusterHealthStatusAfterProxyPrerequisiteFailure l \<noteq> ClusterStatusHealthy"
  "clusterHealthStatusAfterLiveness c l = ClusterStatusHealthy \<Longrightarrow> lvOnline l \<and> lvHealthy l"
  by (auto simp: clusterHealthStatusAfterLiveness_def clusterHealthStatus_def healthFromConditions_set
      clusterHealthStatusAfterProxyPrerequisiteFailure_def split: if_splits)

lemma advertiseCluster_target:
  assumes "credential_probe (credentialProbeOf a r) good" "probeResultFor input p"
    and "ClusterName target = mcName (piCluster input)" "CheckedAt target \<noteq> None"
    "Online target = Some (lvOnline (prLiveness p))"
    and "name = mcName (piCluster input)" "url = ClusterAPIURL target"
  shows "yields (targetFor good input p) (advertiseCluster a r target (prLiveness p)
     (clusterHealthStatusAfterLiveness (piCluster input) (prLiveness p)) name url kc)"
proof -
  let ?l = "prLiveness p"
  have "yields (\<lambda>e. e = None \<longrightarrow> lvOnline ?l \<and> lvHealthy ?l \<longrightarrow> good (base64Encode kc))
     (if lvOnline ?l \<and> lvHealthy ?l
      then validateClusterCredentials (base64Encode kc) (Some (credentialProbeOf a r)) else ret None)"
    using credential_probe.validated_good[OF assms(1), of "base64Encode kc"]
    by (auto simp: yields_def)
  then show ?thesis
    unfolding advertiseCluster_def Let_def
    by (rule yields_bind) (use assms(3-7) status_set in \<open>auto simp: targetFor_def yields_def split: option.split\<close>)
qed

lemma processCluster_target:
  assumes cred: "credential_probe (credentialProbeOf a r) good" and p: "probeResultFor input p"
  shows "yields (targetFor good input p) (processCluster a r input p)"
proof -
  have t: "ClusterName (prTarget p) = mcName (piCluster input)" "CheckedAt (prTarget p) \<noteq> None"
    "Online (prTarget p) = Some (lvOnline (prLiveness p))"
    using p by (simp_all add: probeResultFor_def)
  have plain: "targetFor good input p (prTarget p\<lparr>ClusterAPIURL := u, ClusterStatus := s\<rparr>, None)"
    "targetFor good input p (prTarget p\<lparr>ClusterStatus := s\<rparr>, None)"
    if "s = clusterHealthStatusAfterLiveness (piCluster input) (prLiveness p) \<or>
        s = clusterHealthStatusAfterProxyPrerequisiteFailure (prLiveness p)" for s u
    using that t status_set by (auto simp: targetFor_def)
  show ?thesis
    unfolding processCluster_def Let_def
    by (intro yield advertiseCluster_target[OF cred p] plain) (simp_all add: t)
qed

section \<open>Facts: all clusters\<close>

lemma set_updateD: "nd \<in> set (AList.update k v al) \<Longrightarrow> nd = (k, v) \<or> nd \<in> set al"
  by (induction al) (auto split: if_splits)

text \<open>A pair of the credentials is explained by some input and its target.\<close>

definition explained :: "(string \<Rightarrow> bool) \<Rightarrow> (clusterProbeInput \<times> clusterProbeResult) list \<Rightarrow>
    ClusterTarget list \<Rightarrow> string \<times> ClusterData \<Rightarrow> bool" where
  "explained good ips ts nd = (\<exists>i < length ips. mcName (piCluster (fst (ips ! i))) = fst nd
     \<and> targetFor good (fst (ips ! i)) (snd (ips ! i)) (ts ! i, Some (snd nd)))"

lemma explained_snoc:
  "explained good ips ts nd \<Longrightarrow> length ts = length ips \<Longrightarrow> explained good (ips @ [ip]) (ts @ [t]) nd"
  unfolding explained_def by (metis (no_types, lifting) length_append_singleton less_SucI nth_append)

lemma explained_last:
  "targetFor good input p (t, Some x) \<Longrightarrow> length ts = length ips \<Longrightarrow>
   explained good (ips @ [(input, p)]) (ts @ [t]) (mcName (piCluster input), x)"
  unfolding explained_def by (rule exI[of _ "length ips"]) (simp add: nth_append)

text \<open>
  One target per input, in the same order, and credentials only for inputs whose target they
  agree with.
\<close>

definition reportFor :: "(string \<Rightarrow> bool) \<Rightarrow> (clusterProbeInput \<times> clusterProbeResult) list \<Rightarrow>
    (string \<times> ClusterData) list \<times> ClusterTarget list \<Rightarrow> bool" where
  "reportFor good ips acc =
     (list_all2 (\<lambda>ip t. \<exists>d. targetFor good (fst ip) (snd ip) (t, d)) ips (snd acc)
      \<and> distinct (map fst (fst acc)) \<and> (\<forall>nd \<in> set (fst acc). explained good ips (snd acc) nd))"

lemma reportFor_step:
  assumes R: "reportFor good ips (cd, ts)" and t: "targetFor good input p (t, d)"
  shows "reportFor good (ips @ [(input, p)])
     (case d of None \<Rightarrow> cd | Some x \<Rightarrow> AList.update (mcName (piCluster input)) x cd, ts @ [t])"
    (is "reportFor good ?ips (?cd, ?ts)")
proof -
  have len: "length ts = length ips" using R by (auto simp: reportFor_def dest: list_all2_lengthD)
  have "explained good ?ips ?ts nd" if nd: "nd \<in> set ?cd" for nd
  proof (cases "nd \<in> set cd")
    case True
    with R len show ?thesis by (auto simp: reportFor_def intro: explained_snoc)
  next
    case False
    with nd obtain x where x: "d = Some x" "nd \<in> set (AList.update (mcName (piCluster input)) x cd)"
      by (cases d) auto
    with False have "nd = (mcName (piCluster input), x)" using set_updateD by metis
    with t x(1) len show ?thesis by (simp add: explained_last)
  qed
  moreover have "distinct (map fst ?cd)" using R by (auto simp: reportFor_def distinct_update split: option.split)
  moreover have "list_all2 (\<lambda>ip t. \<exists>d. targetFor good (fst ip) (snd ip) (t, d)) ?ips ?ts"
    using R t by (auto simp: reportFor_def intro!: list_all2_appendI)
  ultimately show ?thesis by (simp add: reportFor_def)
qed

lemma processClusters_report:
  assumes cred: "credential_probe (credentialProbeOf a r) good"
    and ips: "list_all (\<lambda>(input, p). probeResultFor input p) ips"
  shows "yields (reportFor good ips) (processClusters a r ips)"
proof -
  have "yields (reportFor good ([] @ ips)) (processClusters a r ips)"
    unfolding processClusters_def
  proof (rule yields_foldM)
    show "reportFor good [] ([], [])" by (simp add: reportFor_def)
  next
    fix before ip acc
    assume ip: "ip \<in> set ips" and R: "reportFor good before acc"
    obtain input p cd ts where eq: "ip = (input, p)" "acc = (cd, ts)" by (cases ip; cases acc)
    with ip ips have "probeResultFor input p" by (auto simp: list_all_iff)
    from processCluster_target[OF cred this] R
    show "yields (reportFor good (before @ [ip])) (collectCluster a r ip acc)"
      unfolding eq collectCluster_def prod.case
      by (elim yields_bind) (auto intro!: yields_ret reportFor_step split: prod.split)
  qed
  then show ?thesis by simp
qed

text \<open>The inputs belong to the clusters, and a proxied cluster is never probed at its own URL.\<close>

definition inputFor :: "ManagedCluster \<Rightarrow> clusterProbeInput \<Rightarrow> bool" where
  "inputFor cluster input = (piCluster input = cluster
     \<and> piClusterURL input = fst (firstClientConfig cluster)
     \<and> (\<not> piProxyModeEnabled input \<longrightarrow> piProbeURL input = fst (firstClientConfig cluster)
          \<and> piProbeCABundle input = snd (firstClientConfig cluster)))"

lemma buildProbeInput_for: "yields (inputFor cluster) (buildProbeInput a cluster)"
  by (auto simp: yields_def buildProbeInput_def inputFor_def firstClientConfig_def Let_def
      split: prod.split list.split)

lemma probe_results:
  assumes "soundProbes a r good"
  shows "yields (list_all2 probeResultFor inputs) (probeManagedClusters a inputs (livenessProbeOf a r))"
  using assms liveness_probe.probeManagedClusters_results[of "livenessProbeOf a r" inputs a]
  by (auto simp: soundProbes_def yields_def)

section \<open>Facts: calls\<close>

text \<open>
  The calls of the part that works on clusters: besides reads, only ManifestWorks in the
  namespaces of the clusters.
\<close>

definition clusterCall :: "ManagedCluster list \<Rightarrow> apiCall \<Rightarrow> bool" where
  "clusterCall clusters c = (writes c \<longrightarrow> (\<exists>cl obj. cl \<in> set clusters \<and>
     c = CCreateManifestWork \<lparr>mwNamespace = mcName cl, mwGVK = manifestWorkGVK, mwObject = obj\<rparr>))"

lemma clusterCall_read: "\<not> writes c \<Longrightarrow> clusterCall cs c"
  by (simp add: clusterCall_def)

lemma only_buildProbeInput: "(\<And>c. \<not> writes c \<Longrightarrow> P c) \<Longrightarrow> only P (buildProbeInput a cluster)"
  unfolding buildProbeInput_def resolveProxyRoute_def Let_def by (intro wp) simp_all

lemma only_processCluster:
  assumes "credential_probe (credentialProbeOf a r) good"
  shows "only (clusterCall [piCluster input]) (processCluster a r input p)"
proof -
  note validated = credential_probe.only_validated[OF assms clusterCall_read]
  show ?thesis
    unfolding processCluster_def advertiseCluster_def getClusterToken_def Let_def
    by (intro wp validated) (simp_all add: clusterCall_def)
qed

lemma only_processClusters:
  assumes "credential_probe (credentialProbeOf a r) good" "\<forall>ip \<in> set ips. piCluster (fst ip) \<in> set cs"
  shows "only (clusterCall cs) (processClusters a r ips)"
proof -
  have "only (clusterCall cs) (foldM (collectCluster a r) ips acc)" for acc
    using assms(2)
  proof (induction ips arbitrary: acc)
    case (Cons ip ips)
    have "only (clusterCall cs) (processCluster a r (fst ip) (snd ip))"
      using only_mono[OF only_processCluster[OF assms(1)], of "fst ip" "clusterCall cs" "snd ip"] Cons.prems
      by (fastforce simp: clusterCall_def)
    then have "only (clusterCall cs) (collectCluster a r ip b)" for b
      unfolding collectCluster_def by (cases ip; cases b) (auto intro!: wp)
    moreover have "only (clusterCall cs) (foldM (collectCluster a r) ips b)" for b
      using Cons by simp
    ultimately show ?case unfolding foldM.simps by (rule only_bind)
  qed (simp add: only_ret)
  then show ?thesis by (simp add: processClusters_def)
qed

text \<open>What may be written to a request \<open>t0\<close> and around it.\<close>

fun requestWrite :: "'e KrknTargetRequestReconciler \<Rightarrow> KrknTargetRequest \<Rightarrow> apiCall \<Rightarrow> bool" where
  "requestWrite r t0 (CUpdateTargetRequest t) =
     (trStatus t0 = [] \<and> t = t0\<lparr>trLabels := trLabels t\<rparr>
      \<and> mapGet (trLabels t) = (mapGet (trLabels t0))(uuidLabel \<mapsto> trUUID t0)
      \<and> mapGet (trLabels t0) uuidLabel = None)"
| "requestWrite r t0 (CStatusUpdateTargetRequest t) =
     (if trStatus t0 = [] then trStatus t = StatusPending
      else trStatus t0 = StatusPending
        \<and> t = t0\<lparr>trStatus := trStatus t, trTargetData := trTargetData t, trCompleted := trCompleted t\<rparr>
        \<and> (trStatus t = StatusPending \<and> trCompleted t = trCompleted t0
           \<or> trStatus t = StatusCompleted \<and> trCompleted t \<noteq> None)
        \<and> (\<forall>q. q \<noteq> OperatorName r \<longrightarrow> mapGet (trTargetData t) q = mapGet (trTargetData t0) q)
        \<and> mapGet (trTargetData t) (OperatorName r) \<noteq> None
        \<and> (mapGet (trTargetData t0) (OperatorName r) \<noteq> None \<longrightarrow>
             trTargetData t = trTargetData t0 \<and> trStatus t = StatusCompleted))"
| "requestWrite r t0 (CCleanupTargetRequests ns s) =
     (trStatus t0 = StatusPending \<and> ns = OperatorNamespace r \<and> s = CleanupThresholdSeconds)"
| "requestWrite r t0 (CCreateSecret s) =
     (trStatus t0 = StatusPending \<and> mapGet (trTargetData t0) (OperatorName r) = None)"
| "requestWrite r t0 (CUpdateSecret s) =
     (trStatus t0 = StatusPending \<and> mapGet (trTargetData t0) (OperatorName r) = None)"
| "requestWrite r t0 (CCreateManifestWork m) =
     (trStatus t0 = StatusPending \<and> mapGet (trTargetData t0) (OperatorName r) = None
      \<and> mwGVK m = manifestWorkGVK)"
| "requestWrite r t0 c = (\<not> writes c)"

lemma requestWrite_read: "\<not> writes c \<Longrightarrow> requestWrite r t0 c"
  by (cases c) simp_all

lemma only_initializeRequest:
  assumes "trStatus t0 = []"
  shows "only (requestWrite r t0) (initializeRequest a t0)"
  unfolding initializeRequest_def initializeStatus_def Let_def
  using assms
  by (intro wp) (auto simp: mapGet_def update_conv' fun_eq_iff split: option.split)

lemma mapGet_update: "mapGet (Some (AList.update k v (case m of None \<Rightarrow> [] | Some al \<Rightarrow> al)))
    = (mapGet m)(k \<mapsto> v)"
  by (auto simp: mapGet_def update_conv' fun_eq_iff split: option.split)

lemma only_publishTargets:
  assumes "trStatus t0 = StatusPending" "mapGet (trTargetData t0) (OperatorName r) = None"
  shows "only (requestWrite r t0) (publishTargets a r ps t0 ts)"
  unfolding publishTargets_def cleanupAndReturn_def cleanupOldTargetRequests_def Let_def
  using assms by (intro wp) (auto simp: mapGet_update completeRequest_def)

lemma only_awaitOthers:
  assumes "trStatus t0 = StatusPending" "mapGet (trTargetData t0) (OperatorName r) \<noteq> None"
  shows "only (requestWrite r t0) (awaitOthers a r ps t0)"
  unfolding awaitOthers_def cleanupAndReturn_def cleanupOldTargetRequests_def
  using assms by (intro wp) (auto simp: completeRequest_def)

lemma only_reportProbes:
  assumes sp: "soundProbes a r good" and reads: "\<And>c. \<not> writes c \<Longrightarrow> P c"
    and works: "\<And>m. mwGVK m = manifestWorkGVK \<Longrightarrow> P (CCreateManifestWork m)"
    and inputs: "list_all2 inputFor mcs inputs" and probed: "list_all2 probeResultFor inputs probed"
    and publish: "\<And>ips cd ts. list_all2 (\<lambda>c ip. inputFor c (fst ip) \<and> probeResultFor (fst ip) (snd ip)) mcs ips \<Longrightarrow>
       reportFor good ips (cd, ts) \<Longrightarrow>
       only P (createManagedClustersSecret a r t0 (Some cd)) \<and> only P (publishTargets a r ps t0 ts)"
  shows "only P (reportProbes a r ps t0 inputs probed)"
  unfolding reportProbes_def
proof (rule only_bind_yields)
  from sp have cred: "credential_probe (credentialProbeOf a r) good" by (simp add: soundProbes_def)
  let ?ips = "zip inputs probed"
  have len: "length mcs = length inputs" "length inputs = length probed"
    using inputs probed by (simp_all add: list_all2_lengthD)
  have ips: "list_all2 (\<lambda>c ip. inputFor c (fst ip) \<and> probeResultFor (fst ip) (snd ip)) mcs ?ips"
    using inputs probed by (auto simp: list_all2_conv_all_nth)
  have all: "list_all (\<lambda>(input, p). probeResultFor input p) ?ips"
    using probed by (auto simp: list_all_iff list_all2_conv_all_nth in_set_zip)
  show "yields (reportFor good ?ips) (processClusters a r ?ips)"
    by (rule processClusters_report[OF cred all])
  have "\<forall>ip \<in> set ?ips. piCluster (fst ip) \<in> set (map piCluster inputs)"
    by (auto simp: in_set_zip)
  from only_processClusters[OF cred this] show "only P (processClusters a r ?ips)"
    by (rule only_mono) (auto simp: clusterCall_def intro: reads works)
  show "only P (case cdts of (cd, ts) \<Rightarrow> createManagedClustersSecret a r t0 (Some cd) \<bind>
      (\<lambda>s. case s of None \<Rightarrow> publishTargets a r ps t0 ts | Some e \<Rightarrow> ret (emptyResult, Some e)))"
    if "reportFor good ?ips cdts" for cdts
  proof (cases cdts)
    case (Pair cd ts)
    with publish[OF ips, of cd ts] that show ?thesis by (auto intro!: wp)
  qed
qed

lemma only_contributeTargets:
  assumes sp: "soundProbes a r good" and reads: "\<And>c. \<not> writes c \<Longrightarrow> P c"
    and works: "\<And>m. mwGVK m = manifestWorkGVK \<Longrightarrow> P (CCreateManifestWork m)"
    and known: "yields (\<lambda>m. \<forall>mcs. m = Inr mcs \<longrightarrow> K mcs) (getManagedClusters a)"
    and publish: "\<And>mcs ips cd ts. K mcs \<Longrightarrow>
       list_all2 (\<lambda>c ip. inputFor c (fst ip) \<and> probeResultFor (fst ip) (snd ip)) mcs ips \<Longrightarrow>
       reportFor good ips (cd, ts) \<Longrightarrow>
       only P (createManagedClustersSecret a r t0 (Some cd)) \<and> only P (publishTargets a r ps t0 ts)"
  shows "only P (contributeTargets a r ps t0)"
  unfolding contributeTargets_def
proof (rule only_bind_yields[OF _ known])
  show "only P (getManagedClusters a)" by (intro wp reads) simp
  from sp have live: "liveness_probe (livenessProbeOf a r)" by (simp add: soundProbes_def)
  show "only P (case m of Inl e \<Rightarrow> ret (emptyResult, Some e)
     | Inr managedClusters \<Rightarrow> do {
         probeInputs \<leftarrow> mapM (buildProbeInput a) managedClusters;
         probeResults \<leftarrow> probeManagedClusters a probeInputs (livenessProbeOf a r);
         reportProbes a r ps t0 probeInputs probeResults })"
    if m: "\<forall>mcs. m = Inr mcs \<longrightarrow> K mcs" for m
  proof (cases m)
    case (Inr mcs)
    have "only P (mapM (buildProbeInput a) mcs)" by (intro wp only_buildProbeInput reads)
    moreover have "yields (list_all2 inputFor mcs) (mapM (buildProbeInput a) mcs)"
      by (rule yields_mapM) (rule buildProbeInput_for)
    moreover have "only P (probeManagedClusters a inputs (livenessProbeOf a r))" for inputs
      by (rule liveness_probe.only_probeManagedClusters[OF live reads])
    moreover have "only P (reportProbes a r ps t0 inputs probed)"
      if "list_all2 inputFor mcs inputs" "list_all2 probeResultFor inputs probed" for inputs probed
      by (rule only_reportProbes[OF sp _ _ that]) (use reads works publish m Inr in simp_all)
    ultimately show ?thesis
      using Inr probe_results[OF sp]
      by (auto intro!: only_bind_yields[of P _ "list_all2 inputFor mcs"] only_bind_yields[of P _ "list_all2 probeResultFor _"])
  qed (simp add: wp)
qed

lemma getManagedClusters_any: "yields (\<lambda>m. \<forall>mcs. m = Inr mcs \<longrightarrow> True) (getManagedClusters a)"
  by (simp add: yields_def)

lemma only_processRequest:
  assumes sp: "soundProbes a r good" and "trStatus t0 = StatusPending"
  shows "only (requestWrite r t0) (processRequest a r t0)"
proof -
  have "only (requestWrite r t0) (contributeTargets a r ps t0)"
    if "mapGet (trTargetData t0) (OperatorName r) = None" for ps
    using assms that
    by (intro only_contributeTargets[OF sp requestWrite_read _ getManagedClusters_any] conjI
        only_createManagedClustersSecret only_publishTargets) simp_all
  then show ?thesis
    unfolding processRequest_def Let_def by (intro wp only_awaitOthers) (use assms(2) in simp_all)
qed

lemma only_afterGet:
  assumes "soundProbes a r good"
  shows "only (requestWrite r t0) (if trStatus t0 = [] then initializeRequest a t0
         else if trStatus t0 = StatusCompleted then ret (emptyResult, None)
         else if trStatus t0 \<noteq> StatusPending then ret (emptyResult, None)
         else processRequest a r t0)"
  using only_processRequest[OF assms] by (auto intro: only_initializeRequest)

text \<open>The one status update of a contribution, as a function of the request.\<close>

definition publishedRequest :: "time \<Rightarrow> 'e KrknTargetRequestReconciler \<Rightarrow>
    KrknOperatorTargetProvider list \<Rightarrow> KrknTargetRequest \<Rightarrow> ClusterTarget list \<Rightarrow> KrknTargetRequest" where
  "publishedRequest now r ps t0 ts =
     (let m = Some (AList.update (OperatorName r) ts (case trTargetData t0 of None \<Rightarrow> [] | Some al \<Rightarrow> al));
          t = t0\<lparr>trTargetData := m\<rparr>
      in if shouldMarkAsCompleted (countActiveProviders ps) (mapLen m) then completeRequest now t else t)"

lemma run_publishTargets:
  "run_state (publishTargets a r ps t0 ts) w = run_state (do {
     u \<leftarrow> StatusUpdate_TargetRequest a (publishedRequest (apiNow a (env w)) r ps t0 ts);
     case u of
       Inl e \<Rightarrow> ret (if isConflict e then (requeueNow, None) else (emptyResult, Some e))
     | Inr _ \<Rightarrow> cleanupAndReturn a r }) w"
  by (simp add: publishTargets_def publishedRequest_def Let_def)

lemma publishedRequest_own: "mapGet (trTargetData (publishedRequest now r ps t0 ts)) (OperatorName r) = Some ts"
  by (simp add: publishedRequest_def Let_def completeRequest_def mapGet_update)

section \<open>Results\<close>

text \<open>
  What controller-runtime makes of a result: an error is retried with backoff and its result
  ignored, a delay brings the request back, anything else is forgotten until the next event.
\<close>

datatype queueAction = Forget | RequeueAt nat | RetryWithBackoff err

definition queueAction :: "reconcileResult \<Rightarrow> queueAction" where
  "queueAction res = (case snd res of Some e \<Rightarrow> RetryWithBackoff e
     | None \<Rightarrow> if RequeueAfter (fst res) = 0 then Forget else RequeueAt (RequeueAfter (fst res)))"

text \<open>A reconciler whose results say one thing: an error, an immediate requeue, or nothing.\<close>

locale reconciler =
  fixes reconcile :: "nsname \<Rightarrow> ('e, reconcileResult) prog"
  assumes decides: "yields (\<lambda>res. fst res = emptyResult \<or> (fst res = requeueNow \<and> snd res = None)) (reconcile req)"
begin

lemma no_delay_with_error: "snd (outcome (reconcile req) w) = Some e \<Longrightarrow> fst (outcome (reconcile req) w) = emptyResult"
  using yields_outcome[OF decides, of req w] by auto

lemma requeue_is_immediate: "queueAction (outcome (reconcile req) w) = RequeueAt n \<Longrightarrow> n = 1"
  using yields_outcome[OF decides, of req w]
  by (auto simp: queueAction_def requeueNow_def emptyResult_def split: option.splits if_splits)

end

lemma yields_checkProviderActive:
  "yields (\<lambda>(ps, skip, res, e). res = emptyResult \<and> (e = None \<longrightarrow> ps \<noteq> None)) (checkProviderActive a oper ns)"
  unfolding checkProviderActive_def by (intro yield) simp_all

lemma decides_processRequest:
  "yields (\<lambda>res. fst res = emptyResult \<or> (fst res = requeueNow \<and> snd res = None)) (processRequest a r t0)"
  unfolding processRequest_def
proof (rule yields_bind[OF yields_checkProviderActive])
  fix x :: "KrknOperatorTargetProvider list option \<times> bool \<times> Result \<times> err option"
  assume "case x of (ps, skip, res, e) \<Rightarrow> res = emptyResult \<and> (e = None \<longrightarrow> ps \<noteq> None)"
  then obtain ps skip e where x: "x = (ps, skip, emptyResult, e)" by (cases x) auto
  show "yields (\<lambda>res. fst res = emptyResult \<or> (fst res = requeueNow \<and> snd res = None))
     (case x of (providerList, shouldSkip, result, err) \<Rightarrow>
       (case err of Some e \<Rightarrow> ret (result, Some e)
        | None \<Rightarrow>
         if shouldSkip then ret (result, None)
         else (let providers = (case providerList of None \<Rightarrow> [] | Some ps \<Rightarrow> ps) in
               if mapGet (trTargetData t0) (OperatorName r) \<noteq> None
               then awaitOthers a r providers t0 else contributeTargets a r providers t0)))"
    unfolding x prod.case awaitOthers_def contributeTargets_def reportProbes_def publishTargets_def cleanupAndReturn_def Let_def
    by (intro yield) simp_all
qed

interpretation target_request: reconciler "TargetRequest_Reconcile a r" for a :: "'e api" and r
  by unfold_locales (auto simp: TargetRequest_Reconcile_def initializeRequest_def initializeStatus_def Let_def
      intro!: yield decides_processRequest split: sum.split if_split_asm)

interpretation config_map: reconciler "ConfigMap_Reconcile a" for a :: "'e api"
  by unfold_locales (auto simp: ConfigMap_Reconcile_def intro!: yield)

section \<open>The target data as contributions\<close>

text \<open>The map of targets, as \<open>publishTargets\<close> changes it.\<close>

definition putTargets :: "string \<Rightarrow> ClusterTarget list \<Rightarrow> ClusterTarget list gomap \<Rightarrow> ClusterTarget list gomap" where
  "putTargets oper ts m = Some (AList.update oper ts (case m of None \<Rightarrow> [] | Some al \<Rightarrow> al))"

lemma mapGet_putTargets: "mapGet (putTargets p ts m) q = (if q = p then Some ts else mapGet m q)"
  by (simp add: putTargets_def mapGet_update)

lemma mapWf_putTargets: "mapWf m \<Longrightarrow> mapWf (putTargets p ts m)"
  by (auto simp: putTargets_def mapWf_def mapKeys_def distinct_update split: option.splits)

interpretation target_data: contributions mapWf "\<lambda>_. True" putTargets mapGet id
  by unfold_locales (simp_all add: mapWf_putTargets mapGet_putTargets)

lemma publishedRequest_targets: "trTargetData (publishedRequest now r ps t0 ts) = putTargets (OperatorName r) ts (trTargetData t0)"
  by (simp add: publishedRequest_def putTargets_def completeRequest_def Let_def)

lemma publishedRequest_status:
  assumes "trStatus t0 = StatusPending"
  shows "trStatus (publishedRequest now r ps t0 ts) = StatusCompleted \<longleftrightarrow>
     shouldMarkAsCompleted (countActiveProviders ps) (mapLen (putTargets (OperatorName r) ts (trTargetData t0)))"
  using assms by (simp add: publishedRequest_def putTargets_def completeRequest_def Let_def)

lemma mapKeys_putTargets: "set (mapKeys (putTargets p ts m)) = insert p (set (mapKeys m))"
  by (rule set_eqI) (simp add: mapKeys_get mapGet_putTargets)

lemma publishTargets_trace:
  "\<exists>rest. trace (publishTargets a r ps t0 ts) w =
     CStatusUpdateTargetRequest (publishedRequest (apiNow a (env w)) r ps t0 ts) # rest"
proof -
  let ?t = "publishedRequest (apiNow a (env w)) r ps t0 ts"
  let ?g = "\<lambda>u. case u of Inl e \<Rightarrow> ret (if isConflict e then (requeueNow, None) else (emptyResult, Some e))
     | Inr _ \<Rightarrow> cleanupAndReturn a r"
  have "only (\<lambda>_. True) (?g u)" for u
    unfolding cleanupAndReturn_def cleanupOldTargetRequests_def by (intro wp) simp_all
  from trace_call_bind[OF this] have run:
    "trace (call (CStatusUpdateTargetRequest ?t) (apiStatusUpdateTargetRequest a ?t) \<bind> ?g) w =
       CStatusUpdateTargetRequest ?t # trace (?g (fst (apiStatusUpdateTargetRequest a ?t (env w))))
         (w\<lparr>env := snd (apiStatusUpdateTargetRequest a ?t (env w)), calls := calls w @ [CStatusUpdateTargetRequest ?t]\<rparr>)" .
  have same: "trace (publishTargets a r ps t0 ts) w =
     trace (call (CStatusUpdateTargetRequest ?t) (apiStatusUpdateTargetRequest a ?t) \<bind> ?g) w"
    by (simp only: trace_def run_publishTargets)
  show ?thesis by (rule exI) (rule trans[OF same run])
qed

text \<open>Proxy mode that is on: where its addresses come from.\<close>

lemma proxy_url_somewhere: "yields (\<lambda>u. \<exists>w. outcome (getProxyURL a c) w = u) (getProxyURL a c)"
  by (auto simp: yields_def outcome_def)

lemma getProxyConfig_route:
  assumes "proxyOn a c (env w)"
  shows "case outcome (getProxyConfig a ns c) w of Inl e \<Rightarrow> True
       | Inr p \<Rightarrow> Enabled p \<and> (\<exists>v. outcome (getProxyURL a c) v = Inr (ProxyURL p))"
proof -
  have on: "outcome (isProxyModeEnabled a c) w" using assms by (simp add: outcome_def)
  let ?Q = "\<lambda>x. case x of Inl e \<Rightarrow> True | Inr p \<Rightarrow> Enabled p \<and> (\<exists>v. outcome (getProxyURL a c) v = Inr (ProxyURL p))"
  have "?Q (outcome (getProxyConfig a ns c) w)"
    unfolding getProxyConfig_def Let_def
    by (rule outcome_then[where R = "\<lambda>b. b", OF on], simp,
        (rule yields_bind[OF proxy_url_somewhere] | rule yield | force split: sum.split)+)
  then show ?thesis .
qed

end
