(* ===== verification/ProviderConfig.thy ===== *)
theory ProviderConfig
  imports TargetRequest
begin

text \<open>
  The reconciler of KrknOperatorTargetProviderConfig
  (\<^verbatim>\<open>internal/controller/krknoperatortargetproviderconfig_controller.go\<close>): the configuration
  form with one field per cluster for its secret and one for its proxy mode
  (\<^verbatim>\<open>buildConfigSchema\<close>), and \<^verbatim>\<open>Reconcile\<close>, which contributes the form to the shared
  configuration object.  \<^verbatim>\<open>InputField.MarshalJSON\<close> belongs to krknctl: the JSON value it writes
  is the parameter \<open>marshalField\<close>.
\<close>

datatype InputType = GroupType | EnumType

text \<open>\<^verbatim>\<open>typing.InputField\<close>, the fields the code sets; the first four are never nil.\<close>

record InputField =
  ifName :: string
  ifShortDescription :: string
  ifDescription :: string
  ifVariable :: string
  ifType :: InputType
  ifDefault :: "string option"
  ifSeparator :: "string option"
  ifAllowedValues :: "string option"
  ifRequired :: bool
  ifSecret :: bool
  ifGroup :: "string option"
  ifMutuallyExcludes :: "string option"

record KrknOperatorTargetProviderConfigReconciler =
  pcOperatorName :: string
  pcOperatorNamespace :: string

definition ACMIntegrationConfigMapName :: string where
  "ACMIntegrationConfigMapName = ''krkn-operator-acm-config''"

section \<open>Secrets of a cluster\<close>

definition hasRequiredKeys :: "string gomap \<Rightarrow> bool" where
  "hasRequiredKeys data =
     (let hasCert = (mapGet data ''ca.crt'' \<noteq> None); hasToken = (mapGet data ''token'' \<noteq> None)
      in hasCert \<and> hasToken)"

definition listSecretsInNamespace :: "'e api \<Rightarrow> string \<Rightarrow> ('e, err + string list) prog" where
  "listSecretsInNamespace a namespace = do {
     l \<leftarrow> List_Secrets a namespace;
     ret (case l of
       Inl e \<Rightarrow> Inl (ErrWrap ''failed to list secrets in namespace'' e)
     | Inr items \<Rightarrow> Inr (map secName (filter (\<lambda>secret. hasRequiredKeys (secData secret)) items)))
   }"

definition ProviderConfig_getManagedClusters :: "'e api \<Rightarrow> ('e, err + ManagedClusterList) prog" where
  "ProviderConfig_getManagedClusters a = do {
     l \<leftarrow> List_ManagedClusters a;
     ret (case l of
       Inl e \<Rightarrow> Inl (ErrWrap ''failed to list managed clusters'' e)
     | Inr clusterList \<Rightarrow>
         (case apiMarshalList a clusterList of
            Inl e \<Rightarrow> Inl (ErrWrap ''failed to marshal managed clusters'' e)
          | Inr text \<Rightarrow>
              (case jsonParse text of
                 None \<Rightarrow> Inl (ErrWrap ''failed to unmarshal managed clusters''
                           (ErrMsg ''json: syntax error''))
               | Some v \<Rightarrow>
                   (case decManagedClusterList v [] of
                      Inl e \<Rightarrow> Inl (ErrWrap ''failed to unmarshal managed clusters'' e)
                    | Inr cs \<Rightarrow> Inr cs))))
   }"

section \<open>The fields of the form\<close>

definition secretGroupName :: string where
  "secretGroupName = ''ACM_SECRET_GROUP''"

definition proxyGroupName :: string where
  "proxyGroupName = ''ACM_USE_PROXY_GROUP''"

definition groupField :: "string \<Rightarrow> string \<Rightarrow> string \<Rightarrow> InputField" where
  "groupField name shortDesc desc = \<lparr>ifName = name, ifShortDescription = shortDesc,
     ifDescription = desc, ifVariable = name, ifType = GroupType, ifDefault = None,
     ifSeparator = None, ifAllowedValues = None, ifRequired = False, ifSecret = False,
     ifGroup = None, ifMutuallyExcludes = None\<rparr>"

definition secretGroupField :: InputField where
  "secretGroupField = groupField secretGroupName ''ACM/OCM Secret Selection''
     ''Select secrets for direct API connection to managed clusters. Each secret contains the CA certificate and service account token for cluster authentication.''"

definition proxyGroupField :: InputField where
  "proxyGroupField = groupField proxyGroupName ''Cluster Proxy Configuration''
     ''Enable cluster proxy connection for managed clusters. Note: Activating proxy for a cluster overrides the secret selection and uses the cluster-proxy-addon for communication. To return to direct API access, disable the proxy for that cluster. Requires cluster-proxy-addon and ManifestWork to be deployed.''"

definition secretField :: "string \<Rightarrow> string list \<Rightarrow> string \<Rightarrow> InputField" where
  "secretField clusterName secrets defaultSecret = \<lparr>
     ifName = formatNamespaceToVarName clusterName,
     ifShortDescription = ''Secret for '' @ clusterName,
     ifDescription = ''Select the secret to use for cluster '' @ clusterName @
       '' authentication. Available secrets: '' @ Join secrets '', '',
     ifVariable = formatNamespaceToVarName clusterName,
     ifType = EnumType, ifDefault = Some defaultSecret, ifSeparator = Some '','',
     ifAllowedValues = Some (Join secrets '',''),
     ifRequired = True, ifSecret = False, ifGroup = Some secretGroupName,
     ifMutuallyExcludes = None\<rparr>"

definition proxyField :: "string \<Rightarrow> string \<Rightarrow> bool \<Rightarrow> InputField" where
  "proxyField clusterName proxyDefaultValue hasSecretField = \<lparr>
     ifName = formatProxyVarName clusterName,
     ifShortDescription = ''Proxy mode for '' @ clusterName,
     ifDescription = ''Enable cluster proxy connection for '' @ clusterName @
       '' instead of direct API access. Requires cluster-proxy-addon and ManifestWork '' @ [CHR 0x27] @
       ManifestWorkName @ [CHR 0x27] @ '' to be deployed.'',
     ifVariable = formatProxyVarName clusterName,
     ifType = EnumType, ifDefault = Some proxyDefaultValue, ifSeparator = Some '','',
     ifAllowedValues = Some ''true,false'',
     ifRequired = False, ifSecret = False, ifGroup = Some proxyGroupName,
     ifMutuallyExcludes = (if hasSecretField then Some (formatNamespaceToVarName clusterName) else None)\<rparr>"

text \<open>The loop over the clusters for the secret fields: the fields so far, the clusters that have one.\<close>

definition addSecretField :: "'e api \<Rightarrow> ManagedCluster \<Rightarrow> InputField list \<times> string list \<Rightarrow>
    ('e, InputField list \<times> string list) prog" where
  "addSecretField a cluster acc = (case acc of (fs, clustersWithSecrets) \<Rightarrow> do {
     let clusterName = mcName cluster;
     l \<leftarrow> listSecretsInNamespace a clusterName;
     case l of
       Inl e \<Rightarrow> ret (fs, clustersWithSecrets)
     | Inr secrets \<Rightarrow>
         if length secrets = 0 then ret (fs, clustersWithSecrets)
         else do {
           let secrets = sort secrets;
           defaultSecret \<leftarrow> getDefaultSecret a clusterName secrets;
           ret (fs @ [secretField clusterName secrets defaultSecret], clusterName # clustersWithSecrets)
         }
   })"

definition addProxyField :: "'e api \<Rightarrow> string list \<Rightarrow> ManagedCluster \<Rightarrow> ('e, InputField) prog" where
  "addProxyField a clustersWithSecrets cluster = do {
     let clusterName = mcName cluster;
     proxyDefaultValue \<leftarrow> getDefaultProxyMode a clusterName;
     ret (proxyField clusterName proxyDefaultValue (clusterName \<in> set clustersWithSecrets))
   }"

definition schemaFields :: "'e api \<Rightarrow> ManagedCluster list \<Rightarrow> ('e, InputField list) prog" where
  "schemaFields a managedClusters = do {
     (fs, clustersWithSecrets) \<leftarrow>
        foldM (addSecretField a) managedClusters ([secretGroupField, proxyGroupField], []);
     proxyFields \<leftarrow> mapM (addProxyField a clustersWithSecrets) managedClusters;
     ret (fs @ proxyFields)
   }"

definition buildConfigSchema :: "(InputField \<Rightarrow> err + json) \<Rightarrow> 'e api \<Rightarrow> ('e, err + string) prog" where
  "buildConfigSchema marshalField a = do {
     m \<leftarrow> ProviderConfig_getManagedClusters a;
     case m of
       Inl e \<Rightarrow> ret (Inl (ErrWrap ''failed to get managed clusters'' e))
     | Inr managedClusters \<Rightarrow> do {
         fs \<leftarrow> schemaFields a managedClusters;
         ret (case mapE marshalField fs of
           Inl e \<Rightarrow> Inl (ErrWrap ''failed to marshal field'' e)
         | Inr jsonFields \<Rightarrow> Inr (jsonPrint (JArr jsonFields)))
       }
   }"

section \<open>Reconcile\<close>

definition getConfigDataKeys :: "ProviderConfigData gomap \<Rightarrow> string list" where
  "getConfigDataKeys m = mapKeys m"

definition initializeConfigStatus ::
    "'e api \<Rightarrow> KrknOperatorTargetProviderConfig \<Rightarrow> ('e, reconcileResult) prog" where
  "initializeConfigStatus a config = do {
     now \<leftarrow> Now a;
     u \<leftarrow> StatusUpdate_ProviderConfig a (config\<lparr>pcStatus := StatusPending, pcCreated := Some now\<rparr>);
     ret (case u of
       Inl e \<Rightarrow> if isConflict e then (requeueNow, None) else (emptyResult, Some e)
     | Inr _ \<Rightarrow> (emptyResult, None))
   }"

definition initializeConfig ::
    "'e api \<Rightarrow> KrknOperatorTargetProviderConfig \<Rightarrow> ('e, reconcileResult) prog" where
  "initializeConfig a config =
     (let labels = (case pcLabels config of None \<Rightarrow> [] | Some al \<Rightarrow> al) in
      if mapGet (Some labels) uuidLabel = None then do {
        u \<leftarrow> Update_ProviderConfig a
               (config\<lparr>pcLabels := Some (AList.update uuidLabel (pcUUID config) labels)\<rparr>);
        case u of
          Inl e \<Rightarrow> ret (if isConflict e then (requeueNow, None) else (emptyResult, Some e))
        | Inr updated \<Rightarrow> initializeConfigStatus a updated
      }
      else initializeConfigStatus a (config\<lparr>pcLabels := Some labels\<rparr>))"

text \<open>Counting the contributions of the object read back, and completing it.\<close>

definition finishConfig :: "'e api \<Rightarrow> KrknOperatorTargetProviderConfigReconciler \<Rightarrow>
    KrknOperatorTargetProvider list \<Rightarrow> KrknOperatorTargetProviderConfig \<Rightarrow>
    ('e, reconcileResult) prog" where
  "finishConfig a r providerList updatedConfig = do {
     let activeProviderCount = countActiveProviders providerList;
     let contributorCount = mapLen (pcConfigData updatedConfig);
     completedTime \<leftarrow> Now a;
     let updatedConfig = (if shouldMarkAsCompleted activeProviderCount contributorCount
           then updatedConfig\<lparr>pcStatus := StatusCompleted, pcCompleted := Some completedTime\<rparr>
           else updatedConfig);
     u \<leftarrow> StatusUpdate_ProviderConfig a updatedConfig;
     case u of
       Inl e \<Rightarrow> ret (if isConflict e then (requeueNow, None) else (emptyResult, Some e))
     | Inr _ \<Rightarrow> do {
         d \<leftarrow> Cleanup_ProviderConfigs a (pcOperatorNamespace r) CleanupThresholdSeconds;
         ret (emptyResult, None)
       }
   }"

definition contributeConfig :: "(InputField \<Rightarrow> err + json) \<Rightarrow> 'e api \<Rightarrow>
    KrknOperatorTargetProviderConfigReconciler \<Rightarrow> nsname \<Rightarrow> KrknOperatorTargetProvider list \<Rightarrow>
    ('e, reconcileResult) prog" where
  "contributeConfig marshalField a r req providerList = do {
     s \<leftarrow> buildConfigSchema marshalField a;
     case s of
       Inl e \<Rightarrow> ret (emptyResult, Some e)
     | Inr jsonSchema \<Rightarrow> do {
         f \<leftarrow> Get_ProviderConfig a req;
         case f of
           Inl e \<Rightarrow> ret (emptyResult, Some e)
         | Inr freshConfig \<Rightarrow> do {
             c \<leftarrow> Contribute_ProviderConfig a freshConfig (pcOperatorName r)
                    ACMIntegrationConfigMapName (pcOperatorNamespace r) jsonSchema;
             case c of
               Some e \<Rightarrow> ret (if isConflict e then (requeueNow, None) else (emptyResult, Some e))
             | None \<Rightarrow> do {
                 u \<leftarrow> Get_ProviderConfig a req;
                 case u of
                   Inl e \<Rightarrow> ret (emptyResult, Some e)
                 | Inr updatedConfig \<Rightarrow> finishConfig a r providerList updatedConfig
               }
           }
       }
   }"

definition processConfig :: "(InputField \<Rightarrow> err + json) \<Rightarrow> 'e api \<Rightarrow>
    KrknOperatorTargetProviderConfigReconciler \<Rightarrow> nsname \<Rightarrow> ('e, reconcileResult) prog" where
  "processConfig marshalField a r req = do {
     (providerList, shouldSkip, result, err) \<leftarrow>
        checkProviderActive a (pcOperatorName r) (pcOperatorNamespace r);
     case err of
       Some e \<Rightarrow> ret (result, Some e)
     | None \<Rightarrow>
         if shouldSkip then ret (result, None)
         else contributeConfig marshalField a r req
                (case providerList of None \<Rightarrow> [] | Some ps \<Rightarrow> ps)
   }"

definition ProviderConfig_Reconcile :: "(InputField \<Rightarrow> err + json) \<Rightarrow> 'e api \<Rightarrow>
    KrknOperatorTargetProviderConfigReconciler \<Rightarrow> nsname \<Rightarrow> ('e, reconcileResult) prog" where
  "ProviderConfig_Reconcile marshalField a r req = do {
     g \<leftarrow> Get_ProviderConfig a req;
     case g of
       Inl e \<Rightarrow> ret (emptyResult, if isNotFound e then None else Some e)
     | Inr config \<Rightarrow>
         if pcStatus config = [] then initializeConfig a config
         else if pcStatus config = StatusCompleted then ret (emptyResult, None)
         else if pcStatus config \<noteq> StatusPending then ret (emptyResult, None)
         else processConfig marshalField a r req
   }"

section \<open>Facts: the form\<close>

lemma ProviderConfig_getManagedClusters_eq: "ProviderConfig_getManagedClusters a = getManagedClusters a"
  by (simp only: ProviderConfig_getManagedClusters_def getManagedClusters_def)

lemma getDefaultSecret_member: "ss \<noteq> [] \<Longrightarrow> yields (\<lambda>d. d \<in> set ss) (getDefaultSecret a c ss)"
  by (auto simp: yields_def run_getDefaultSecret[unfolded outcome_def] split: option.split)

lemma group_names [simp]: "secretGroupName \<noteq> proxyGroupName" "proxyGroupName \<noteq> secretGroupName"
  by (simp_all add: secretGroupName_def proxyGroupName_def)

lemma field_groups [simp]:
  "ifGroup secretGroupField = None" "ifGroup proxyGroupField = None"
  "ifGroup (secretField n ss d) = Some secretGroupName" "ifGroup (proxyField n d b) = Some proxyGroupName"
  by (simp_all add: secretGroupField_def proxyGroupField_def groupField_def secretField_def proxyField_def)

lemma field_variables [simp]:
  "ifVariable secretGroupField = secretGroupName" "ifVariable proxyGroupField = proxyGroupName"
  "ifVariable (secretField n ss d) = formatNamespaceToVarName n"
  "ifVariable (proxyField n d b) = formatProxyVarName n"
  by (simp_all add: secretGroupField_def proxyGroupField_def groupField_def secretField_def proxyField_def)

text \<open>The secret fields: one per cluster that has usable secrets, in order.\<close>

definition secretFields :: "(string \<times> string list \<times> string) list \<Rightarrow> InputField list" where
  "secretFields entries = map (\<lambda>(n, ss, d). secretField n ss d) entries"

lemma secretFields_facts:
  "map ifVariable (secretFields entries) = map formatNamespaceToVarName (map fst entries)"
  "filter (\<lambda>f. ifGroup f = Some proxyGroupName) (secretFields entries) = []"
  by (induction entries) (auto simp: secretFields_def)

lemma proxyFields_facts:
  assumes "length ds = length cs"
  shows "map ifVariable (map (\<lambda>(c, d). proxyField (mcName c) d (g c)) (zip cs ds)) = map (\<lambda>c. formatProxyVarName (mcName c)) cs"
    and "filter (\<lambda>f. ifGroup f = Some proxyGroupName) (map (\<lambda>(c, d). proxyField (mcName c) d (g c)) (zip cs ds))
      = map (\<lambda>(c, d). proxyField (mcName c) d (g c)) (zip cs ds)"
  using assms by (induction ds cs rule: list_induct2) simp_all

definition secretInv :: "ManagedCluster list \<Rightarrow> InputField list \<times> string list \<Rightarrow> bool" where
  "secretInv before acc = (\<exists>entries. fst acc = [secretGroupField, proxyGroupField] @ secretFields entries
     \<and> set (snd acc) = fst ` set entries \<and> fst ` set entries \<subseteq> mcName ` set before
     \<and> (distinct (map mcName before) \<longrightarrow> distinct (map fst entries))
     \<and> list_all (\<lambda>(n, ss, d). d \<in> set ss) entries)"

lemma secretInv_skip: "secretInv before acc \<Longrightarrow> secretInv (before @ [c]) acc"
  unfolding secretInv_def by (elim exE) (intro exI, auto)

lemma secretInv_add:
  assumes "secretInv before (fs, withSecrets)" "d \<in> set ss"
  shows "secretInv (before @ [c]) (fs @ [secretField (mcName c) ss d], mcName c # withSecrets)"
proof -
  from assms(1) obtain entries where e: "fs = [secretGroupField, proxyGroupField] @ secretFields entries"
    "set withSecrets = fst ` set entries" "fst ` set entries \<subseteq> mcName ` set before"
    "distinct (map mcName before) \<longrightarrow> distinct (map fst entries)" "list_all (\<lambda>(n, ss, d). d \<in> set ss) entries"
    by (auto simp: secretInv_def)
  then show ?thesis
    unfolding secretInv_def using assms(2)
    by (intro exI[of _ "entries @ [(mcName c, ss, d)]"]) (auto simp: secretFields_def)
qed

lemma addSecretField_inv:
  assumes "secretInv before acc"
  shows "yields (secretInv (before @ [c])) (addSecretField a c acc)"
proof -
  obtain fs ws where acc: "acc = (fs, ws)" by (cases acc)
  have pick: "yields (secretInv (before @ [c])) (getDefaultSecret a (mcName c) (sort ss) \<bind>
      (\<lambda>d. ret (fs @ [secretField (mcName c) (sort ss) d], mcName c # ws)))" if "length ss \<noteq> 0" for ss
  proof (rule yields_bind[OF getDefaultSecret_member])
    show "sort ss \<noteq> []" using that by (metis length_0_conv length_sort)
    show "yields (secretInv (before @ [c])) (ret (fs @ [secretField (mcName c) (sort ss) d], mcName c # ws))"
      if "d \<in> set (sort ss)" for d
      using that assms acc by (intro yields_ret secretInv_add) simp_all
  qed
  show ?thesis
    using assms unfolding addSecretField_def acc prod.case Let_def
    by (intro yields_bind_any yields_sum yields_if yields_ret secretInv_skip pick)
qed

lemma schemaFields_shape:
  "yields (\<lambda>fs. \<exists>entries defaults. fs = [secretGroupField, proxyGroupField] @ secretFields entries
       @ map (\<lambda>(c, d). proxyField (mcName c) d (mcName c \<in> fst ` set entries)) (zip cs defaults)
     \<and> length defaults = length cs \<and> list_all (\<lambda>d. d = ''true'' \<or> d = ''false'') defaults
     \<and> fst ` set entries \<subseteq> mcName ` set cs \<and> (distinct (map mcName cs) \<longrightarrow> distinct (map fst entries))
     \<and> list_all (\<lambda>(n, ss, d). d \<in> set ss) entries) (schemaFields a cs)" (is "yields ?Q _")
proof -
  have "yields (secretInv ([] @ cs)) (foldM (addSecretField a) cs ([secretGroupField, proxyGroupField], []))"
    by (rule yields_foldM, rule addSecretField_inv) (auto simp: secretInv_def secretFields_def)
  then have secrets: "yields (secretInv cs) (foldM (addSecretField a) cs ([secretGroupField, proxyGroupField], []))"
    by simp
  have proxy: "yields (\<lambda>f. \<exists>d. (d = ''true'' \<or> d = ''false'') \<and> f = proxyField (mcName c) d (mcName c \<in> set ws))
      (addProxyField a ws c)" for c ws
    by (auto simp: yields_def addProxyField_def getDefaultProxyMode_def Let_def split: option.split)
  show ?thesis
    unfolding schemaFields_def
  proof (rule yields_bind[OF secrets])
    fix acc assume inv: "secretInv cs acc"
    obtain fs ws where acc: "acc = (fs, ws)" by (cases acc)
    show "yields ?Q (case acc of (fs, ws) \<Rightarrow> mapM (addProxyField a ws) cs \<bind> (\<lambda>ps. ret (fs @ ps)))"
      unfolding acc prod.case
    proof (rule yields_bind[OF yields_mapM[OF proxy]], rule yields_ret)
      fix ps
      assume ps: "list_all2 (\<lambda>c f. \<exists>d. (d = ''true'' \<or> d = ''false'') \<and>
          f = proxyField (mcName c) d (mcName c \<in> set ws)) cs ps"
      then have "\<exists>ds. length ds = length cs \<and> list_all (\<lambda>d. d = ''true'' \<or> d = ''false'') ds \<and>
          ps = map (\<lambda>(c, d). proxyField (mcName c) d (mcName c \<in> set ws)) (zip cs ds)"
      proof (induction rule: list_all2_induct)
        case (Cons c cs f fs)
        then obtain d ds where "d = ''true'' \<or> d = ''false''" "f = proxyField (mcName c) d (mcName c \<in> set ws)"
          "length ds = length cs" "list_all (\<lambda>d. d = ''true'' \<or> d = ''false'') ds"
          "fs = map (\<lambda>(c, d). proxyField (mcName c) d (mcName c \<in> set ws)) (zip cs ds)" by blast
        then show ?case by (intro exI[of _ "d # ds"]) simp
      qed simp
      then obtain ds where ds: "length ds = length cs" "list_all (\<lambda>d. d = ''true'' \<or> d = ''false'') ds"
        "ps = map (\<lambda>(c, d). proxyField (mcName c) d (mcName c \<in> set ws)) (zip cs ds)" by blast
      from inv obtain entries where e: "fs = [secretGroupField, proxyGroupField] @ secretFields entries"
        "set ws = fst ` set entries" "fst ` set entries \<subseteq> mcName ` set cs"
        "distinct (map mcName cs) \<longrightarrow> distinct (map fst entries)" "list_all (\<lambda>(n, ss, d). d \<in> set ss) entries"
        by (auto simp: secretInv_def acc)
      show "?Q (fs @ ps)"
        by (rule exI[of _ entries], rule exI[of _ ds]) (use ds e in \<open>simp add: secretFields_def\<close>)
    qed
  qed
qed

section \<open>Facts: calls and results\<close>

lemma only_schemaFields: "(\<And>c. \<not> writes c \<Longrightarrow> P c) \<Longrightarrow> only P (schemaFields a cs)"
proof -
  assume reads: "\<And>c. \<not> writes c \<Longrightarrow> P c"
  have "only P (addSecretField a c acc)" for c acc
    unfolding addSecretField_def listSecretsInNamespace_def Let_def by (intro wp reads) simp
  moreover have "only P (addProxyField a ws c)" for ws c
    unfolding addProxyField_def Let_def by (intro wp)
  ultimately show ?thesis unfolding schemaFields_def by (intro wp)
qed

lemma only_buildConfigSchema: "(\<And>c. \<not> writes c \<Longrightarrow> P c) \<Longrightarrow> only P (buildConfigSchema mf a)"
  unfolding buildConfigSchema_def ProviderConfig_getManagedClusters_eq
  by (intro wp only_schemaFields) auto

text \<open>What may be written to a configuration object \<open>c0\<close> and around it.\<close>

fun configWrite :: "KrknOperatorTargetProviderConfigReconciler \<Rightarrow> KrknOperatorTargetProviderConfig \<Rightarrow>
    apiCall \<Rightarrow> bool" where
  "configWrite r c0 (CUpdateProviderConfigObject c) =
     (pcStatus c0 = [] \<and> c = c0\<lparr>pcLabels := pcLabels c\<rparr>
      \<and> mapGet (pcLabels c) = (mapGet (pcLabels c0))(uuidLabel \<mapsto> pcUUID c0)
      \<and> mapGet (pcLabels c0) uuidLabel = None)"
| "configWrite r c0 (CStatusUpdateProviderConfig c) =
     (if pcStatus c0 = [] then pcStatus c = StatusPending \<and> pcCreated c \<noteq> None
      else pcStatus c0 = StatusPending)"
| "configWrite r c0 (CContributeProviderConfig c oper cm ns schema) =
     (pcStatus c0 = StatusPending \<and> oper = pcOperatorName r \<and> cm = ACMIntegrationConfigMapName
      \<and> ns = pcOperatorNamespace r)"
| "configWrite r c0 (CCleanupProviderConfigs ns s) =
     (pcStatus c0 = StatusPending \<and> ns = pcOperatorNamespace r \<and> s = CleanupThresholdSeconds)"
| "configWrite r c0 c = (\<not> writes c)"

lemma configWrite_read: "\<not> writes c \<Longrightarrow> configWrite r c0 c"
  by (cases c) simp_all

lemma only_initializeConfig:
  assumes "pcStatus c0 = []"
  shows "only (configWrite r c0) (initializeConfig a c0)"
  unfolding initializeConfig_def initializeConfigStatus_def Let_def
  using assms by (intro wp) (auto simp: mapGet_def update_conv' fun_eq_iff split: option.split)

lemma only_processConfig:
  assumes "pcStatus c0 = StatusPending"
  shows "only (configWrite r c0) (processConfig mf a r req)"
  unfolding processConfig_def contributeConfig_def finishConfig_def Let_def
  using assms by (intro wp only_buildConfigSchema[OF configWrite_read]) simp_all

lemma decides_processConfig:
  "yields (\<lambda>res. fst res = emptyResult \<or> (fst res = requeueNow \<and> snd res = None)) (processConfig mf a r req)"
  unfolding processConfig_def
proof (rule yields_bind[OF yields_checkProviderActive])
  fix x :: "KrknOperatorTargetProvider list option \<times> bool \<times> Result \<times> err option"
  assume "case x of (ps, skip, res, e) \<Rightarrow> res = emptyResult \<and> (e = None \<longrightarrow> ps \<noteq> None)"
  then obtain ps skip e where x: "x = (ps, skip, emptyResult, e)" by (cases x) auto
  show "yields (\<lambda>res. fst res = emptyResult \<or> (fst res = requeueNow \<and> snd res = None))
     (case x of (providerList, shouldSkip, result, err) \<Rightarrow>
       (case err of Some e \<Rightarrow> ret (result, Some e)
        | None \<Rightarrow>
         if shouldSkip then ret (result, None)
         else contributeConfig mf a r req (case providerList of None \<Rightarrow> [] | Some ps \<Rightarrow> ps)))"
    unfolding x prod.case contributeConfig_def finishConfig_def Let_def by (intro yield) simp_all
qed

interpretation provider_config: reconciler "ProviderConfig_Reconcile mf a r" for mf and a :: "'e api" and r
  by unfold_locales (auto simp: ProviderConfig_Reconcile_def initializeConfig_def initializeConfigStatus_def
      Let_def intro!: yield decides_processConfig split: sum.split if_split_asm)

section \<open>Properties\<close>

text \<open>A field refers only to what the form contains, and its default is one of its choices.\<close>

definition fieldOk :: "InputField list \<Rightarrow> InputField \<Rightarrow> bool" where
  "fieldOk fs f =
     ((case ifMutuallyExcludes f of None \<Rightarrow> True
       | Some v \<Rightarrow> list_ex (\<lambda>g. ifVariable g = v \<and> ifGroup g = Some secretGroupName) fs)
      \<and> (case ifGroup f of None \<Rightarrow> ifType f = GroupType
         | Some n \<Rightarrow> list_ex (\<lambda>g. ifType g = GroupType \<and> ifName g = n) fs)
      \<and> (case ifDefault f of None \<Rightarrow> ifType f = GroupType
         | Some d \<Rightarrow> (\<exists>ss. ifAllowedValues f = Some (Join ss '','') \<and> d \<in> set ss)))"

text \<open>
  C30. The form is consistent: whatever the clusters, their secrets and the settings, every field
  of it refers only to fields it contains (a proxy switch excludes a secret field only if that
  one is there, every group exists), every default is one of the allowed values, and there is
  exactly one proxy switch per managed cluster, in the order of the list.
\<close>

theorem schema_fields_consistent:
  "let fs = outcome (schemaFields a cs) w
   in list_all (fieldOk fs) fs
      \<and> map ifVariable (filter (\<lambda>f. ifGroup f = Some proxyGroupName) fs) = map (\<lambda>c. formatProxyVarName (mcName c)) cs"
proof -
  from yields_outcome[OF schemaFields_shape, of a cs w] obtain entries ds where
    fs: "outcome (schemaFields a cs) w = [secretGroupField, proxyGroupField] @ secretFields entries
       @ map (\<lambda>(c, d). proxyField (mcName c) d (mcName c \<in> fst ` set entries)) (zip cs ds)"
    and len: "length ds = length cs" and ds: "list_all (\<lambda>d. d = ''true'' \<or> d = ''false'') ds"
    and es: "list_all (\<lambda>(n, ss, d). d \<in> set ss) entries" by blast
  let ?fs = "outcome (schemaFields a cs) w"
  have "secretGroupField \<in> set ?fs" "proxyGroupField \<in> set ?fs" using fs by simp_all
  moreover have "ifType secretGroupField = GroupType \<and> ifName secretGroupField = secretGroupName"
    "ifType proxyGroupField = GroupType \<and> ifName proxyGroupField = proxyGroupName"
    by (simp_all add: secretGroupField_def proxyGroupField_def groupField_def)
  ultimately have groups: "list_ex (\<lambda>g. ifType g = GroupType \<and> ifName g = secretGroupName) ?fs"
    "list_ex (\<lambda>g. ifType g = GroupType \<and> ifName g = proxyGroupName) ?fs"
    unfolding list_ex_iff by blast+
  have tf: "''true,false'' = Join [''true'', ''false''] '',''" by code_simp
  have "fieldOk ?fs (secretField n ss d)" if "(n, ss, d) \<in> set entries" for n ss d
    using that es groups(1) by (auto simp: fieldOk_def secretField_def list_all_iff)
  moreover have "fieldOk ?fs (proxyField (mcName c) d (mcName c \<in> fst ` set entries))" if "(c, d) \<in> set (zip cs ds)" for c d
  proof -
    have "d = ''true'' \<or> d = ''false''" using that ds by (auto simp: list_all_iff dest: set_zip_rightD)
    then have allowed: "\<exists>ss. ''true,false'' = Join ss '','' \<and> d \<in> set ss" using tf by fastforce
    have "list_ex (\<lambda>g. ifVariable g = formatNamespaceToVarName (mcName c) \<and> ifGroup g = Some secretGroupName) ?fs"
      if "mcName c \<in> fst ` set entries"
    proof -
      from that obtain ss d' where "(mcName c, ss, d') \<in> set entries" by auto
      then have "secretField (mcName c) ss d' \<in> set ?fs" by (force simp: fs secretFields_def)
      then show ?thesis by (auto simp: list_ex_iff secretField_def intro!: bexI)
    qed
    with allowed groups(2) show ?thesis by (auto simp: fieldOk_def proxyField_def)
  qed
  moreover have "fieldOk ?fs secretGroupField" "fieldOk ?fs proxyGroupField"
    by (simp_all add: fieldOk_def secretGroupField_def proxyGroupField_def groupField_def)
  ultimately have "\<forall>f \<in> set ?fs. fieldOk ?fs f" by (subst fs) (auto simp: secretFields_def)
  moreover have "map ifVariable (filter (\<lambda>f. ifGroup f = Some proxyGroupName) ?fs) =
      map (\<lambda>c. formatProxyVarName (mcName c)) cs"
    by (subst fs) (simp add: secretFields_facts proxyFields_facts[OF len] del: map_map)
  ultimately show ?thesis by (simp add: Let_def list_all_iff)
qed

text \<open>
  C31. No two fields of the form share a variable: when the managed clusters have different names
  made of DNS characters, and none of them is called \<^verbatim>\<open>group\<close>, all variables of the form are
  different, so that each answer reaches the setting it was given for.
\<close>

theorem schema_variables_distinct:
  assumes "distinct (map mcName cs)" "list_all (\<lambda>c. dnsName (mcName c)) cs" "''group'' \<notin> mcName ` set cs"
  shows "distinct (map ifVariable (outcome (schemaFields a cs) w))"
proof -
  from yields_outcome[OF schemaFields_shape, of a cs w] obtain entries ds where
    fs: "outcome (schemaFields a cs) w = [secretGroupField, proxyGroupField] @ secretFields entries
       @ map (\<lambda>(c, d). proxyField (mcName c) d (mcName c \<in> fst ` set entries)) (zip cs ds)"
    and len: "length ds = length cs" and sub: "fst ` set entries \<subseteq> mcName ` set cs"
    and dist: "distinct (map fst entries)" using assms(1) by blast
  have dns: "dnsName n" if "n \<in> mcName ` set cs" for n using that assms(2) by (auto simp: list_all_iff)
  have gdns: "dnsName ''group''" by code_simp
  have gvar: "formatNamespaceToVarName ''group'' = secretGroupName" "formatProxyVarName ''group'' = proxyGroupName"
    by (simp_all only: secretGroupName_def proxyGroupName_def) code_simp+
  have vars: "map ifVariable (outcome (schemaFields a cs) w) = [secretGroupName, proxyGroupName]
      @ map formatNamespaceToVarName (map fst entries) @ map formatProxyVarName (map mcName cs)"
    by (subst fs) (simp add: secretFields_facts proxyFields_facts[OF len] del: map_map, simp add: comp_def)
  have names: "dnsName n" if "n \<in> set (map fst entries)" for n using that sub dns by (simp add: subset_iff)
  have inj1: "inj_on formatNamespaceToVarName (set (map fst entries))"
    by (rule inj_onI) (rule secret_var.varName_inj[OF names names])
  have inj2: "inj_on formatProxyVarName (set (map mcName cs))"
    by (rule inj_onI) (rule proxy_var.varName_inj[OF dns dns], simp_all)
  have g1: "secretGroupName \<noteq> formatNamespaceToVarName n" "proxyGroupName \<noteq> formatProxyVarName n"
    if "n \<in> mcName ` set cs" for n
    using that secret_var.varName_inj[OF gdns dns[OF that]] proxy_var.varName_inj[OF gdns dns[OF that]] gvar assms(3)
    by auto
  have g2: "secretGroupName \<noteq> formatProxyVarName n" "formatNamespaceToVarName n \<noteq> proxyGroupName" for n
    using cluster_vars.families_disjoint[of "''group''" n] cluster_vars.families_disjoint[of n "''group''"] gvar
    by simp_all
  have g3: "formatNamespaceToVarName n \<noteq> formatProxyVarName m" for n m
    by (rule cluster_vars.families_disjoint)
  have "distinct (map formatNamespaceToVarName (map fst entries))" "distinct (map formatProxyVarName (map mcName cs))"
    using dist inj1 inj2 assms(1) by (simp_all only: distinct_map)
  moreover have "secretGroupName \<notin> set (map formatNamespaceToVarName (map fst entries))"
    "proxyGroupName \<notin> set (map formatProxyVarName (map mcName cs))"
    using g1 sub by (auto simp: subset_iff)
  moreover have "secretGroupName \<notin> set (map formatProxyVarName (map mcName cs))"
    "proxyGroupName \<notin> set (map formatNamespaceToVarName (map fst entries))"
    using g2 by (auto simp: eq_commute[of proxyGroupName])
  moreover have "set (map formatNamespaceToVarName (map fst entries)) \<inter> set (map formatProxyVarName (map mcName cs)) = {}"
    using g3 by auto
  ultimately show ?thesis unfolding vars distinct_append by simp
qed

definition formCluster :: cluster where
  "formCluster = emptyCluster\<lparr>kSecrets := [((''prod-eu'', ''application-manager''),
     \<lparr>secName = ''application-manager'', secNamespace = ''prod-eu'', secResourceVersion = ''1'', secOwners = [],
      secData = Some [(''ca.crt'', ''CA''), (''token'', ''tok'')]\<rparr>)]\<rparr>"

theorem schema_variables_distinct_witness:
  "distinct (map ifVariable (outcome (schemaFields refApi [exampleCluster ''prod-eu'' ''True'', exampleCluster ''prod-us'' ''True''])
     (inCluster formCluster)))"
proof -
  have "dnsName ''prod-eu''" "dnsName ''prod-us''" by code_simp+
  then show ?thesis by (intro schema_variables_distinct) (simp_all add: exampleCluster_def)
qed

text \<open>
  A cluster called \<^verbatim>\<open>group\<close> breaks the form: the variables of its fields are those of the two
  group headings.
\<close>

theorem cluster_named_group_collides:
  "\<not> distinct (map ifVariable (outcome (schemaFields a [exampleCluster ''group'' ''True'']) w))"
proof -
  let ?cs = "[exampleCluster ''group'' ''True'']"
  from yields_outcome[OF schemaFields_shape, of a ?cs w] obtain entries ds where
    fs: "outcome (schemaFields a ?cs) w = [secretGroupField, proxyGroupField] @ secretFields entries
       @ map (\<lambda>(c, d). proxyField (mcName c) d (mcName c \<in> fst ` set entries)) (zip ?cs ds)"
    and "length ds = length ?cs" by blast
  then obtain d where ds: "ds = [d]" by (cases ds) auto
  have "formatProxyVarName ''group'' = proxyGroupName" unfolding proxyGroupName_def by code_simp
  then show ?thesis unfolding fs ds by (simp add: exampleCluster_def)
qed

text \<open>
  C32. What a reconciliation of a configuration object may write, whatever the API answers: on an
  object without status it adds the UUID label if missing and sets the status to pending with a
  creation time; on a pending one it contributes under this operator's name, for its own
  ConfigMap and namespace only, updates the status and cleans up its own namespace; on any other
  status it writes nothing.
\<close>

theorem config_writes:
  assumes "fst (apiGetProviderConfig a req (env w)) = Inr c0"
  shows "list_all (configWrite r c0) (trace (ProviderConfig_Reconcile mf a r req) w)"
proof -
  have "only (configWrite r c0) (if pcStatus c0 = [] then initializeConfig a c0
         else if pcStatus c0 = StatusCompleted then ret (emptyResult, None)
         else if pcStatus c0 \<noteq> StatusPending then ret (emptyResult, None)
         else processConfig mf a r req)"
    by (auto intro: only_initializeConfig only_processConfig)
  then show ?thesis
    unfolding ProviderConfig_Reconcile_def
    by (intro list_all_call_bind, simp, simp only: assms sum.case)
qed

definition exampleConfig :: KrknOperatorTargetProviderConfig where
  "exampleConfig = \<lparr>pcName = ''conf'', pcNamespace = ''krkn'', pcResourceVersion = ''1'', pcLabels = None,
     pcUUID = ''uuid-2'', pcStatus = ''pending'', pcConfigData = None, pcCreated = Some 0, pcCompleted = None\<rparr>"

definition exampleConfigReconciler :: KrknOperatorTargetProviderConfigReconciler where
  "exampleConfigReconciler = \<lparr>pcOperatorName = ''acm'', pcOperatorNamespace = ''krkn''\<rparr>"

definition marshalName :: "InputField \<Rightarrow> err + json" where
  "marshalName f = Inr (JObj [(''name'', JStr (ifName f))])"

theorem config_writes_witness:
  "list_all (configWrite exampleConfigReconciler exampleConfig)
     (trace (ProviderConfig_Reconcile marshalName refApi exampleConfigReconciler (''krkn'', ''conf''))
       (inCluster (emptyCluster\<lparr>kConfigs := [((''krkn'', ''conf''), exampleConfig)]\<rparr>)))"
proof -
  have "fst (apiGetProviderConfig refApi (''krkn'', ''conf'')
      (env (inCluster (emptyCluster\<lparr>kConfigs := [((''krkn'', ''conf''), exampleConfig)]\<rparr>)))) = Inr exampleConfig"
    by (simp add: lookupOr_def)
  from config_writes[OF this] show ?thesis .
qed

text \<open>
  The configuration is completed on what was read back: after contributing, the status update
  carries the object read back with its status unchanged or Completed, and Completed exactly when
  every active provider's contribution is in it (the active providers having different names and
  no other provider having contributed); a failing cleanup afterwards never fails the
  reconciliation.
\<close>

theorem config_completes_by_readback:
  assumes "mapWf (pcConfigData c)" "distinct (activeNames ps)" "set (mapKeys (pcConfigData c)) \<subseteq> set (activeNames ps)"
    and "apiStatusUpdateProviderConfig a (if allActiveContributed ps (pcConfigData c)
           then c\<lparr>pcStatus := StatusCompleted, pcCompleted := Some (apiNow a (env w))\<rparr> else c) (env w) = (Inr c', k)"
  shows "trace (finishConfig a r ps c) w =
       [CStatusUpdateProviderConfig (if allActiveContributed ps (pcConfigData c)
           then c\<lparr>pcStatus := StatusCompleted, pcCompleted := Some (apiNow a (env w))\<rparr> else c),
        CCleanupProviderConfigs (pcOperatorNamespace r) 3600]
     \<and> outcome (finishConfig a r ps c) w = (emptyResult, None)"
proof -
  have "shouldMarkAsCompleted (countActiveProviders ps) (mapLen (pcConfigData c)) \<longleftrightarrow>
      allActiveContributed ps (pcConfigData c)"
    using shouldMark_complete[OF assms(1,2)] shouldMark_sound[OF assms(1-3)] by blast
  with assms(4) show ?thesis
    by (simp add: finishConfig_def Let_def trace_def outcome_def CleanupThresholdSeconds_def)
qed

theorem config_completes_by_readback_witness:
  "let c = exampleConfig\<lparr>pcConfigData := Some [(''acm'', ''schema'')]\<rparr>;
       ps = [\<lparr>pvName = ''acm'', pvNamespace = ''krkn'', pvOperatorName = ''acm'', pvActive = True\<rparr>];
       k = emptyCluster\<lparr>kConfigs := [((''krkn'', ''conf''), c)], kClock := 7\<rparr>
   in trace (finishConfig refApi exampleConfigReconciler ps c) (inCluster k) =
        [CStatusUpdateProviderConfig (c\<lparr>pcStatus := ''Completed'', pcCompleted := Some 7\<rparr>),
         CCleanupProviderConfigs ''krkn'' 3600]"
proof -
  let ?c = "exampleConfig\<lparr>pcConfigData := Some [(''acm'', ''schema'')]\<rparr>"
  let ?ps = "[\<lparr>pvName = ''acm'', pvNamespace = ''krkn'', pvOperatorName = ''acm'', pvActive = True\<rparr>]"
  let ?k = "emptyCluster\<lparr>kConfigs := [((''krkn'', ''conf''), ?c)], kClock := 7\<rparr>"
  let ?n = "?c\<lparr>pcStatus := StatusCompleted, pcCompleted := Some 7\<rparr>"
  have all: "allActiveContributed ?ps (pcConfigData ?c)"
    by (simp add: allActiveContributed_def activeNames_def mapGet_def)
  have hyps: "mapWf (pcConfigData ?c)" "distinct (activeNames ?ps)"
    "set (mapKeys (pcConfigData ?c)) \<subseteq> set (activeNames ?ps)"
    by (simp_all add: mapWf_def mapKeys_def activeNames_def)
  obtain c' k' where "apiStatusUpdateProviderConfig refApi ?n ?k = (Inr c', k')"
    by (simp add: refUpdateConfig_def Let_def exampleConfig_def)
  then have "apiStatusUpdateProviderConfig refApi (if allActiveContributed ?ps (pcConfigData ?c)
      then ?c\<lparr>pcStatus := StatusCompleted, pcCompleted := Some (apiNow refApi (env (inCluster ?k)))\<rparr> else ?c)
      (env (inCluster ?k)) = (Inr c', k')"
    using all by simp
  from config_completes_by_readback[OF hyps this, of exampleConfigReconciler] all show ?thesis
    by (simp add: exampleConfigReconciler_def StatusCompleted_def)
qed

end
