(* ===== verification/TargetRequestProps.thy ===== *)
theory TargetRequestProps
  imports TargetRequest
begin

text \<open>
  The properties of \<^verbatim>\<open>KrknTargetRequestReconciler.Reconcile\<close>, for any API server, any network
  and any interleaving with other operators, over the model of \<^verbatim>\<open>TargetRequest\<close>: what it may
  write, what it leaves alone, what it publishes and in which order, when a request completes,
  and what its results mean to the work queue.
\<close>

section \<open>Properties\<close>

text \<open>
  C1. What a reconciliation may write, whatever the API server, the network and the other
  operators do: on a request \<open>t0\<close> without status it adds the UUID label if missing and sets the
  status to pending; on a pending one it sets only status, target data and completion time,
  leaves every other operator's targets as they are, moves the status to Completed or not at all
  (the completion time together with it), and once its own targets are there never changes them;
  secrets and ManifestWorks are written only for a pending request it has not contributed to; on
  any other status nothing is written.  (The probes a test may plug in are assumed to write
  nothing; the default ones do.)
\<close>

theorem request_writes:
  assumes "fst (apiGetTargetRequest a req (env w)) = Inr t0" "soundProbes a r good"
  shows "list_all (requestWrite r t0) (trace (TargetRequest_Reconcile a r req) w)"
  unfolding TargetRequest_Reconcile_def
  by (rule list_all_call_bind, simp, simp only: assms(1) sum.case only_afterGet[OF assms(2)])

definition pendingCluster :: "string list \<Rightarrow> cluster" where
  "pendingCluster names = emptyCluster\<lparr>
     kRequests := [((''krkn'', ''req''), exampleRequest)],
     kProviders := [\<lparr>pvName = ''acm'', pvNamespace = ''krkn'', pvOperatorName = ''acm'', pvActive = True\<rparr>],
     kClusters := map (\<lambda>n. encManagedCluster (exampleCluster n ''True'')) names,
     kSecrets := map (\<lambda>n. ((n, ''application-manager''), \<lparr>secName = ''application-manager'', secNamespace = n,
        secResourceVersion = ''1'', secOwners = [], secData = Some [(''token'', ''tok'')]\<rparr>)) names\<rparr>"

lemma exampleProbes: "soundProbes a (exampleReconciler\<lparr>clusterLivenessProbe := None\<rparr>) (acceptedBy a)"
  by (rule soundProbes_default) (simp_all add: exampleReconciler_def)

theorem request_writes_witness:
  "list_all (requestWrite (exampleReconciler\<lparr>clusterLivenessProbe := None\<rparr>) exampleRequest)
     (trace (TargetRequest_Reconcile refApi (exampleReconciler\<lparr>clusterLivenessProbe := None\<rparr>) (''krkn'', ''req''))
       (inCluster (pendingCluster [''c1''])))"
proof -
  have "fst (apiGetTargetRequest refApi (''krkn'', ''req'') (env (inCluster (pendingCluster [''c1'']))))
      = Inr exampleRequest"
    by (simp add: lookupOr_def pendingCluster_def)
  from request_writes[OF this exampleProbes] show ?thesis .
qed

text \<open>
  A request that is not waiting is left alone: when it does not exist, cannot be read, is
  completed, or has a status that is neither empty nor pending, the reconciliation makes the one
  read and returns, with the read's error if there was one.
\<close>

theorem reconcile_idle:
  assumes "case fst (apiGetTargetRequest a req (env w)) of
       Inl e \<Rightarrow> True | Inr t \<Rightarrow> trStatus t \<noteq> [] \<and> trStatus t \<noteq> StatusPending"
  shows "trace (TargetRequest_Reconcile a r req) w = [CGetTargetRequest req]
     \<and> outcome (TargetRequest_Reconcile a r req) w =
         (emptyResult, case fst (apiGetTargetRequest a req (env w)) of
            Inl e \<Rightarrow> if isNotFound e then None else Some e | Inr t \<Rightarrow> None)"
  using assms by (auto simp: TargetRequest_Reconcile_def trace_def outcome_def split: sum.splits)

theorem reconcile_idle_witness:
  "trace (TargetRequest_Reconcile refApi exampleReconciler (''krkn'', ''req''))
     (inCluster (emptyCluster\<lparr>kRequests := [((''krkn'', ''req''), exampleRequest\<lparr>trStatus := ''Completed''\<rparr>)]\<rparr>))
   = [CGetTargetRequest (''krkn'', ''req'')]"
proof -
  let ?w = "inCluster (emptyCluster\<lparr>kRequests := [((''krkn'', ''req''), exampleRequest\<lparr>trStatus := ''Completed''\<rparr>)]\<rparr>)"
  have "case fst (apiGetTargetRequest refApi (''krkn'', ''req'') (env ?w)) of
       Inl e \<Rightarrow> True | Inr t \<Rightarrow> trStatus t \<noteq> [] \<and> trStatus t \<noteq> StatusPending"
    by (simp add: lookupOr_def StatusPending_def)
  from reconcile_idle[OF this, of exampleReconciler] show ?thesis by simp
qed

text \<open>
  Without its own active provider an operator only waits: when the provider list cannot be
  read, or the first provider of this operator's name is missing or inactive, a pending request
  costs two reads and nothing is written; the list's error, if any, is returned.
\<close>

theorem inactive_provider_waits:
  assumes "apiGetTargetRequest a req (env w) = (Inr t0, k)" "trStatus t0 = StatusPending"
    and "case fst (apiListProviders a (OperatorNamespace r) k) of
       Inl e \<Rightarrow> True
     | Inr ps \<Rightarrow> (case find (\<lambda>p. pvOperatorName p = OperatorName r) ps of None \<Rightarrow> True | Some p \<Rightarrow> \<not> pvActive p)"
  shows "trace (TargetRequest_Reconcile a r req) w = [CGetTargetRequest req, CListProviders (OperatorNamespace r)]
     \<and> outcome (TargetRequest_Reconcile a r req) w = (emptyResult,
         case fst (apiListProviders a (OperatorNamespace r) k) of Inl e \<Rightarrow> Some e | Inr ps \<Rightarrow> None)"
  using assms
  by (auto simp: TargetRequest_Reconcile_def processRequest_def checkProviderActive_def trace_def outcome_def
      split: sum.splits option.splits)

theorem inactive_provider_waits_witness:
  "let k = (pendingCluster [''c1''])\<lparr>kProviders := []\<rparr>
   in trace (TargetRequest_Reconcile refApi exampleReconciler (''krkn'', ''req'')) (inCluster k)
        = [CGetTargetRequest (''krkn'', ''req''), CListProviders ''krkn'']"
proof -
  let ?k = "(pendingCluster [''c1''])\<lparr>kProviders := []\<rparr>"
  have get: "apiGetTargetRequest refApi (''krkn'', ''req'') (env (inCluster ?k)) = (Inr exampleRequest, ?k)"
    by (simp add: lookupOr_def pendingCluster_def)
  have st: "trStatus exampleRequest = StatusPending" by (simp add: exampleRequest_def StatusPending_def)
  from inactive_provider_waits[OF get st, of exampleReconciler] show ?thesis
    by (simp add: exampleReconciler_def)
qed

definition targetOf :: "ManagedCluster \<Rightarrow> ClusterTarget \<Rightarrow> bool" where
  "targetOf c t = (ClusterName t = mcName c \<and> Online t \<noteq> None \<and> CheckedAt t \<noteq> None
     \<and> ClusterStatus t \<noteq> ClusterStatusUnset
     \<and> (ClusterStatus t = ClusterStatusHealthy \<longrightarrow> Online t = Some True))"

fun publishes :: "'e KrknTargetRequestReconciler \<Rightarrow> ManagedCluster list \<Rightarrow> apiCall \<Rightarrow> bool" where
  "publishes r cs (CStatusUpdateTargetRequest t) =
     (\<exists>ts. mapGet (trTargetData t) (OperatorName r) = Some ts \<and> list_all2 targetOf cs ts)"
| "publishes r cs c = True"

lemma report_targets:
  assumes ips: "list_all2 (\<lambda>c ip. inputFor c (fst ip) \<and> probeResultFor (fst ip) (snd ip)) cs ips"
    and report: "reportFor good ips (cd, ts)"
  shows "list_all2 targetOf cs ts"
proof -
  from report have ts: "list_all2 (\<lambda>ip t. \<exists>d. targetFor good (fst ip) (snd ip) (t, d)) ips ts"
    by (simp add: reportFor_def)
  have "targetOf c t" if "inputFor c (fst ip)" "targetFor good (fst ip) (snd ip) (t, d)" for c ip t d
    using that by (auto simp: targetOf_def inputFor_def targetFor_def Let_def split: option.splits)
  with ips ts show ?thesis by (fastforce simp: list_all2_conv_all_nth)
qed

lemma only_publishTargets_targets:
  assumes "list_all2 targetOf cs ts"
  shows "only (publishes r cs) (publishTargets a r ps t0 ts)"
  unfolding publishTargets_def cleanupAndReturn_def cleanupOldTargetRequests_def Let_def
  using assms by (intro wp) (auto simp: mapGet_update completeRequest_def)

text \<open>
  C13. What is published: when OCM lists the clusters \<open>cs\<close>, every status update of a contribution
  holds, under this operator's name, one target per cluster, in the order of the list, each with
  the cluster's name, an online flag, a check time and a health status; a target is healthy only
  if it is online.
\<close>

theorem published_targets_complete:
  assumes "fst (apiGetTargetRequest a req (env w)) = Inr t0" "trStatus t0 = StatusPending"
    "mapGet (trTargetData t0) (OperatorName r) = None" "soundProbes a r good"
    and listed: "\<And>v. outcome (getManagedClusters a) v = Inr cs"
  shows "list_all (publishes r cs) (trace (TargetRequest_Reconcile a r req) w)"
proof -
  have reads: "publishes r cs c" if "\<not> writes c" for c using that by (cases c) simp_all
  have known: "yields (\<lambda>m. \<forall>mcs. m = Inr mcs \<longrightarrow> mcs = cs) (getManagedClusters a)"
    using listed by (auto simp: yields_def outcome_def)
  have "only (publishes r cs) (contributeTargets a r ps t0)" for ps
    by (rule only_contributeTargets[OF assms(4) reads _ known])
      (auto intro!: only_createManagedClustersSecret only_publishTargets_targets dest: report_targets)
  then have "only (publishes r cs) (processRequest a r t0)"
    unfolding processRequest_def Let_def using assms(3) by (intro wp) simp_all
  then show ?thesis
    unfolding TargetRequest_Reconcile_def
    by (intro list_all_call_bind) (use assms(1,2) in simp_all)
qed

definition fixedClusters :: "ManagedCluster list \<Rightarrow> cluster api" where
  "fixedClusters cs = ocmApi\<lparr>apiListManagedClusters := (\<lambda>k. (Inr (map encManagedCluster cs), k))\<rparr>"

lemma fixedClusters_listed: "outcome (getManagedClusters (fixedClusters cs)) v = Inr cs"
proof -
  have "decManagedClusterList (JObj [(''apiVersion'', JStr ''v1''), (''items'', JArr (map encManagedCluster cs)),
     (''kind'', JStr ''ManagedClusterList''), (''metadata'', JObj [])]) [] = Inr cs"
    by (rule decManagedClusterList_enc)
  moreover have "jsonWf (JObj [(''apiVersion'', JStr ''v1''), (''items'', JArr (map encManagedCluster cs)),
     (''kind'', JStr ''ManagedClusterList''), (''metadata'', JObj [])])"
    by (simp add: list_all_iff encManagedCluster_wf)
  ultimately show ?thesis
    by (simp add: outcome_def getManagedClusters_def fixedClusters_def ocmApi_def jsonParse_print
        del: jsonPrint.simps)
qed

theorem published_targets_complete_witness:
  "list_all (publishes (exampleReconciler\<lparr>clusterLivenessProbe := None\<rparr>) [exampleCluster ''c1'' ''True''])
     (trace (TargetRequest_Reconcile (fixedClusters [exampleCluster ''c1'' ''True''])
        (exampleReconciler\<lparr>clusterLivenessProbe := None\<rparr>) (''krkn'', ''req'')) (inCluster (pendingCluster [''c1''])))"
proof -
  let ?a = "fixedClusters [exampleCluster ''c1'' ''True'']"
  let ?r = "exampleReconciler\<lparr>clusterLivenessProbe := None\<rparr>"
  have get: "fst (apiGetTargetRequest ?a (''krkn'', ''req'') (env (inCluster (pendingCluster [''c1''])))) = Inr exampleRequest"
    by (simp add: lookupOr_def pendingCluster_def fixedClusters_def ocmApi_def)
  have t0: "trStatus exampleRequest = StatusPending" "mapGet (trTargetData exampleRequest) (OperatorName ?r) = None"
    by (simp_all add: exampleRequest_def StatusPending_def)
  show ?thesis
    by (rule published_targets_complete[OF get t0 exampleProbes fixedClusters_listed])
qed

text \<open>
  C3. Credentials are handed out only for clusters that were dealt with, and only when they work:
  working through any list of probe inputs and their results gives one target per input, in
  order, and credentials with each cluster name at most once, each matching the target of an
  input of that name (same name, same URL, online exactly as probed); if that cluster was found
  live, the credential check had accepted the very kubeconfig handed out.
\<close>

theorem credentials_validated:
  assumes "soundProbes a r good" "list_all (\<lambda>(input, p). probeResultFor input p) ips"
    and "outcome (processClusters a r ips) w = (cd, ts)"
  shows "length ts = length ips \<and> distinct (map fst cd)
     \<and> list_all (\<lambda>(n, d). \<exists>i < length ips.
          (let (input, p) = ips ! i; t = ts ! i in
           mcName (piCluster input) = n \<and> cdClusterName d = n \<and> ClusterName t = n
           \<and> cdClusterAPI d = ClusterAPIURL t \<and> Online t = Some (lvOnline (prLiveness p))
           \<and> (lvOnline (prLiveness p) \<and> lvHealthy (prLiveness p) \<longrightarrow> good (cdKubeconfig d)))) cd"
proof -
  from assms(1) have "credential_probe (credentialProbeOf a r) good" by (simp add: soundProbes_def)
  from yields_outcome[OF processClusters_report[OF this assms(2)], of w]
  have report: "reportFor good ips (cd, ts)" by (simp add: assms(3))
  show ?thesis
  proof (intro conjI)
    show "length ts = length ips" "distinct (map fst cd)"
      using report by (auto simp: reportFor_def dest: list_all2_lengthD)
    have "explained good ips ts nd" if "nd \<in> set cd" for nd using report that by (simp add: reportFor_def)
    then show "list_all (\<lambda>(n, d). \<exists>i < length ips.
          (let (input, p) = ips ! i; t = ts ! i in
           mcName (piCluster input) = n \<and> cdClusterName d = n \<and> ClusterName t = n
           \<and> cdClusterAPI d = ClusterAPIURL t \<and> Online t = Some (lvOnline (prLiveness p))
           \<and> (lvOnline (prLiveness p) \<and> lvHealthy (prLiveness p) \<longrightarrow> good (cdKubeconfig d)))) cd"
      by (fastforce simp: list_all_iff explained_def targetFor_def Let_def split: prod.split)
  qed
qed

definition strictReconciler :: "cluster KrknTargetRequestReconciler" where
  "strictReconciler = exampleReconciler\<lparr>clusterLivenessProbe := None,
     clusterCredentialProbe := Some (\<lambda>k t. ret (Some (ErrMsg ''rejected'')))\<rparr>"

definition probedCluster :: "string \<Rightarrow> bool \<Rightarrow> clusterProbeInput \<times> clusterProbeResult" where
  "probedCluster name live =
     (\<lparr>piCluster = exampleCluster name ''True'', piClusterURL = ''http://'' @ name, piClusterCABundle = [],
        piProbeURL = ''http://'' @ name, piProbeCABundle = [], piProxyModeEnabled = False\<rparr>,
      \<lparr>prTarget = \<lparr>ClusterName = name, ClusterAPIURL = ''http://'' @ name, Online = Some live,
          CheckedAt = Some 0, ClusterStatus = ClusterStatusUnset\<rparr>,
        prLiveness = \<lparr>lvOnline = live, lvHealthy = live\<rparr>,
        prErr = (if live then None else Some (ErrMsg ''unreachable''))\<rparr>)"

lemma strictProbes: "soundProbes a strictReconciler (\<lambda>_. False)"
  by (auto simp: soundProbes_def livenessProbeOf_def credentialProbeOf_def strictReconciler_def
      credential_probe_def outcome_def anonymous.liveness_probe_axioms intro: wp)

lemma pendingCluster_fields [simp]:
  "kStore (pendingCluster ns) = []"
  "kSecrets (pendingCluster ns) = map (\<lambda>n. ((n, ''application-manager''), \<lparr>secName = ''application-manager'',
     secNamespace = n, secResourceVersion = ''1'', secOwners = [], secData = Some [(''token'', ''tok'')]\<rparr>)) ns"
  by (simp_all add: pendingCluster_def emptyCluster_def)

lemma strict_processCluster:
  assumes "env w = pendingCluster [''c1'', ''c2'']" "n \<in> {''c1'', ''c2''}"
  shows "env (snd (run_state (processCluster refApi strictReconciler
      (fst (probedCluster n live)) (snd (probedCluster n live))) w)) = pendingCluster [''c1'', ''c2'']
    \<and> (snd (fst (run_state (processCluster refApi strictReconciler
      (fst (probedCluster n live)) (snd (probedCluster n live))) w)) = None \<longleftrightarrow> live)"
proof -
  have "\<not> proxyOn refApi n (pendingCluster [''c1'', ''c2''])" for n by (simp add: proxyOn_def)
  with assms show ?thesis
    by (auto simp: probedCluster_def processCluster_def exampleCluster_def Let_def getProxyConfig_def directConfig_def
        getClusterToken_def getConfiguredSecretName_def getClusterSecret_def lookupOr_def
        generateKubeconfig_def advertiseCluster_def validateClusterCredentials_def credentialProbeOf_def
        strictReconciler_def ACMDefaultSecret_def mapGet_def simp del: base64Encode.simps)
qed

lemma strict_hands_out:
  "fst (outcome (processClusters refApi strictReconciler [probedCluster ''c1'' True, probedCluster ''c2'' False])
     (inCluster (pendingCluster [''c1'', ''c2'']))) \<noteq> []"
  using strict_processCluster[of "inCluster (pendingCluster [''c1'', ''c2''])" "''c1''" True]
    strict_processCluster[of "snd (run_state (processCluster refApi strictReconciler
      (fst (probedCluster ''c1'' True)) (snd (probedCluster ''c1'' True))) (inCluster (pendingCluster [''c1'', ''c2''])))"
      "''c2''" False]
  by (auto simp: outcome_def processClusters_def collectCluster_def probedCluster_def split: prod.splits option.splits)

theorem credentials_validated_witness:
  "let (cd, ts) = outcome (processClusters refApi strictReconciler
        [probedCluster ''c1'' True, probedCluster ''c2'' False]) (inCluster (pendingCluster [''c1'', ''c2'']))
   in map fst cd = [''c2''] \<and> length ts = 2"
proof -
  let ?ips = "[probedCluster ''c1'' True, probedCluster ''c2'' False]"
  obtain cd ts where res: "outcome (processClusters refApi strictReconciler ?ips)
      (inCluster (pendingCluster [''c1'', ''c2''])) = (cd, ts)" by (cases "outcome (processClusters refApi strictReconciler ?ips)
      (inCluster (pendingCluster [''c1'', ''c2'']))")
  have probed: "list_all (\<lambda>(input, p). probeResultFor input p) ?ips"
    by (simp add: probedCluster_def probeResultFor_def soundLiveness_def exampleCluster_def)
  note valid = credentials_validated[OF strictProbes probed res]
  then have len: "length ts = 2" "distinct (map fst cd)" by simp_all
  have all_c2: "n = ''c2''" if nd: "(n, d) \<in> set cd" for n d
  proof -
    from valid have "list_all (\<lambda>(n, d). \<exists>i < length ?ips. mcName (piCluster (fst (?ips ! i))) = n
        \<and> \<not> (lvOnline (prLiveness (snd (?ips ! i))) \<and> lvHealthy (prLiveness (snd (?ips ! i))))) cd"
      by (elim conjE list.pred_mono_strong) (simp add: case_prod_beta Let_def del: list.size, blast)
    with nd obtain i where i: "i < length ?ips" "mcName (piCluster (fst (?ips ! i))) = n"
      "\<not> (lvOnline (prLiveness (snd (?ips ! i))) \<and> lvHealthy (prLiveness (snd (?ips ! i))))"
      by (auto simp: list_all_iff)
    then show ?thesis by (cases i) (auto simp: probedCluster_def exampleCluster_def less_Suc_eq)
  qed
  have "cd \<noteq> []" using strict_hands_out res by simp
  with all_c2 len(2) have "map fst cd = [''c2'']"
    by (cases cd rule: remdups_adj.cases) (auto, metis)
  with len(1) res show ?thesis by simp
qed

fun isStatusUpdate :: "apiCall \<Rightarrow> bool" where
  "isStatusUpdate (CStatusUpdateTargetRequest t) = True"
| "isStatusUpdate c = False"

fun isSecretWrite :: "apiCall \<Rightarrow> bool" where
  "isSecretWrite (CCreateSecret s) = True"
| "isSecretWrite (CUpdateSecret s) = True"
| "isSecretWrite c = False"

definition secretFirst :: "apiCall list \<Rightarrow> bool" where
  "secretFirst cs = (list_ex isStatusUpdate cs \<longrightarrow>
     list_ex isSecretWrite (takeWhile (\<lambda>c. \<not> isStatusUpdate c) cs))"

definition guarded :: "('e, 'a) prog \<Rightarrow> bool" where
  "guarded m = (\<forall>w. \<exists>cs. calls (snd (run_state m w)) = calls w @ cs \<and> secretFirst cs)"

abbreviation quiet :: "('e, 'a) prog \<Rightarrow> bool" where
  "quiet m \<equiv> only (\<lambda>c. \<not> isStatusUpdate c) m"

lemma secretFirst_quiet: "list_all (\<lambda>c. \<not> isStatusUpdate c) cs \<Longrightarrow> secretFirst (cs @ ds) \<longleftrightarrow>
    (list_ex isStatusUpdate ds \<longrightarrow> list_ex isSecretWrite cs \<or> list_ex isSecretWrite (takeWhile (\<lambda>c. \<not> isStatusUpdate c) ds))"
  by (auto simp: secretFirst_def list_all_iff list_ex_iff takeWhile_append2)

lemma quiet_guarded: "quiet m \<Longrightarrow> guarded m"
  unfolding only_def guarded_def secretFirst_def by (fastforce simp: list_all_iff list_ex_iff)

lemma guarded_bind:
  assumes "quiet m" "\<And>x. guarded (f x)"
  shows "guarded (m \<bind> f)"
proof -
  have "\<exists>cs. calls (snd (run_state (m \<bind> f) w)) = calls w @ cs \<and> secretFirst cs" for w
  proof (cases "run_state m w")
    case (Pair x w')
    from assms(1)[unfolded only_def, rule_format, of w] Pair obtain cs where
      1: "calls w' = calls w @ cs" "list_all (\<lambda>c. \<not> isStatusUpdate c) cs" by auto
    from assms(2)[of x, unfolded guarded_def, rule_format, of w'] obtain ds where
      2: "calls (snd (run_state (f x) w')) = calls w' @ ds" "secretFirst ds" by auto
    have "secretFirst (cs @ ds)" unfolding secretFirst_quiet[OF 1(2)] using 2(2) by (simp add: secretFirst_def)
    with 1 2 Pair show ?thesis by (intro exI[of _ "cs @ ds"]) simp
  qed
  then show ?thesis by (simp add: guarded_def)
qed

lemma guarded_publish:
  assumes "quiet m" "only (\<lambda>_. True) g"
    "\<And>w. outcome m w = None \<Longrightarrow> list_ex isSecretWrite (trace m w)"
  shows "guarded (m \<bind> (\<lambda>s. case s of Some e \<Rightarrow> ret (h e) | None \<Rightarrow> g))"
proof -
  have "\<exists>cs. calls (snd (run_state (m \<bind> (\<lambda>s. case s of Some e \<Rightarrow> ret (h e) | None \<Rightarrow> g)) w)) = calls w @ cs
      \<and> secretFirst cs" for w
  proof (cases "run_state m w")
    case (Pair x w')
    from assms(1)[unfolded only_def, rule_format, of w] Pair obtain cs where
      1: "calls w' = calls w @ cs" "list_all (\<lambda>c. \<not> isStatusUpdate c) cs" by auto
    then have cs: "trace m w = cs" using Pair by (simp add: trace_def)
    show ?thesis
    proof (cases x)
      case None
      from assms(2)[unfolded only_def, rule_format, of w'] obtain ds where
        2: "calls (snd (run_state g w')) = calls w' @ ds" by auto
      have "list_ex isSecretWrite cs" using assms(3)[of w] None Pair cs by (simp add: outcome_def)
      then have "secretFirst (cs @ ds)" unfolding secretFirst_quiet[OF 1(2)] by simp
      with 1 2 Pair None show ?thesis by (intro exI[of _ "cs @ ds"]) simp
    next
      case (Some e)
      have "secretFirst cs" using secretFirst_quiet[OF 1(2), of "[]"] by simp
      with 1 Pair Some show ?thesis by simp
    qed
  qed
  then show ?thesis by (simp add: guarded_def)
qed

lemma stored_means_written:
  "outcome (createManagedClustersSecret a r t cd) w = None \<Longrightarrow>
   list_ex isSecretWrite (trace (createManagedClustersSecret a r t cd) w)"
  by (auto simp: createManagedClustersSecret_def storeOperatorData_def Let_def outcome_def trace_def
      split: sum.splits option.splits if_splits)

lemma quiet_readsD: "\<not> writes c \<Longrightarrow> \<not> isStatusUpdate c"
  by (cases c) simp_all

lemma quiet_processClusters:
  assumes "soundProbes a r good"
  shows "quiet (processClusters a r ips)"
proof -
  from assms have cred: "credential_probe (credentialProbeOf a r) good" by (simp add: soundProbes_def)
  have "only (clusterCall (map (piCluster \<circ> fst) ips)) (processClusters a r ips)"
    by (rule only_processClusters[OF cred]) auto
  then show ?thesis
    by (rule only_mono) (auto simp: clusterCall_def dest: quiet_readsD)
qed

lemma guarded_reportProbes:
  assumes sp: "soundProbes a r good"
  shows "guarded (reportProbes a r ps t0 inputs probed)"
proof -
  have g: "only (\<lambda>_. True) (publishTargets a r ps t0 ts)" for ts
    unfolding publishTargets_def cleanupAndReturn_def cleanupOldTargetRequests_def Let_def by (intro wp) simp_all
  have s: "quiet (createManagedClustersSecret a r t0 cd)" for cd by (intro wp) simp_all
  have "guarded (createManagedClustersSecret a r t0 cd \<bind>
      (\<lambda>s. case s of Some e \<Rightarrow> ret (emptyResult, Some e) | None \<Rightarrow> publishTargets a r ps t0 ts))" for cd ts
    by (rule guarded_publish[OF s g stored_means_written])
  then have "guarded (case x of (cd, ts) \<Rightarrow> createManagedClustersSecret a r t0 (Some cd) \<bind>
      (\<lambda>s. case s of Some e \<Rightarrow> ret (emptyResult, Some e) | None \<Rightarrow> publishTargets a r ps t0 ts))" for x
    by (simp split: prod.split)
  then show ?thesis unfolding reportProbes_def by (rule guarded_bind[OF quiet_processClusters[OF sp]])
qed

lemma guarded_contributeTargets:
  assumes sp: "soundProbes a r good"
  shows "guarded (contributeTargets a r ps t0)"
proof -
  have probes: "quiet (probeManagedClusters a ins (livenessProbeOf a r))" for ins
    using sp unfolding soundProbes_def
    by (elim conjE) (rule liveness_probe.only_probeManagedClusters[OF _ quiet_readsD])
  have inputs: "quiet (mapM (buildProbeInput a) cs)" for cs
    by (intro wp only_buildProbeInput quiet_readsD)
  have "guarded (case m of Inl e \<Rightarrow> ret (emptyResult, Some e)
       | Inr managedClusters \<Rightarrow> do {
           probeInputs \<leftarrow> mapM (buildProbeInput a) managedClusters;
           probeResults \<leftarrow> probeManagedClusters a probeInputs (livenessProbeOf a r);
           reportProbes a r ps t0 probeInputs probeResults })" for m
    by (cases m) (simp add: quiet_guarded[OF only_ret], simp only: sum.case, rule guarded_bind[OF inputs],
        rule guarded_bind[OF probes], rule guarded_reportProbes[OF sp])
  then show ?thesis
    unfolding contributeTargets_def by (intro guarded_bind) (intro wp, simp)
qed



text \<open>
  Every reconciliation ends in one of three ways: an error with an empty result (the queue
  retries with backoff), an immediate requeue without an error, or nothing to do; an immediate
  requeue is never combined with an error, for any API and any probes.
\<close>

theorem target_request_result:
  "let res = outcome (TargetRequest_Reconcile a r req) w
   in queueAction res \<in> {Forget, RequeueAt 1} \<union> range RetryWithBackoff
      \<and> (if snd res = None then True else fst res = emptyResult)"
proof -
  let ?res = "outcome (TargetRequest_Reconcile a r req) w"
  have "fst ?res = emptyResult \<or> (fst ?res = requeueNow \<and> snd ?res = None)"
    by (rule yields_outcome[OF target_request.decides])
  then show ?thesis
    by (auto simp: Let_def queueAction_def requeueNow_def emptyResult_def split: option.split)
qed

text \<open>
  A request completes exactly when every active provider has contributed: provided the active
  providers have different names and only active ones have contributed so far, publishing this
  operator's targets sends first one status update that keeps the others' targets, holds this
  operator's, and says Completed if and only if each active provider is this one or had
  contributed before.
\<close>

theorem request_completes_when_all_contributed:
  assumes "trStatus t0 = StatusPending" "mapWf (trTargetData t0)" "distinct (activeNames ps)"
    and "set (mapKeys (trTargetData t0)) \<subseteq> set (activeNames ps)" "OperatorName r \<in> set (activeNames ps)"
  shows "\<exists>t rest. trace (publishTargets a r ps t0 ts) w = CStatusUpdateTargetRequest t # rest
     \<and> mapGet (trTargetData t) = (mapGet (trTargetData t0))(OperatorName r \<mapsto> ts)
     \<and> (trStatus t = StatusCompleted \<longleftrightarrow>
          list_all (\<lambda>n. n = OperatorName r \<or> mapGet (trTargetData t0) n \<noteq> None) (activeNames ps))"
proof -
  let ?t = "publishedRequest (apiNow a (env w)) r ps t0 ts" and ?m = "putTargets (OperatorName r) ts (trTargetData t0)"
  have wf: "mapWf ?m" by (rule mapWf_putTargets[OF assms(2)])
  have keys: "set (mapKeys ?m) \<subseteq> set (activeNames ps)" using assms(4,5) by (simp add: mapKeys_putTargets)
  have "trStatus ?t = StatusCompleted \<longleftrightarrow> allActiveContributed ps ?m"
    unfolding publishedRequest_status[OF assms(1)]
    using shouldMark_complete[OF wf assms(3)] shouldMark_sound[OF wf assms(3) keys] by blast
  also have "\<dots> \<longleftrightarrow> list_all (\<lambda>n. n = OperatorName r \<or> mapGet (trTargetData t0) n \<noteq> None) (activeNames ps)"
    using assms(5) by (auto simp: allActiveContributed_def mapGet_putTargets list_all_iff)
  finally have status: "trStatus ?t = StatusCompleted \<longleftrightarrow>
     list_all (\<lambda>n. n = OperatorName r \<or> mapGet (trTargetData t0) n \<noteq> None) (activeNames ps)" .
  have data: "mapGet (trTargetData ?t) = (mapGet (trTargetData t0))(OperatorName r \<mapsto> ts)"
    by (auto simp: publishedRequest_targets mapGet_putTargets)
  from publishTargets_trace[of a r ps t0 ts w] obtain rest where
    "trace (publishTargets a r ps t0 ts) w = CStatusUpdateTargetRequest ?t # rest" by blast
  with status data show ?thesis by blast
qed

theorem request_completes_when_all_contributed_witness:
  "let p = \<lambda>n b. \<lparr>pvName = n, pvNamespace = ''krkn'', pvOperatorName = n, pvActive = b\<rparr>;
       ps = [p ''acm'' True, p ''core'' True];
       t0 = exampleRequest\<lparr>trTargetData := Some [(''core'', [])]\<rparr>
   in \<exists>t rest. trace (publishTargets refApi exampleReconciler ps t0 []) (inCluster emptyCluster)
          = CStatusUpdateTargetRequest t # rest \<and> trStatus t = StatusCompleted"
proof -
  let ?p = "\<lambda>n b. \<lparr>pvName = n, pvNamespace = ''krkn'', pvOperatorName = n, pvActive = b\<rparr>"
  let ?ps = "[?p ''acm'' True, ?p ''core'' True]"
  let ?t0 = "exampleRequest\<lparr>trTargetData := Some [(''core'', [])]\<rparr>"
  have names: "activeNames ?ps = [''acm'', ''core'']" by (simp add: activeNames_def)
  have hyps: "trStatus ?t0 = StatusPending" "mapWf (trTargetData ?t0)" "distinct (activeNames ?ps)"
    "set (mapKeys (trTargetData ?t0)) \<subseteq> set (activeNames ?ps)" "OperatorName exampleReconciler \<in> set (activeNames ?ps)"
    by (simp_all add: names exampleRequest_def exampleReconciler_def StatusPending_def mapWf_def mapKeys_def)
  from request_completes_when_all_contributed[OF hyps, of refApi "[]" "inCluster emptyCluster"] show ?thesis
    unfolding names by (fastforce simp: exampleReconciler_def mapGet_def)
qed

lemma buildProbeInput_route:
  assumes "proxyOn a (mcName c) (env w)"
  shows "piProxyModeEnabled (outcome (buildProbeInput a c) w)
     \<and> (piProbeURL (outcome (buildProbeInput a c) w) = []
        \<or> (\<exists>v. outcome (getProxyURL a (mcName c)) v = Inr (piProbeURL (outcome (buildProbeInput a c) w))))"
proof -
  have on: "outcome (isProxyModeEnabled a (mcName c)) w" using assms by (simp add: outcome_def)
  have route: "yields (\<lambda>(u, ca). u = [] \<or> (\<exists>v. outcome (getProxyURL a (mcName c)) v = Inr u))
     (resolveProxyRoute a (mcName c) ca)" for ca
    unfolding resolveProxyRoute_def by (intro yields_bind[OF proxy_url_somewhere]) (auto intro!: yield split: sum.splits)
  let ?Q = "\<lambda>i. piProxyModeEnabled i \<and> (piProbeURL i = [] \<or> (\<exists>v. outcome (getProxyURL a (mcName c)) v = Inr (piProbeURL i)))"
  obtain u ca where uca: "firstClientConfig c = (u, ca)" by fastforce
  have "?Q (outcome (buildProbeInput a c) w)"
    unfolding buildProbeInput_def Let_def uca prod.case
    by (rule outcome_then[where R = "\<lambda>b. b", OF on], simp, rule yields_bind[OF route]) (auto intro!: yield)
  then show ?thesis .
qed

text \<open>Credentials of a proxied cluster: its proxy's URL, and a kubeconfig of the proxy.\<close>

definition proxyCredentials :: "'e api \<Rightarrow> ManagedCluster \<Rightarrow> clusterProbeInput \<Rightarrow> ClusterData \<Rightarrow> bool" where
  "proxyCredentials a c input d = (\<exists>pc kc v. Enabled pc \<and> outcome (getProxyURL a (mcName c)) v = Inr (ProxyURL pc)
     \<and> cdClusterAPI d = ProxyURL pc \<and> cdKubeconfig d = base64Encode kc
     \<and> generateKubeconfig (mcName c) (piClusterURL input) (piClusterCABundle input) (ProxyToken pc) (Some pc) = Inr kc)"

lemma processCluster_route:
  assumes "proxyOn a (mcName c) (env w)" "piCluster input = c"
  shows "case snd (outcome (processCluster a r input p) w) of None \<Rightarrow> True | Some d \<Rightarrow> proxyCredentials a c input d"
proof -
  let ?Q = "\<lambda>td. case snd td of None \<Rightarrow> True | Some d \<Rightarrow> proxyCredentials a c input d"
  have adv: "yields ?Q (advertiseCluster a r t l s (mcName c) (ProxyURL pc) kc)"
    if "Enabled pc" "\<exists>v. outcome (getProxyURL a (mcName c)) v = Inr (ProxyURL pc)"
      "generateKubeconfig (mcName c) (piClusterURL input) (piClusterCABundle input) (ProxyToken pc) (Some pc) = Inr kc"
    for t l s pc kc
    unfolding advertiseCluster_def Let_def
    using that by (intro yield) (auto simp: proxyCredentials_def split: option.split)
  note config = getProxyConfig_route[OF assms(1), of "OperatorNamespace r"]
  have "?Q (outcome (processCluster a r input p) w)"
  proof (cases "mcClientConfigs c = [] \<and> \<not> piProxyModeEnabled input")
    case False
    show ?thesis
      unfolding processCluster_def Let_def assms(2) if_not_P[OF False]
      by (rule outcome_then[where R = "\<lambda>x. case x of Inl e \<Rightarrow> True
            | Inr p \<Rightarrow> Enabled p \<and> (\<exists>v. outcome (getProxyURL a (mcName c)) v = Inr (ProxyURL p))", OF config])
        (auto simp: getClusterToken_def intro!: yield adv split: sum.splits)
  qed (simp add: processCluster_def assms(2) outcome_def)
  then show ?thesis .
qed


definition proxiedApi :: "cluster api" where
  "proxiedApi = refApi\<lparr>apiGetValue := (\<lambda>k n. Some ''true'')\<rparr>"


text \<open>
  A target can look usable without credentials: when the secret of a live, available cluster
  is missing, the code logs that it marks the cluster offline, but the target stays online and
  healthy, while no credentials are handed out for it.
\<close>

theorem online_target_without_credentials:
  "let input = outcome (buildProbeInput refApi (exampleCluster ''c1'' ''True'')) (inCluster emptyCluster);
       probed = outcome (probeOne refApi (\<lambda>u ca. ret (\<lparr>lvOnline = True, lvHealthy = True\<rparr>, None)) input)
                  (inCluster emptyCluster);
       (target, credentials) = outcome (processCluster refApi exampleReconciler input probed) (inCluster emptyCluster)
   in Online target = Some True \<and> ClusterStatus target = ClusterStatusHealthy \<and> credentials = None"
proof -
  have "\<not> proxyOn refApi ''c1'' emptyCluster" by (simp add: proxyOn_def emptyCluster_def)
  then show ?thesis
    by (simp add: outcome_def buildProbeInput_def firstClientConfig_def exampleCluster_def Let_def probeOne_def
        buildClusterTargetWithProbe_def processCluster_def getProxyConfig_def getClusterToken_def
        getConfiguredSecretName_def getClusterSecret_def directConfig_def lookupOr_def
        clusterHealthStatusAfterLiveness_def clusterHealthStatus_def managedClusterConditionAvailable_def
        emptyCluster_def)
qed

text \<open>
  A snapshot, once contributed, is stable: for a pending request that already holds this
  operator's targets a reconciliation lists no clusters, probes nothing and touches no secret; it
  makes at most four calls, the two reads, the status update that completes the very request that
  was read, and the cleanup of old requests.
\<close>

theorem contributed_snapshot_stable:
  assumes "apiGetTargetRequest a req (env w) = (Inr t0, k)" "trStatus t0 = StatusPending"
    "mapGet (trTargetData t0) (OperatorName r) \<noteq> None"
  shows "list_all (\<lambda>c. c = CGetTargetRequest req \<or> c = CListProviders (OperatorNamespace r)
        \<or> (\<exists>now. c = CStatusUpdateTargetRequest (completeRequest now t0))
        \<or> c = CCleanupTargetRequests (OperatorNamespace r) 3600) (trace (TargetRequest_Reconcile a r req) w)
     \<and> length (trace (TargetRequest_Reconcile a r req) w) \<le> 4"
  using assms
  by (auto simp: TargetRequest_Reconcile_def processRequest_def checkProviderActive_def awaitOthers_def
      cleanupAndReturn_def cleanupOldTargetRequests_def CleanupThresholdSeconds_def trace_def Let_def
      split: sum.split option.split)

theorem contributed_snapshot_stable_witness:
  "length (trace (TargetRequest_Reconcile refApi exampleReconciler (''krkn'', ''req''))
     (inCluster ((pendingCluster [''c1''])\<lparr>kRequests :=
        [((''krkn'', ''req''), exampleRequest\<lparr>trTargetData := Some [(''acm'', [])]\<rparr>)]\<rparr>))) \<le> 4"
proof -
  let ?t = "exampleRequest\<lparr>trTargetData := Some [(''acm'', [])]\<rparr>"
  let ?k = "(pendingCluster [''c1''])\<lparr>kRequests := [((''krkn'', ''req''), ?t)]\<rparr>"
  have get: "apiGetTargetRequest refApi (''krkn'', ''req'') (env (inCluster ?k)) = (Inr ?t, ?k)"
    by (simp add: lookupOr_def)
  have t: "trStatus ?t = StatusPending" "mapGet (trTargetData ?t) (OperatorName exampleReconciler) \<noteq> None"
    by (simp_all add: exampleRequest_def exampleReconciler_def StatusPending_def mapGet_def)
  from contributed_snapshot_stable[OF get t] show ?thesis by blast
qed

end
