(* ===== verification/OperatorMain.thy ===== *)
theory OperatorMain
  imports ProviderConfig TargetRequestProps
begin

text \<open>
  The configuration of the process (\<^verbatim>\<open>cmd/main.go\<close>): where the operator's name and namespace
  come from (\<^verbatim>\<open>getOperatorConfig\<close>), what the loader that runs after start-up does with them
  (\<^verbatim>\<open>ConfigLoaderRunnable.Start\<close>), and how \<^verbatim>\<open>main\<close> hands names and namespaces to the
  reconcilers, the event filter and the provider registration.  The rest of \<^verbatim>\<open>main\<close> is in
  \<^verbatim>\<open>Startup\<close>.
\<close>

record OperatorConfig =
  ocOperatorName :: string
  ocOperatorNamespace :: string

definition defaultOperatorName :: string where
  "defaultOperatorName = ''krkn-operator-acm''"

definition getOperatorConfig :: "'e api \<Rightarrow> string \<Rightarrow> ('e, err + OperatorConfig) prog" where
  "getOperatorConfig a defaultNamespace = do {
     envName \<leftarrow> Getenv a ''OPERATOR_NAME'';
     envNamespace \<leftarrow> Getenv a ''POD_NAMESPACE'';
     let config = \<lparr>ocOperatorName = (if envName \<noteq> [] then envName else defaultOperatorName),
            ocOperatorNamespace = (if envNamespace \<noteq> [] then envNamespace else defaultNamespace)\<rparr>;
     g \<leftarrow> Get_ConfigMap a (ocOperatorNamespace config, ''krkn-operator-config'');
     ret (case g of
       Inl e \<Rightarrow> if isNotFound e then Inr config else Inl e
     | Inr configMap \<Rightarrow>
         Inr (if envName = [] then
                (case mapGet (cmData configMap) ''operator-name'' of
                   Some operatorName \<Rightarrow>
                     if operatorName \<noteq> [] then config\<lparr>ocOperatorName := operatorName\<rparr> else config
                 | None \<Rightarrow> config)
              else config))
   }"

text \<open>
  The loader: the reconcilers it updates are returned, unless it fails; the second one may be nil.
\<close>

definition ConfigLoader_Start :: "'e api \<Rightarrow> string \<Rightarrow> 'e KrknTargetRequestReconciler \<Rightarrow>
    KrknOperatorTargetProviderConfigReconciler option \<Rightarrow>
    ('e, err + 'e KrknTargetRequestReconciler \<times> KrknOperatorTargetProviderConfigReconciler option) prog" where
  "ConfigLoader_Start a defaultNamespace targetRequestReconciler providerConfigReconciler = do {
     c \<leftarrow> getOperatorConfig a defaultNamespace;
     case c of
       Inl e \<Rightarrow> ret (Inl e)
     | Inr config \<Rightarrow> do {
         g \<leftarrow> Get_ConfigMap a (ocOperatorNamespace config, ACMIntegrationConfigMapName);
         failed \<leftarrow> (case g of
             Inl e \<Rightarrow> ret (if isNotFound e then None else Some e)
           | Inr acmConfigMap \<Rightarrow> SyncConfigMapToStore a acmConfigMap);
         ret (case failed of
           Some e \<Rightarrow> Inl e
         | None \<Rightarrow> Inr (targetRequestReconciler\<lparr>OperatorName := ocOperatorName config,
                          OperatorNamespace := ocOperatorNamespace config\<rparr>,
                       map_option (\<lambda>r. r\<lparr>pcOperatorName := ocOperatorName config,
                          pcOperatorNamespace := ocOperatorNamespace config\<rparr>) providerConfigReconciler))
       }
   }"

text \<open>What \<^verbatim>\<open>main\<close> sets up before it starts the manager.\<close>

record 'e mainSettings =
  targetRequests :: "'e KrknTargetRequestReconciler"
  watchedNamespace :: string  \<comment> \<open>of the event filter of the target requests\<close>
  providerConfigs :: KrknOperatorTargetProviderConfigReconciler
  watchedConfigMap :: nsname
  loaderNamespace :: string
  registeredProvider :: nsname  \<comment> \<open>namespace and provider name of the registration\<close>

definition mainSetup :: "'e api \<Rightarrow> ('e, 'e mainSettings) prog" where
  "mainSetup a = do {
     podNamespace \<leftarrow> Getenv a ''POD_NAMESPACE'';
     let defaultNamespace = (if podNamespace = [] then ''krkn-operator-system'' else podNamespace);
     envName \<leftarrow> Getenv a ''OPERATOR_NAME'';
     let operatorName = (if envName = [] then defaultOperatorName else envName);
     let targetRequestReconciler = \<lparr>OperatorName = operatorName, OperatorNamespace = defaultNamespace,
            clusterLivenessProbe = None, clusterCredentialProbe = None\<rparr>;
     ret \<lparr>targetRequests = targetRequestReconciler,
          watchedNamespace = OperatorNamespace targetRequestReconciler,
          providerConfigs = \<lparr>pcOperatorName = operatorName, pcOperatorNamespace = defaultNamespace\<rparr>,
          watchedConfigMap = (defaultNamespace, ACMIntegrationConfigMapName),
          loaderNamespace = defaultNamespace,
          registeredProvider = (defaultNamespace, operatorName)\<rparr>
   }"

definition loadedSetup :: "'e api \<Rightarrow> ('e, err + 'e mainSettings) prog" where
  "loadedSetup a = do {
     s \<leftarrow> mainSetup a;
     l \<leftarrow> ConfigLoader_Start a (loaderNamespace s) (targetRequests s) (Some (providerConfigs s));
     ret (case l of
       Inl e \<Rightarrow> Inl e
     | Inr (t, p) \<Rightarrow> Inr (s\<lparr>targetRequests := t,
         providerConfigs := (case p of Some q \<Rightarrow> q | None \<Rightarrow> providerConfigs s)\<rparr>))
   }"

section \<open>Properties\<close>

text \<open>
  The operator's name, by precedence: the environment variable if it is set, else the entry of
  the ConfigMap if there is a non-empty one, else the default; the namespace is the pod's, or the
  given default.  A ConfigMap that is absent is no error, one that cannot be read is.
\<close>

theorem operator_config_precedence:
  "let name = apiGetenv a (env w) ''OPERATOR_NAME''; pod = apiGetenv a (env w) ''POD_NAMESPACE'';
       ns = (if pod = [] then dflt else pod);
       answer = fst (apiGetConfigMap a (ns, ''krkn-operator-config'') (env w))
   in trace (getOperatorConfig a dflt) w = [CGetConfigMap (ns, ''krkn-operator-config'')]
      \<and> outcome (getOperatorConfig a dflt) w =
        (case answer of
           Inl e \<Rightarrow> if isNotFound e
             then Inr \<lparr>ocOperatorName = (if name = [] then ''krkn-operator-acm'' else name),
                       ocOperatorNamespace = ns\<rparr>
             else Inl e
         | Inr cm \<Rightarrow> Inr \<lparr>ocOperatorName =
               (if name \<noteq> [] then name
                else case mapGet (cmData cm) ''operator-name'' of
                  Some v \<Rightarrow> (if v = [] then ''krkn-operator-acm'' else v) | None \<Rightarrow> ''krkn-operator-acm''),
               ocOperatorNamespace = ns\<rparr>)"
  by (auto simp: getOperatorConfig_def trace_def outcome_def Let_def defaultOperatorName_def
      split: sum.split option.split)

text \<open>
  C37. One namespace everywhere: when the pod's namespace variable does not change during start-up,
  both reconcilers end up in the namespace of the event filter, of the watched ConfigMap and of
  the provider registration, so the filter lets through exactly the events of the namespace the
  reconciler works in.
\<close>

theorem one_namespace:
  fixes a :: "'e api"
  assumes "\<And>k. apiGetenv a k ''POD_NAMESPACE'' = pod" "outcome (loadedSetup a) w = Inr s"
  shows "OperatorNamespace (targetRequests s) = watchedNamespace s
     \<and> pcOperatorNamespace (providerConfigs s) = watchedNamespace s
     \<and> fst (watchedConfigMap s) = watchedNamespace s \<and> fst (registeredProvider s) = watchedNamespace s
     \<and> (NewNamespaceFilter (watchedNamespace s) ev \<longleftrightarrow> fst (eventObject ev) = OperatorNamespace (targetRequests s))"
proof -
  have filter: "NewNamespaceFilter ns ev \<longleftrightarrow> fst (eventObject ev) = ns" for ns
    by (cases ev) (simp_all add: NewNamespaceFilter_def)
  have conf: "yields (\<lambda>c. \<forall>cfg. c = Inr cfg \<longrightarrow> ocOperatorNamespace cfg = (if pod = [] then dflt else pod))
      (getOperatorConfig a dflt)" for dflt
    using assms(1) by (auto simp: yields_def getOperatorConfig_def Let_def split: sum.splits option.splits)
  have main: "yields (\<lambda>s. let ns = (if pod = [] then ''krkn-operator-system'' else pod) in
      watchedNamespace s = ns \<and> loaderNamespace s = ns \<and> fst (watchedConfigMap s) = ns \<and> fst (registeredProvider s) = ns)
      (mainSetup a)"
    using assms(1) by (simp add: yields_def mainSetup_def Let_def)
  have start: "yields (\<lambda>l. \<forall>t p. l = Inr (t, Some p) \<longrightarrow> OperatorNamespace t = (if pod = [] then dflt else pod)
        \<and> pcOperatorNamespace p = (if pod = [] then dflt else pod))
      (ConfigLoader_Start a dflt t0 (Some p0))" for dflt t0 p0
    unfolding ConfigLoader_Start_def by (rule yields_bind[OF conf]) (auto intro!: yield split: option.splits)
  have some: "yields (\<lambda>l. \<forall>t p. l = Inr (t, p) \<longrightarrow> p \<noteq> None) (ConfigLoader_Start a dflt t0 (Some p0))" for dflt t0 p0
    unfolding ConfigLoader_Start_def by (auto intro!: yield split: option.splits)
  have "yields (\<lambda>l. \<forall>s. l = Inr s \<longrightarrow> OperatorNamespace (targetRequests s) = watchedNamespace s
     \<and> pcOperatorNamespace (providerConfigs s) = watchedNamespace s
     \<and> fst (watchedConfigMap s) = watchedNamespace s \<and> fst (registeredProvider s) = watchedNamespace s) (loadedSetup a)"
    unfolding loadedSetup_def
  proof (rule yields_bind[OF main])
    fix s :: "'e mainSettings"
    assume s: "let ns = (if pod = [] then ''krkn-operator-system'' else pod) in
      watchedNamespace s = ns \<and> loaderNamespace s = ns \<and> fst (watchedConfigMap s) = ns \<and> fst (registeredProvider s) = ns"
    have both: "yields (\<lambda>l. \<forall>t p. l = Inr (t, p) \<longrightarrow> (\<exists>q. p = Some q \<and> OperatorNamespace t = watchedNamespace s
        \<and> pcOperatorNamespace q = watchedNamespace s))
      (ConfigLoader_Start a (loaderNamespace s) (targetRequests s) (Some (providerConfigs s)))"
      using start[of "loaderNamespace s" "targetRequests s" "providerConfigs s"]
        some[of "loaderNamespace s" "targetRequests s" "providerConfigs s"] s
      unfolding yields_def by (fastforce simp: Let_def)
    show "yields (\<lambda>l. \<forall>s. l = Inr s \<longrightarrow> OperatorNamespace (targetRequests s) = watchedNamespace s
     \<and> pcOperatorNamespace (providerConfigs s) = watchedNamespace s
     \<and> fst (watchedConfigMap s) = watchedNamespace s \<and> fst (registeredProvider s) = watchedNamespace s)
      (ConfigLoader_Start a (loaderNamespace s) (targetRequests s) (Some (providerConfigs s)) \<bind>
       (\<lambda>l. ret (case l of Inl e \<Rightarrow> Inl e
          | Inr (t, p) \<Rightarrow> Inr (s\<lparr>targetRequests := t,
              providerConfigs := (case p of Some q \<Rightarrow> q | None \<Rightarrow> providerConfigs s)\<rparr>))))"
      by (rule yields_bind[OF both], rule yields_ret) (use s in \<open>auto simp: Let_def split: sum.splits\<close>)
  qed
  from yields_outcome[OF this, of w] assms(2) filter show ?thesis by simp
qed

definition podApi :: "cluster api" where
  "podApi = refApi\<lparr>apiGetenv := (\<lambda>k n. if n = ''POD_NAMESPACE'' then ''krkn'' else [])\<rparr>"

definition renamedCluster :: cluster where
  "renamedCluster = (pendingCluster [''c1''])\<lparr>kConfigMaps := [((''krkn'', ''krkn-operator-config''),
     \<lparr>cmName = ''krkn-operator-config'', cmNamespace = ''krkn'', cmData = Some [(''operator-name'', ''acm-east'')]\<rparr>)]\<rparr>"

lemma renamedSetup:
  "\<exists>s. outcome (loadedSetup podApi) (inCluster renamedCluster) = Inr s
     \<and> OperatorName (targetRequests s) = ''acm-east'' \<and> OperatorNamespace (targetRequests s) = ''krkn''
     \<and> registeredProvider s = (''krkn'', ''krkn-operator-acm'')"
  by (simp add: outcome_def loadedSetup_def mainSetup_def ConfigLoader_Start_def getOperatorConfig_def podApi_def
      renamedCluster_def lookupOr_def mapGet_def Let_def defaultOperatorName_def ACMIntegrationConfigMapName_def)

theorem one_namespace_witness:
  "\<exists>s. outcome (loadedSetup podApi) (inCluster renamedCluster) = Inr s
     \<and> OperatorNamespace (targetRequests s) = watchedNamespace s"
proof -
  from renamedSetup obtain s where s: "outcome (loadedSetup podApi) (inCluster renamedCluster) = Inr s" by blast
  have env: "apiGetenv podApi k ''POD_NAMESPACE'' = ''krkn''" for k by (simp add: podApi_def)
  from one_namespace[OF env s] s show ?thesis by blast
qed


end
