(* ===== verification/Startup.thy ===== *)
theory Startup
  imports OperatorMain
begin

text \<open>
  Starting the process, \<^verbatim>\<open>main\<close> of \<^verbatim>\<open>cmd/main.go\<close>: the flags and how Go's \<^verbatim>\<open>flag\<close> package reads
  them, the TLS options of the metrics and webhook servers with the slices they are kept in, the
  certificate watchers, the options of the manager, and the order in which controllers, runnables
  and checks are added to it before it is started, each failure ending the process with code 1.
  What controller-runtime and certwatcher answer is a parameter, \<open>'e manager\<close>: an error or none
  per call.
\<close>

section \<open>Flags\<close>

record flags =
  metricsAddr :: string
  probeAddr :: string
  enableLeaderElection :: bool
  secureMetrics :: bool
  webhookCertPath :: string
  webhookCertName :: string
  webhookCertKey :: string
  metricsCertPath :: string
  metricsCertName :: string
  metricsCertKey :: string
  enableHTTP2 :: bool

definition defaultFlags :: flags where
  "defaultFlags = \<lparr>metricsAddr = ''0'', probeAddr = '':8081'', enableLeaderElection = False,
     secureMetrics = True, webhookCertPath = [], webhookCertName = ''tls.crt'', webhookCertKey = ''tls.key'',
     metricsCertPath = [], metricsCertName = ''tls.crt'', metricsCertKey = ''tls.key'', enableHTTP2 = False\<rparr>"

text \<open>
  A flag has a setter, which may refuse the value, and takes an argument or not.  The flags of
  libraries (zap's, and controller-runtime's kubeconfig) are a parameter: whether such a flag is
  boolean, and which values it accepts.
\<close>

type_synonym libraryFlags = "string \<Rightarrow> (bool \<times> (string \<Rightarrow> bool)) option"

definition parseBool :: "string \<Rightarrow> bool option" where
  "parseBool s =
     (if s \<in> set [''1'', ''t'', ''T'', ''true'', ''TRUE'', ''True''] then Some True
      else if s \<in> set [''0'', ''f'', ''F'', ''false'', ''FALSE'', ''False''] then Some False
      else None)"

definition stringFlags :: "(string \<times> (string \<Rightarrow> flags \<Rightarrow> flags)) list" where
  "stringFlags = [
     (''metrics-bind-address'', \<lambda>v f. f\<lparr>metricsAddr := v\<rparr>),
     (''health-probe-bind-address'', \<lambda>v f. f\<lparr>probeAddr := v\<rparr>),
     (''webhook-cert-path'', \<lambda>v f. f\<lparr>webhookCertPath := v\<rparr>),
     (''webhook-cert-name'', \<lambda>v f. f\<lparr>webhookCertName := v\<rparr>),
     (''webhook-cert-key'', \<lambda>v f. f\<lparr>webhookCertKey := v\<rparr>),
     (''metrics-cert-path'', \<lambda>v f. f\<lparr>metricsCertPath := v\<rparr>),
     (''metrics-cert-name'', \<lambda>v f. f\<lparr>metricsCertName := v\<rparr>),
     (''metrics-cert-key'', \<lambda>v f. f\<lparr>metricsCertKey := v\<rparr>)]"

definition boolFlags :: "(string \<times> (bool \<Rightarrow> flags \<Rightarrow> flags)) list" where
  "boolFlags = [
     (''leader-elect'', \<lambda>b f. f\<lparr>enableLeaderElection := b\<rparr>),
     (''metrics-secure'', \<lambda>b f. f\<lparr>secureMetrics := b\<rparr>),
     (''enable-http2'', \<lambda>b f. f\<lparr>enableHTTP2 := b\<rparr>)]"

definition lookupFlag :: "libraryFlags \<Rightarrow> string \<Rightarrow> (bool \<times> (string \<Rightarrow> flags \<Rightarrow> flags option)) option" where
  "lookupFlag lib name =
     (case map_of boolFlags name of
        Some setter \<Rightarrow> Some (True, \<lambda>v f. map_option (\<lambda>b. setter b f) (parseBool v))
      | None \<Rightarrow>
          (case map_of stringFlags name of
             Some setter \<Rightarrow> Some (False, \<lambda>v f. Some (setter v f))
           | None \<Rightarrow> map_option (\<lambda>(isBool, accepts). (isBool, \<lambda>v f. if accepts v then Some f else None)) (lib name)))"

text \<open>The name and the value of an argument: the first \<^verbatim>\<open>=\<close>, which cannot come first.\<close>

fun splitValue :: "string \<Rightarrow> string \<times> string option" where
  "splitValue [] = ([], None)"
| "splitValue (c # s) =
     (if s \<noteq> [] \<and> hd s = CHR ''='' then ([c], Some (tl s))
      else (case splitValue s of (n, v) \<Rightarrow> (c # n, v)))"

text \<open>
  Reading the command line: one argument after the other, as \<^verbatim>\<open>FlagSet.parseOne\<close> does, until one is
  no flag.  The result is the code the process exits with, 0 after a request for help and 2 after
  an error, or nothing, or the flags so far and the arguments left.
\<close>

definition setFlag :: "(string \<Rightarrow> flags \<Rightarrow> flags option) \<Rightarrow> string \<Rightarrow> flags \<Rightarrow> string list \<Rightarrow>
    nat + (flags \<times> string list) option" where
  "setFlag setter v f rest = (case setter v f of None \<Rightarrow> Inl 2 | Some f' \<Rightarrow> Inr (Some (f', rest)))"

definition parseOne :: "libraryFlags \<Rightarrow> string \<Rightarrow> string list \<Rightarrow> flags \<Rightarrow> nat + (flags \<times> string list) option" where
  "parseOne lib s args f =
     (if length s < 2 \<or> hd s \<noteq> CHR ''-'' then Inr None
      else if s = ''--'' then Inr None
      else let name = (if s ! 1 = CHR ''-'' then drop 2 s else drop 1 s) in
        if hd name = CHR ''-'' \<or> hd name = CHR ''='' then Inl 2
        else case splitValue name of (name, value) \<Rightarrow>
          (case lookupFlag lib name of
             None \<Rightarrow> Inl (if name = ''help'' \<or> name = ''h'' then 0 else 2)
           | Some (isBool, setter) \<Rightarrow>
               (case value of
                  Some v \<Rightarrow> setFlag setter v f args
                | None \<Rightarrow>
                    if isBool then setFlag setter ''true'' f args
                    else (case args of [] \<Rightarrow> Inl 2 | v # rest \<Rightarrow> setFlag setter v f rest))))"

lemma parseOne_cases:
  assumes "parseOne lib s args f = Inr (Some (f', rest))"
  obtains (set) name given isBool setter v where
    "splitValue (if s ! 1 = CHR ''-'' then drop 2 s else drop 1 s) = (name, given)"
    "\<not> length s < 2" "hd s = CHR ''-''" "lookupFlag lib name = Some (isBool, setter)" "setter v f = Some f'"
    "rest = args \<or> (\<exists>x. args = x # rest)"
  using assms that unfolding parseOne_def setFlag_def Let_def
  by (auto split: if_splits prod.splits option.splits list.splits)

lemma parseOne_rest: "parseOne lib s args f = Inr (Some (f', rest)) \<Longrightarrow> length rest \<le> length args \<and> set rest \<subseteq> set args"
  by (erule parseOne_cases) auto

function parseFlags :: "libraryFlags \<Rightarrow> string list \<Rightarrow> flags \<Rightarrow> nat + flags" where
  "parseFlags lib [] f = Inr f"
| "parseFlags lib (s # args) f =
     (case parseOne lib s args f of
        Inl code \<Rightarrow> Inl code
      | Inr None \<Rightarrow> Inr f
      | Inr (Some (f', rest)) \<Rightarrow> parseFlags lib rest f')"
  by pat_completeness auto
termination
  by (relation "measure (\<lambda>(lib, args, f). length args)") (auto dest: parseOne_rest)

section \<open>Paths\<close>

text \<open>\<^verbatim>\<open>filepath.Join\<close> and the lexical cleaning it does.\<close>

fun splitOn :: "char \<Rightarrow> string \<Rightarrow> string list" where
  "splitOn c [] = [[]]"
| "splitOn c (x # xs) =
     (if x = c then [] # splitOn c xs
      else (case splitOn c xs of [] \<Rightarrow> [[x]] | w # ws \<Rightarrow> (x # w) # ws))"

definition cleanElement :: "bool \<Rightarrow> string list \<Rightarrow> string \<Rightarrow> string list" where
  "cleanElement rooted out e =
     (if e = [] \<or> e = ''.'' then out
      else if e = ''..'' then
        (if out \<noteq> [] \<and> last out \<noteq> ''..'' then butlast out else if rooted then out else out @ [''..''])
      else out @ [e])"

definition pathClean :: "string \<Rightarrow> string" where
  "pathClean s =
     (if s = [] then ''.''
      else let rooted = (hd s = CHR ''/'');
               body = Join (foldl (cleanElement rooted) [] (splitOn (CHR ''/'') s)) ''/''
           in if rooted then CHR ''/'' # body else if body = [] then ''.'' else body)"

definition filepathJoin :: "string list \<Rightarrow> string" where
  "filepathJoin elems =
     (case dropWhile (\<lambda>e. e = []) elems of [] \<Rightarrow> [] | es \<Rightarrow> pathClean (Join es ''/''))"

section \<open>TLS options\<close>

text \<open>
  A TLS option is one of the two closures of \<^verbatim>\<open>main\<close>; a watcher is what \<^verbatim>\<open>certwatcher.New\<close> returns
  for two files.
\<close>

record certWatcher =
  watchedCert :: string
  watchedKey :: string

datatype tlsOption = DisableHTTP2 | ServeCertificate certWatcher

record tlsConfig =
  nextProtos :: "string list"
  getCertificate :: "certWatcher option"

fun applyOption :: "tlsConfig \<Rightarrow> tlsOption \<Rightarrow> tlsConfig" where
  "applyOption c DisableHTTP2 = c\<lparr>nextProtos := [''http/1.1'']\<rparr>"
| "applyOption c (ServeCertificate x) = c\<lparr>getCertificate := Some x\<rparr>"

text \<open>
  The options are kept in Go slices.  A slice is the address of an array and a length; \<^verbatim>\<open>append\<close>
  writes behind the slice when the array has room there and copies to a new array otherwise.
  How much room the new array has is left open by the language: \<open>spare n\<close> cells when a slice of
  length \<open>n\<close> is copied.  Cells not written are nil.  The nil slice is the empty array's.
\<close>

type_synonym arrays = "tlsOption option list list"

record slice =
  slArray :: nat
  slLen :: nat

definition noArrays :: arrays where
  "noArrays = [[]]"

definition nilSlice :: slice where
  "nilSlice = \<lparr>slArray = 0, slLen = 0\<rparr>"

definition goAppend :: "(nat \<Rightarrow> nat) \<Rightarrow> tlsOption \<Rightarrow> arrays \<times> slice \<Rightarrow> arrays \<times> slice" where
  "goAppend spare x h = (case h of (arrs, s) \<Rightarrow>
     (let cells = arrs ! slArray s; n = slLen s in
      if n < length cells then (arrs[slArray s := cells[n := Some x]], s\<lparr>slLen := Suc n\<rparr>)
      else (arrs @ [take n cells @ [Some x] @ replicate (spare n) None], \<lparr>slArray = length arrs, slLen = Suc n\<rparr>)))"

definition elements :: "arrays \<Rightarrow> slice \<Rightarrow> tlsOption option list" where
  "elements arrs s = take (slLen s) (arrs ! slArray s)"

text \<open>Serving with nil among the options panics; otherwise they are applied in order.\<close>

definition serverConfig :: "tlsOption option list \<Rightarrow> tlsConfig \<Rightarrow> tlsConfig option" where
  "serverConfig opts c = (if None \<in> set opts then None else Some (foldl applyOption c (map the opts)))"

section \<open>The manager\<close>

record managerOptions =
  metricsBindAddress :: string
  metricsSecureServing :: bool
  metricsFiltered :: bool  \<comment> \<open>requests to the metrics are authenticated and authorised\<close>
  metricsTLSOpts :: "tlsOption option list"
  webhookServerTLSOpts :: "tlsOption option list"
  healthProbeBindAddress :: string
  leaderElection :: bool
  leaderElectionID :: string

datatype eventFilter = AllEvents | InNamespace string | OneConfigMap string string

record controllerSpec =
  controllerFor :: string
  controllerName :: string
  controllerFilter :: eventFilter

fun passes :: "eventFilter \<Rightarrow> event \<Rightarrow> bool" where
  "passes AllEvents ev = True"
| "passes (InNamespace ns) ev = NewNamespaceFilter ns ev"
| "passes (OneConfigMap name ns) ev = NewConfigMapFilter name ns ev"

datatype runnable =
    ConfigLoader string  \<comment> \<open>default namespace\<close>
  | ProviderRegistration string string nat  \<comment> \<open>provider, namespace, seconds between heartbeats\<close>
  | CertificateWatcher certWatcher

datatype startCall =
    CNewCertWatcher certWatcher
  | CGetConfigOrDie
  | CNewManager managerOptions
  | CSetupController controllerSpec
  | CAddRunnable runnable
  | CAddHealthzCheck string
  | CAddReadyzCheck string
  | CStartManager

type_synonym 'e manager = "startCall \<Rightarrow> 'e \<Rightarrow> err option \<times> 'e"

type_synonym ('e, 'a) startProg = "(startCall, 'e, 'a) Prelude.prog"

definition TargetRequest_SetupWithManager :: "'e KrknTargetRequestReconciler \<Rightarrow> controllerSpec" where
  "TargetRequest_SetupWithManager r = \<lparr>controllerFor = ''KrknTargetRequest'',
     controllerName = ''krkntargetrequest'', controllerFilter = InNamespace (OperatorNamespace r)\<rparr>"

definition ProviderConfig_SetupWithManager :: "KrknOperatorTargetProviderConfigReconciler \<Rightarrow> controllerSpec" where
  "ProviderConfig_SetupWithManager r = \<lparr>controllerFor = ''KrknOperatorTargetProviderConfig'',
     controllerName = ''krknoperatortargetproviderconfig'', controllerFilter = AllEvents\<rparr>"

definition ConfigMap_SetupWithManager :: "nsname \<Rightarrow> controllerSpec" where
  "ConfigMap_SetupWithManager cm = \<lparr>controllerFor = ''ConfigMap'', controllerName = ''configmap'',
     controllerFilter = OneConfigMap (snd cm) (fst cm)\<rparr>"

section \<open>Main\<close>

text \<open>
  The process goes on after a call without an error and exits with 1 otherwise.
\<close>

definition perform :: "'e manager \<Rightarrow> startCall \<Rightarrow> ('e, nat + unit) startProg" where
  "perform a c = do { e \<leftarrow> call c (a c); ret (case e of Some _ \<Rightarrow> Inl 1 | None \<Rightarrow> Inr ()) }"

definition orExit :: "('e, nat + 'a) startProg \<Rightarrow> ('a \<Rightarrow> ('e, nat + 'b) startProg) \<Rightarrow> ('e, nat + 'b) startProg" where
  "orExit m f = do { x \<leftarrow> m; case x of Inl code \<Rightarrow> ret (Inl code) | Inr y \<Rightarrow> f y }"

definition newCertWatcher :: "'e manager \<Rightarrow> string \<Rightarrow> string \<Rightarrow> string \<Rightarrow>
    ('e, nat + certWatcher option) startProg" where
  "newCertWatcher a path name key =
     (if length path > 0 then
        (let watcher = \<lparr>watchedCert = filepathJoin [path, name], watchedKey = filepathJoin [path, key]\<rparr>
         in orExit (perform a (CNewCertWatcher watcher)) (\<lambda>_. ret (Inr (Some watcher))))
      else ret (Inr None))"

definition appendWatcher :: "(nat \<Rightarrow> nat) \<Rightarrow> certWatcher option \<Rightarrow> arrays \<times> slice \<Rightarrow> arrays \<times> slice" where
  "appendWatcher spare watcher h =
     (case watcher of None \<Rightarrow> h | Some x \<Rightarrow> goAppend spare (ServeCertificate x) h)"

definition baseTLSOpts :: "(nat \<Rightarrow> nat) \<Rightarrow> flags \<Rightarrow> arrays \<times> slice" where
  "baseTLSOpts spare f =
     (if \<not> enableHTTP2 f then goAppend spare DisableHTTP2 (noArrays, nilSlice) else (noArrays, nilSlice))"

text \<open>What is added to the manager, in order; the last of it starts it.\<close>

definition wiring :: "'e mainSettings \<Rightarrow> certWatcher option \<Rightarrow> certWatcher option \<Rightarrow> startCall list" where
  "wiring s metricsCertWatcher webhookCertWatcher =
     [CSetupController (TargetRequest_SetupWithManager (targetRequests s)),
      CSetupController (ProviderConfig_SetupWithManager (providerConfigs s)),
      CSetupController (ConfigMap_SetupWithManager (watchedConfigMap s)),
      CAddRunnable (ConfigLoader (loaderNamespace s)),
      CAddRunnable (ProviderRegistration (snd (registeredProvider s)) (fst (registeredProvider s)) 30)]
     @ (case metricsCertWatcher of Some x \<Rightarrow> [CAddRunnable (CertificateWatcher x)] | None \<Rightarrow> [])
     @ (case webhookCertWatcher of Some x \<Rightarrow> [CAddRunnable (CertificateWatcher x)] | None \<Rightarrow> [])
     @ [CAddHealthzCheck ''healthz'', CAddReadyzCheck ''readyz'', CStartManager]"

fun inOrder :: "'e manager \<Rightarrow> startCall list \<Rightarrow> ('e, nat + unit) startProg" where
  "inOrder a [] = ret (Inr ())"
| "inOrder a (c # cs) = orExit (perform a c) (\<lambda>_. inOrder a cs)"

text \<open>The environment variables are read after the manager is there.\<close>

definition startManager :: "'e manager \<Rightarrow> 'e api \<Rightarrow> certWatcher option \<Rightarrow> certWatcher option \<Rightarrow>
    ('e, nat + unit) startProg" where
  "startManager a k metricsCertWatcher webhookCertWatcher = do {
     s \<leftarrow> ask (\<lambda>e. outcome (mainSetup k) \<lparr>env = e, calls = []\<rparr>);
     inOrder a (wiring s metricsCertWatcher webhookCertWatcher)
   }"

definition newManagerOptions :: "flags \<Rightarrow> arrays \<Rightarrow> slice \<Rightarrow> slice \<Rightarrow> managerOptions" where
  "newManagerOptions f arrs metricsOpts webhookOpts = \<lparr>
     metricsBindAddress = metricsAddr f, metricsSecureServing = secureMetrics f, metricsFiltered = secureMetrics f,
     metricsTLSOpts = elements arrs metricsOpts, webhookServerTLSOpts = elements arrs webhookOpts,
     healthProbeBindAddress = probeAddr f, leaderElection = enableLeaderElection f,
     leaderElectionID = ''9021e13d.krkn-chaos.dev''\<rparr>"

definition startOperator :: "(nat \<Rightarrow> nat) \<Rightarrow> 'e manager \<Rightarrow> 'e api \<Rightarrow> flags \<Rightarrow> ('e, nat + unit) startProg" where
  "startOperator spare a k f =
     (case baseTLSOpts spare f of (arrs0, tlsOpts) \<Rightarrow>
      orExit (newCertWatcher a (webhookCertPath f) (webhookCertName f) (webhookCertKey f)) (\<lambda>webhookCertWatcher.
        case appendWatcher spare webhookCertWatcher (arrs0, tlsOpts) of (arrs1, webhookTLSOpts) \<Rightarrow>
        orExit (newCertWatcher a (metricsCertPath f) (metricsCertName f) (metricsCertKey f)) (\<lambda>metricsCertWatcher.
          case appendWatcher spare metricsCertWatcher (arrs1, tlsOpts) of (arrs2, metricsOpts) \<Rightarrow>
          orExit (perform a CGetConfigOrDie) (\<lambda>_.
          orExit (perform a (CNewManager (newManagerOptions f arrs2 metricsOpts webhookTLSOpts))) (\<lambda>_.
          startManager a k metricsCertWatcher webhookCertWatcher)))))"

text \<open>The whole of \<^verbatim>\<open>main\<close>: the exit code, or \<open>Inr ()\<close> when it returns.\<close>

definition main_run :: "(nat \<Rightarrow> nat) \<Rightarrow> libraryFlags \<Rightarrow> 'e manager \<Rightarrow> 'e api \<Rightarrow> string list \<Rightarrow>
    ('e, nat + unit) startProg" where
  "main_run spare lib a k args =
     (case parseFlags lib args defaultFlags of
        Inl code \<Rightarrow> ret (Inl code)
      | Inr f \<Rightarrow> startOperator spare a k f)"

section \<open>Facts: the command line\<close>

lemma splitValue_join: "splitValue s = (n, v) \<Longrightarrow> s = n @ (case v of None \<Rightarrow> [] | Some x \<Rightarrow> CHR ''='' # x)"
  by (induction s arbitrary: n v rule: splitValue.induct)
    (auto split: if_splits prod.splits option.splits simp: neq_Nil_conv)

lemma splitValue_name:
  "n \<noteq> [] \<Longrightarrow> CHR ''='' \<notin> set n \<Longrightarrow> splitValue (n @ CHR ''='' # v) = (n, Some v)"
proof (induction n)
  case (Cons c n)
  then show ?case by (cases n) auto
qed simp

text \<open>A setter other than that of \<^verbatim>\<open>enable-http2\<close> leaves the flag alone.\<close>

lemma lookupFlag_http2:
  assumes "lookupFlag lib name = Some (b, setter)" "name \<noteq> ''enable-http2''" "setter v f = Some f'"
  shows "enableHTTP2 f' = enableHTTP2 f"
proof (cases "map_of boolFlags name")
  case (Some set1)
  then have "enableHTTP2 (set1 x f) = enableHTTP2 f" for x
    using assms(2) by (auto simp: boolFlags_def split: if_splits)
  then show ?thesis using assms(1,3) Some by (auto simp: lookupFlag_def)
next
  case None
  show ?thesis
  proof (cases "map_of stringFlags name")
    case (Some set2)
    then have "enableHTTP2 (set2 x f) = enableHTTP2 f" for x
      by (auto simp: stringFlags_def split: if_splits)
    then show ?thesis using assms(1,3) None Some by (auto simp: lookupFlag_def)
  next
    case n: None
    then show ?thesis using assms(1,3) None by (auto simp: lookupFlag_def split: if_splits)
  qed
qed

definition asksHTTP2 :: "string \<Rightarrow> bool" where
  "asksHTTP2 s = (take 13 s = ''-enable-http2'' \<or> take 14 s = ''--enable-http2'')"

lemma asksHTTP2_name:
  assumes "splitValue (if s ! 1 = CHR ''-'' then drop 2 s else drop 1 s) = (''enable-http2'', v)"
    and "\<not> length s < 2" "hd s = CHR ''-''"
  shows "asksHTTP2 s"
proof -
  obtain c t where s: "s = CHR ''-'' # c # t" using assms(2,3) by (cases s; cases "tl s") auto
  from splitValue_join[OF assms(1)] show ?thesis
    by (auto simp: s asksHTTP2_def split: if_splits)
qed

lemma parseOne_http2:
  assumes "parseOne lib s args f = Inr (Some (f', rest))" "\<not> asksHTTP2 s"
  shows "enableHTTP2 f' = enableHTTP2 f"
  using assms(1)
proof (cases rule: parseOne_cases)
  case (set name given isBool setter v)
  have "name \<noteq> ''enable-http2''" using asksHTTP2_name set(1-3) assms(2) by auto
  from lookupFlag_http2[OF set(4) this set(5)] show ?thesis .
qed

lemma parseFlags_http2:
  "parseFlags lib args f = Inr f' \<Longrightarrow> list_all (\<lambda>s. \<not> asksHTTP2 s) args \<Longrightarrow> enableHTTP2 f' = enableHTTP2 f"
proof (induction lib args f rule: parseFlags.induct)
  case (2 lib s args f)
  then show ?case
    using parseOne_http2[of lib s args f] parseOne_rest[of lib s args f]
    by (force simp: list_all_iff split: sum.splits option.splits)
qed simp

section \<open>Facts: starting\<close>

lemma run_orExit: "run_state (orExit m f) w = (case run_state m w of (Inl c, w') \<Rightarrow> (Inl c, w') | (Inr y, w') \<Rightarrow> run_state (f y) w')"
  by (simp add: orExit_def split: prod.split sum.split)

lemma only_orExit: "only P m \<Longrightarrow> (\<And>y. only P (f y)) \<Longrightarrow> only P (orExit m f)"
  unfolding orExit_def by (intro wp)

lemma only_perform: "P c \<Longrightarrow> only P (perform a c)"
  unfolding perform_def by (intro wp)

lemma only_inOrder: "list_all P cs \<Longrightarrow> only P (inOrder a cs)"
  by (induction cs) (auto intro: only_orExit only_perform)

lemma orExit_assoc: "orExit (orExit m f) g = orExit m (\<lambda>y. orExit (f y) g)"
  by (rule state.expand) (auto simp: run_orExit fun_eq_iff split: prod.split sum.split)

lemma orExit_ret [simp]: "orExit (ret (Inr y)) f = f y"
  by (rule state.expand) (simp add: run_orExit fun_eq_iff)

lemma inOrder_append: "inOrder a (cs @ ds) = orExit (inOrder a cs) (\<lambda>_. inOrder a ds)"
  by (induction cs) (simp_all add: orExit_assoc)

text \<open>
  Abstractly, starting attempts a list of calls in order until one fails.
\<close>

fun attempt :: "'e manager \<Rightarrow> startCall list \<Rightarrow> 'e \<Rightarrow> startCall list \<times> bool" where
  "attempt a [] e = ([], True)"
| "attempt a (c # cs) e =
     (case a c e of
        (Some _, e') \<Rightarrow> ([c], False)
      | (None, e') \<Rightarrow> (case attempt a cs e' of (tried, ok) \<Rightarrow> (c # tried, ok)))"

lemma inOrder_attempt:
  "fst (run_state (inOrder a cs) w) = (if snd (attempt a cs (env w)) then Inr () else Inl 1)
   \<and> calls (snd (run_state (inOrder a cs) w)) = calls w @ fst (attempt a cs (env w))"
  by (induction cs arbitrary: w)
    (auto simp: run_orExit perform_def split: prod.split option.split sum.split)

lemma attempt_prefix: "\<exists>rest. cs = fst (attempt a cs e) @ rest \<and> (snd (attempt a cs e) \<longrightarrow> rest = [])"
proof (induction cs arbitrary: e)
  case (Cons c cs)
  obtain r e' where c: "a c e = (r, e')" by fastforce
  from Cons.IH[of e'] show ?case by (cases r; cases "attempt a cs e'") (auto simp: c)
qed simp

text \<open>The watcher of a server's certificate, and the options of the two servers.\<close>

definition certFiles :: "string \<Rightarrow> string \<Rightarrow> string \<Rightarrow> certWatcher option" where
  "certFiles path name key =
     (if path = [] then None
      else Some \<lparr>watchedCert = filepathJoin [path, name], watchedKey = filepathJoin [path, key]\<rparr>)"

definition webhookFiles :: "flags \<Rightarrow> certWatcher option" where
  "webhookFiles f = certFiles (webhookCertPath f) (webhookCertName f) (webhookCertKey f)"

definition metricsFiles :: "flags \<Rightarrow> certWatcher option" where
  "metricsFiles f = certFiles (metricsCertPath f) (metricsCertName f) (metricsCertKey f)"

definition optionsFor :: "(nat \<Rightarrow> nat) \<Rightarrow> flags \<Rightarrow> managerOptions" where
  "optionsFor spare f =
     (case baseTLSOpts spare f of (arrs0, tlsOpts) \<Rightarrow>
      case appendWatcher spare (webhookFiles f) (arrs0, tlsOpts) of (arrs1, webhookTLSOpts) \<Rightarrow>
      case appendWatcher spare (metricsFiles f) (arrs1, tlsOpts) of (arrs2, metricsOpts) \<Rightarrow>
      newManagerOptions f arrs2 metricsOpts webhookTLSOpts)"

definition watcherCalls :: "certWatcher option \<Rightarrow> startCall list" where
  "watcherCalls x = (case x of None \<Rightarrow> [] | Some y \<Rightarrow> [CNewCertWatcher y])"

definition preparation :: "(nat \<Rightarrow> nat) \<Rightarrow> flags \<Rightarrow> startCall list" where
  "preparation spare f = watcherCalls (webhookFiles f) @ watcherCalls (metricsFiles f)
     @ [CGetConfigOrDie, CNewManager (optionsFor spare f)]"

lemma newCertWatcher_inOrder:
  "newCertWatcher a path name key
   = orExit (inOrder a (watcherCalls (certFiles path name key))) (\<lambda>_. ret (Inr (certFiles path name key)))"
  by (simp add: newCertWatcher_def certFiles_def watcherCalls_def orExit_assoc Let_def)

lemma startOperator_inOrder:
  "startOperator spare a k f
   = orExit (inOrder a (preparation spare f)) (\<lambda>_. startManager a k (metricsFiles f) (webhookFiles f))"
  by (simp add: startOperator_def preparation_def inOrder_append orExit_assoc newCertWatcher_inOrder
      webhookFiles_def metricsFiles_def optionsFor_def split: prod.split)

text \<open>Everything \<^verbatim>\<open>main\<close> asks for once the flags are read, in order.\<close>

definition startCalls :: "(nat \<Rightarrow> nat) \<Rightarrow> 'e api \<Rightarrow> flags \<Rightarrow> 'e \<Rightarrow> startCall list" where
  "startCalls spare k f e = preparation spare f
     @ wiring (outcome (mainSetup k) \<lparr>env = e, calls = []\<rparr>) (metricsFiles f) (webhookFiles f)"

lemma mainSetup_fixed:
  assumes "\<And>e n. apiGetenv k e n = getenv n"
  shows "outcome (mainSetup k) \<lparr>env = e, calls = []\<rparr> = outcome (mainSetup k) \<lparr>env = e', calls = []\<rparr>"
  by (simp add: outcome_def mainSetup_def assms Let_def)

lemma startOperator_fixed:
  assumes "\<And>e n. apiGetenv k e n = getenv n"
  shows "startOperator spare a k f = inOrder a (startCalls spare k f e)"
proof -
  have fixed: "(\<lambda>e'. outcome (mainSetup k) \<lparr>env = e', calls = []\<rparr>) = (\<lambda>_. outcome (mainSetup k) \<lparr>env = e, calls = []\<rparr>)"
    by (rule ext) (rule mainSetup_fixed[OF assms])
  have "startManager a k m x = inOrder a (wiring (outcome (mainSetup k) \<lparr>env = e, calls = []\<rparr>) m x)" for m x
    unfolding startManager_def fixed by (rule state.expand) (simp add: fun_eq_iff)
  then show ?thesis by (simp add: startOperator_inOrder startCalls_def inOrder_append)
qed

lemma wiring_last:
  "wiring s m x = butlast (wiring s m x) @ [CStartManager] \<and> CStartManager \<notin> set (butlast (wiring s m x))"
  by (cases m; cases x) (simp_all add: wiring_def)

lemma startCalls_last:
  "\<exists>cs. startCalls spare k f e = cs @ [CStartManager] \<and> CStartManager \<notin> set cs"
proof -
  have "CStartManager \<notin> set (preparation spare f)"
    by (cases "webhookFiles f"; cases "metricsFiles f") (simp_all add: preparation_def watcherCalls_def)
  with wiring_last show ?thesis unfolding startCalls_def by (metis append.assoc Un_iff set_append)
qed

lemma startOperator_options:
  "CNewManager m \<in> set (trace (startOperator spare a k f) w) \<Longrightarrow> m = optionsFor spare f"
proof -
  assume m: "CNewManager m \<in> set (trace (startOperator spare a k f) w)"
  let ?P = "\<lambda>c. c = CNewManager m \<longrightarrow> m = optionsFor spare f"
  have "only ?P (startManager a k x y)" for x y
    unfolding startManager_def
    by (intro wp only_inOrder) (simp add: wiring_def split: option.split)
  then have "only ?P (startOperator spare a k f)"
    unfolding startOperator_inOrder
    by (intro only_orExit only_inOrder) (simp_all add: preparation_def watcherCalls_def split: option.split)
  from only_trace[OF this m] show ?thesis by simp
qed

lemma main_options:
  assumes "CNewManager m \<in> set (trace (main_run spare lib a k args) w)"
  obtains f where "parseFlags lib args defaultFlags = Inr f" "m = optionsFor spare f"
  using assms startOperator_options[of m spare a k]
  by (auto simp: main_run_def trace_def split: sum.splits)

section \<open>Facts: the options\<close>

definition certOption :: "certWatcher option \<Rightarrow> tlsOption option list" where
  "certOption x = (case x of None \<Rightarrow> [] | Some y \<Rightarrow> [Some (ServeCertificate y)])"

lemmas slice_defs = goAppend_def elements_def noArrays_def nilSlice_def baseTLSOpts_def appendWatcher_def
  optionsFor_def newManagerOptions_def certOption_def nth_append

lemma options_elements:
  assumes "spare 0 = 0"
  shows "webhookServerTLSOpts (optionsFor spare f) = (if enableHTTP2 f then [] else [Some DisableHTTP2]) @ certOption (webhookFiles f)"
    "metricsTLSOpts (optionsFor spare f) = (if enableHTTP2 f then [] else [Some DisableHTTP2]) @ certOption (metricsFiles f)"
  by (simp_all add: slice_defs assms split: option.split)

lemma options_http1:
  assumes "\<not> enableHTTP2 f"
  shows "\<exists>xs. webhookServerTLSOpts (optionsFor spare f) = Some DisableHTTP2 # xs \<and> (\<forall>x\<in>set xs. \<exists>y. x = Some (ServeCertificate y))"
    "\<exists>xs. metricsTLSOpts (optionsFor spare f) = Some DisableHTTP2 # xs \<and> (\<forall>x\<in>set xs. \<exists>y. x = Some (ServeCertificate y))"
  by (cases "spare 0"; simp add: slice_defs assms split: option.split)+

lemma serverConfig_http1:
  assumes "\<forall>x\<in>set xs. \<exists>y. x = Some (ServeCertificate y)"
  shows "\<exists>c'. serverConfig (Some DisableHTTP2 # xs) c = Some c' \<and> nextProtos c' = [''http/1.1'']"
proof -
  have "nextProtos (foldl applyOption d (map the xs)) = nextProtos d" for d
    using assms by (induction xs arbitrary: d) auto
  moreover have "None \<notin> set xs" using assms by auto
  ultimately show ?thesis by (simp add: serverConfig_def)
qed

text \<open>A command line that sets every flag, and reading one flag of it.\<close>

definition renderFlag :: "string \<Rightarrow> string \<Rightarrow> string" where
  "renderFlag name v = ''--'' @ name @ ''='' @ v"

definition renderBool :: "bool \<Rightarrow> string" where
  "renderBool b = (if b then ''true'' else ''false'')"

definition renderFlags :: "flags \<Rightarrow> string list" where
  "renderFlags f = [
     renderFlag ''enable-http2'' (renderBool (enableHTTP2 f)),
     renderFlag ''metrics-cert-key'' (metricsCertKey f),
     renderFlag ''metrics-cert-name'' (metricsCertName f),
     renderFlag ''metrics-cert-path'' (metricsCertPath f),
     renderFlag ''webhook-cert-key'' (webhookCertKey f),
     renderFlag ''webhook-cert-name'' (webhookCertName f),
     renderFlag ''webhook-cert-path'' (webhookCertPath f),
     renderFlag ''metrics-secure'' (renderBool (secureMetrics f)),
     renderFlag ''leader-elect'' (renderBool (enableLeaderElection f)),
     renderFlag ''health-probe-bind-address'' (probeAddr f),
     renderFlag ''metrics-bind-address'' (metricsAddr f)]"

lemma parseOne_render:
  assumes "n \<noteq> []" "CHR ''='' \<notin> set n" "hd n \<noteq> CHR ''-''" "lookupFlag lib n = Some (isBool, setter)"
  shows "parseOne lib (renderFlag n v) args f = setFlag setter v f args"
proof -
  have "hd n \<noteq> CHR ''=''" using assms(1,2) hd_in_set by metis
  then show ?thesis
    using assms splitValue_name[OF assms(1,2), of v]
    by (simp add: parseOne_def renderFlag_def Let_def hd_append)
qed

lemma parseBool_render [simp]: "parseBool (renderBool b) = Some b"
  by (simp add: parseBool_def renderBool_def)

lemma parseFlags_string:
  assumes "n \<noteq> []" "CHR ''='' \<notin> set n" "hd n \<noteq> CHR ''-''" "map_of boolFlags n = None" "map_of stringFlags n = Some setter"
  shows "parseFlags lib (renderFlag n v # args) f = parseFlags lib args (setter v f)"
proof -
  have "lookupFlag lib n = Some (False, \<lambda>v f. Some (setter v f))" using assms(4,5) by (simp add: lookupFlag_def)
  from parseOne_render[OF assms(1-3) this] show ?thesis by (simp add: setFlag_def)
qed

lemma parseFlags_bool:
  assumes "n \<noteq> []" "CHR ''='' \<notin> set n" "hd n \<noteq> CHR ''-''" "map_of boolFlags n = Some setter"
  shows "parseFlags lib (renderFlag n (renderBool b) # args) f = parseFlags lib args (setter b f)"
proof -
  have "lookupFlag lib n = Some (True, \<lambda>v f. map_option (\<lambda>b. setter b f) (parseBool v))"
    using assms(4) by (simp add: lookupFlag_def)
  from parseOne_render[OF assms(1-3) this] show ?thesis by (simp add: setFlag_def)
qed

section \<open>An example\<close>

text \<open>A manager that never fails, and a command line that gives both servers certificates.\<close>

definition agreeable :: "'e manager" where
  "agreeable c e = (None, e)"

definition certArgs :: "string list" where
  "certArgs = [renderFlag ''metrics-cert-path'' ''/certs/m/'', renderFlag ''webhook-cert-path'' ''/certs/w'',
     renderFlag ''leader-elect'' ''true'']"

definition certFlags :: flags where
  "certFlags = defaultFlags\<lparr>metricsCertPath := ''/certs/m/'', webhookCertPath := ''/certs/w'', enableLeaderElection := True\<rparr>"

lemma certArgs_parse: "parseFlags lib certArgs defaultFlags = Inr certFlags"
proof -
  have "parseFlags lib [renderFlag ''leader-elect'' (renderBool True)] f = Inr (f\<lparr>enableLeaderElection := True\<rparr>)" for f
    by (subst parseFlags_bool) (simp_all add: boolFlags_def)
  then have "parseFlags lib [renderFlag ''leader-elect'' ''true''] f = Inr (f\<lparr>enableLeaderElection := True\<rparr>)" for f
    by (simp only: renderBool_def if_True)
  then show ?thesis
    unfolding certArgs_def
    by (simp add: parseFlags_string boolFlags_def stringFlags_def certFlags_def del: parseFlags.simps)
qed

lemma podApi_env: "apiGetenv podApi e n = (if n = ''POD_NAMESPACE'' then ''krkn'' else [])"
  by (simp add: podApi_def)

lemma agreeable_trace:
  "trace (main_run spare lib agreeable podApi certArgs) w = startCalls spare podApi certFlags (env w)"
proof -
  have "attempt agreeable cs e = (cs, True)" for cs :: "startCall list" and e :: cluster
    by (induction cs) (simp_all add: agreeable_def)
  moreover have "startOperator spare agreeable podApi certFlags = inOrder agreeable (startCalls spare podApi certFlags (env w))"
    by (rule startOperator_fixed[OF podApi_env])
  ultimately show ?thesis
    using inOrder_attempt[of agreeable "startCalls spare podApi certFlags (env w)" w]
    by (simp add: main_run_def certArgs_parse trace_def)
qed

lemma agreeable_manager:
  "CNewManager (optionsFor spare certFlags) \<in> set (trace (main_run spare lib agreeable podApi certArgs) w)"
  by (simp add: agreeable_trace startCalls_def preparation_def)

section \<open>Properties\<close>

text \<open>
  The flags round-trip: a command line that gives a value to each of the operator's flags is
  read back as exactly those values, whatever was set before it and whatever flags libraries add.
\<close>

theorem flags_roundtrip: "parseFlags lib (renderFlags f @ args) f0 = parseFlags lib args f"
  unfolding renderFlags_def append.simps
  by (((rule trans[OF parseFlags_bool], simp, simp, simp, (simp add: boolFlags_def; fail))
      | (rule trans[OF parseFlags_string], simp, simp, simp, (simp add: boolFlags_def; fail),
          (simp add: stringFlags_def; fail)))+, cases f, cases f0, simp)

text \<open>
  C35. Without a word of \<^verbatim>\<open>enable-http2\<close> on the command line neither server offers HTTP/2: every
  manager \<^verbatim>\<open>main\<close> creates gets TLS options for the metrics and for the webhook server that leave
  \<^verbatim>\<open>http/1.1\<close> as the only protocol, whatever the other arguments, and however \<^verbatim>\<open>append\<close> lays out
  its arrays.
\<close>

theorem http2_off_unless_asked:
  assumes "list_all (\<lambda>s. \<not> asksHTTP2 s) args" "CNewManager m \<in> set (trace (main_run spare lib a k args) w)"
    and "opts \<in> {metricsTLSOpts m, webhookServerTLSOpts m}"
  shows "\<exists>c'. serverConfig opts c = Some c' \<and> nextProtos c' = [''http/1.1'']"
proof -
  from main_options[OF assms(2)] obtain f where f: "parseFlags lib args defaultFlags = Inr f" "m = optionsFor spare f" .
  have "\<not> enableHTTP2 f" using parseFlags_http2[OF f(1) assms(1)] by (simp add: defaultFlags_def)
  from options_http1[OF this, of spare] obtain xs where
    "opts = Some DisableHTTP2 # xs" "\<forall>x\<in>set xs. \<exists>y. x = Some (ServeCertificate y)"
    using assms(3) f(2) by auto
  then show ?thesis using serverConfig_http1 by simp
qed

theorem http2_off_unless_asked_witness:
  "\<exists>c'. serverConfig (metricsTLSOpts (optionsFor (\<lambda>n. n) certFlags)) \<lparr>nextProtos = [''h2'', ''http/1.1''], getCertificate = None\<rparr>
     = Some c' \<and> nextProtos c' = [''http/1.1'']"
  by (rule http2_off_unless_asked[OF _ agreeable_manager[of "\<lambda>n. n"]])
    (simp_all add: certArgs_def renderFlag_def asksHTTP2_def)

text \<open>
  C36. Each server serves its own certificate: when an appended slice has no spare room after the
  first element, as in Go's runtime, the metrics and the webhook server's options set the
  protocols the flag asks for and the certificate of their own files, if a path was given for
  them, and nothing of the other server's.
\<close>

theorem servers_use_own_certificates:
  assumes "spare 0 = 0" "parseFlags lib args defaultFlags = Inr f"
    and "CNewManager m \<in> set (trace (main_run spare lib a k args) w)"
  shows "serverConfig (webhookServerTLSOpts m) c = Some \<lparr>
       nextProtos = (if enableHTTP2 f then nextProtos c else [''http/1.1'']),
       getCertificate = (if webhookCertPath f = [] then getCertificate c
         else Some \<lparr>watchedCert = filepathJoin [webhookCertPath f, webhookCertName f],
                    watchedKey = filepathJoin [webhookCertPath f, webhookCertKey f]\<rparr>)\<rparr>
    \<and> serverConfig (metricsTLSOpts m) c = Some \<lparr>
       nextProtos = (if enableHTTP2 f then nextProtos c else [''http/1.1'']),
       getCertificate = (if metricsCertPath f = [] then getCertificate c
         else Some \<lparr>watchedCert = filepathJoin [metricsCertPath f, metricsCertName f],
                    watchedKey = filepathJoin [metricsCertPath f, metricsCertKey f]\<rparr>)\<rparr>"
proof -
  from main_options[OF assms(3)] assms(2) have m: "m = optionsFor spare f" by force
  show ?thesis
    by (cases c) (simp add: m options_elements assms(1) certOption_def webhookFiles_def metricsFiles_def
        certFiles_def serverConfig_def)
qed

theorem servers_use_own_certificates_witness:
  "map_option getCertificate (serverConfig (webhookServerTLSOpts (optionsFor (\<lambda>_. 0) certFlags))
       \<lparr>nextProtos = [], getCertificate = None\<rparr>)
     = Some (Some \<lparr>watchedCert = ''/certs/w/tls.crt'', watchedKey = ''/certs/w/tls.key''\<rparr>)
   \<and> map_option getCertificate (serverConfig (metricsTLSOpts (optionsFor (\<lambda>_. 0) certFlags))
       \<lparr>nextProtos = [], getCertificate = None\<rparr>)
     = Some (Some \<lparr>watchedCert = ''/certs/m/tls.crt'', watchedKey = ''/certs/m/tls.key''\<rparr>)"
proof -
  have join: "filepathJoin [''/certs/w'', ''tls.crt''] = ''/certs/w/tls.crt''"
    "filepathJoin [''/certs/w'', ''tls.key''] = ''/certs/w/tls.key''"
    "filepathJoin [''/certs/m/'', ''tls.crt''] = ''/certs/m/tls.crt''"
    "filepathJoin [''/certs/m/'', ''tls.key''] = ''/certs/m/tls.key''" by code_simp+
  show ?thesis
    using servers_use_own_certificates[OF _ certArgs_parse agreeable_manager[of "\<lambda>_. 0"],
        of "\<lparr>nextProtos = [], getCertificate = None\<rparr>"]
    by (simp add: join certFlags_def defaultFlags_def)
qed

text \<open>
  That depends on the room \<^verbatim>\<open>append\<close> leaves: both servers' options start from the same slice, so
  with a spare cell after the first element the second append overwrites the first and the webhook
  server gets the certificate of the metrics server.
\<close>

theorem shared_array_swaps_certificates:
  "spare 0 = 1 \<Longrightarrow> \<not> enableHTTP2 f \<Longrightarrow> metricsFiles f = Some x \<Longrightarrow> webhookFiles f \<noteq> None \<Longrightarrow>
   webhookServerTLSOpts (optionsFor spare f) = [Some DisableHTTP2, Some (ServeCertificate x)]"
  by (auto simp: slice_defs)

text \<open>
  C34. The manager is started last and only when everything is in place: with environment variables
  that do not change meanwhile, \<^verbatim>\<open>main\<close> attempts certificate watchers, manager, the three
  controllers, the loader, the provider registration, the watchers and the checks in this order
  up to the first error, which ends the process with code 1; the manager is started only after
  all of them succeeded, and \<^verbatim>\<open>main\<close> returns only when that went well too.
\<close>

theorem manager_started_last:
  fixes a :: "'e manager"
  assumes "\<And>e n. apiGetenv k e n = getenv n" "parseFlags lib args defaultFlags = Inr f"
  shows "let cs = startCalls spare k f (env w); p = main_run spare lib a k args
    in trace p w = fst (attempt a cs (env w))
     \<and> outcome p w = (if snd (attempt a cs (env w)) then Inr () else Inl 1)
     \<and> (CStartManager \<in> set (trace p w) \<longrightarrow> trace p w = cs)"
proof -
  let ?cs = "startCalls spare k f (env w)"
  have p: "main_run spare lib a k args = inOrder a ?cs"
    unfolding main_run_def assms(2) sum.case by (rule startOperator_fixed[OF assms(1)])
  have tr: "trace (inOrder a ?cs) w = fst (attempt a ?cs (env w))"
    "outcome (inOrder a ?cs) w = (if snd (attempt a ?cs (env w)) then Inr () else Inl 1)"
    using inOrder_attempt[of a ?cs w] by (simp_all add: trace_def outcome_def)
  from attempt_prefix[of ?cs a "env w"] obtain rest where rest: "?cs = fst (attempt a ?cs (env w)) @ rest" by blast
  from startCalls_last[of spare k f "env w"] obtain cs where
    cs: "?cs = cs @ [CStartManager]" "CStartManager \<notin> set cs" by blast
  have "rest = []" if "CStartManager \<in> set (fst (attempt a ?cs (env w)))"
  proof (cases rest rule: rev_cases)
    case (snoc ys y)
    have "fst (attempt a ?cs (env w)) @ ys = cs" using rest cs(1) unfolding snoc by (metis append.assoc butlast_snoc)
    with that cs(2) show ?thesis by auto
  qed
  then have "CStartManager \<in> set (fst (attempt a ?cs (env w))) \<longrightarrow> fst (attempt a ?cs (env w)) = ?cs"
    using rest by (metis append_Nil2)
  then show ?thesis unfolding Let_def p tr by blast
qed

theorem manager_started_last_witness:
  "let cs = startCalls (\<lambda>_. 0) podApi certFlags emptyCluster;
       p = main_run (\<lambda>_. 0) (\<lambda>_. None) agreeable podApi certArgs
   in CStartManager \<in> set (trace p \<lparr>env = emptyCluster, calls = []\<rparr>)
      \<and> trace p \<lparr>env = emptyCluster, calls = []\<rparr> = cs"
proof -
  have "CStartManager \<in> set (trace (main_run (\<lambda>_. 0) (\<lambda>_. None) agreeable podApi certArgs) \<lparr>env = emptyCluster, calls = []\<rparr>)"
    by (simp add: agreeable_trace startCalls_def wiring_def)
  with manager_started_last[OF podApi_env certArgs_parse, of "\<lambda>_. 0" "\<lparr>env = emptyCluster, calls = []\<rparr>" "\<lambda>_. None" agreeable]
  show ?thesis unfolding Let_def world.simps by blast
qed

end
