(* ===== verification/SecretWrites.thy ===== *)
theory SecretWrites
  imports TargetRequestProps
begin

text \<open>
  The type of the shared secret's content: whatever text is found, reading it gives maps with each
  key once, so whatever a reconciliation writes is text every operator can read, with the writer's
  contribution in it.
\<close>

section \<open>Reading gives well-formed maps\<close>

lemma foldE_invariant:
  assumes "foldE f xs a = Inr b" "I a" "\<And>x a a'. x \<in> set xs \<Longrightarrow> I a \<Longrightarrow> f x a = Inr a' \<Longrightarrow> I a'"
  shows "I b"
  using assms
proof (induction xs arbitrary: a)
  case (Cons x xs)
  then obtain a' where "f x a = Inr a'" "foldE f xs a' = Inr b" by (auto split: sum.splits)
  then show ?case using Cons.IH[of a'] Cons.prems by (metis list.set_intros)
qed simp

lemma decMap_wf:
  assumes "decMap zero dec v None = Inr m"
    and "\<And>v x. dec v zero = Inr x \<Longrightarrow> R x"
  shows "mapWf m \<and> (\<forall>k x. mapGet m k = Some x \<longrightarrow> R x)"
proof (cases v)
  case (JObj kvs)
  from assms(1) have "foldE (\<lambda>kv m. case dec (snd kv) zero of Inl e \<Rightarrow> Inl e | Inr x \<Rightarrow> mapPut (fst kv) x m)
      kvs emptyMap = Inr m" by (simp add: decMap_def JObj)
  then show ?thesis
    by (rule foldE_invariant) (auto simp: mapWf_put mapGet_put assms(2) split: sum.splits if_splits)
qed (use assms(1) in \<open>simp_all add: decMap_def\<close>)

lemma decClusterMap_wf: "decClusterMap v None = Inr m \<Longrightarrow> mapWf m"
  unfolding decClusterMap_def by (drule decMap_wf[where R = "\<lambda>_. True"]) simp_all

lemma decOperatorData_wf: "decOperatorData v None = Inr m \<Longrightarrow> dataWf m"
  unfolding decOperatorData_def dataWf_def by (rule decMap_wf[where R = mapWf, OF _ decClusterMap_wf])

lemma dataWf_single: "mapWf v \<Longrightarrow> dataWf (Some [(p, v)])"
  by (auto simp: dataWf_def mapWf_def mapKeys_def mapGet_def split: if_splits)

lemma parseOperatorData_wf: "parseOperatorData text = Inr m \<Longrightarrow> dataWf m"
  unfolding parseOperatorData_def
  by (auto split: option.splits sum.splits intro: decOperatorData_wf dataWf_single decClusterMap_wf)

lemma existingOperatorData_wf: "existingOperatorData s = Inr m \<Longrightarrow> dataWf m"
  by (auto simp: existingOperatorData_def split: option.splits if_splits intro: parseOperatorData_wf)

section \<open>What is written\<close>

text \<open>A content that every operator can read and that holds this operator's clusters.\<close>

definition readableContent :: "string \<Rightarrow> (string \<times> string) list option \<Rightarrow> bool" where
  "readableContent oper d = (\<exists>text clusters. d = Some [(''managed-clusters'', text)] \<and> validText text
     \<and> lookText text oper = Some clusters \<and> (\<forall>n c. clusters n = Some c \<longrightarrow> cdClusterName c = n))"

fun readableWrite :: "string \<Rightarrow> apiCall \<Rightarrow> bool" where
  "readableWrite oper (CCreateSecret s) = readableContent oper (secData s)"
| "readableWrite oper (CUpdateSecret s) = readableContent oper (secData s)"
| "readableWrite oper c = True"

lemma readableWrite_read: "\<not> writes c \<Longrightarrow> readableWrite oper c"
  by (cases c) simp_all

text \<open>\<^verbatim>\<open>ctrl.SetControllerReference\<close> leaves the content of the object alone.\<close>

definition keepsContent :: "'e api \<Rightarrow> bool" where
  "keepsContent a = (\<forall>t s s'. apiSetControllerReference a t s = Inr s' \<longrightarrow> secData s' = secData s)"

lemma stored_readable:
  assumes "mapPut oper v m = Inr m'" "dataWf m" "mapWf v" "\<forall>n c. mapGet v n = Some c \<longrightarrow> cdClusterName c = n"
  shows "readableContent oper (Some [(''managed-clusters'', jsonPrint (encOperatorData m'))])"
proof -
  have wf: "dataWf m'" by (rule dataWf_put[OF assms(1-3)])
  have "m' \<noteq> None" using assms(1) by (auto simp: mapPut_def split: option.splits)
  then have "validText (jsonPrint (encOperatorData m'))"
    unfolding validText_def by (intro exI[of _ "sortedData m'"]) (simp add: parse_stored wf dataWf_sortedData)
  moreover have "lookText (jsonPrint (encOperatorData m')) oper = Some (mapGet v)"
    by (simp add: lookText_def parse_stored wf entryOf_sortedData entryOf_put[OF assms(1)])
  ultimately show ?thesis using assms(4) unfolding readableContent_def by blast
qed

lemma readable_storeOperatorData:
  assumes "keepsContent a" "dataWf m" "mapWf v" "\<forall>n c. mapGet v n = Some c \<longrightarrow> cdClusterName c = n"
  shows "only (readableWrite (OperatorName r)) (storeOperatorData a r t ex m v)"
proof (cases "mapPut (OperatorName r) v m")
  case (Inr m')
  let ?sec = "\<lparr>secName = trUUID t, secNamespace = OperatorNamespace r, secResourceVersion = [], secOwners = [],
     secData = Some [(''managed-clusters'', jsonPrint (encOperatorData m'))]\<rparr>"
  have "readableContent (OperatorName r) (secData s)" if "apiSetControllerReference a t ?sec = Inr s" for s
  proof -
    have "secData s = secData ?sec" using assms(1) that unfolding keepsContent_def by blast
    with stored_readable[OF Inr assms(2-4)] show ?thesis by simp
  qed
  then show ?thesis
    unfolding storeOperatorData_def Inr sum.case Let_def by (intro wp) simp_all
qed (simp add: storeOperatorData_def only_ret)

lemma readable_createManagedClustersSecret:
  assumes "keepsContent a" "mapWf v" "\<forall>n c. mapGet v n = Some c \<longrightarrow> cdClusterName c = n"
  shows "only (readableWrite (OperatorName r)) (createManagedClustersSecret a r t v)"
  unfolding createManagedClustersSecret_def
  by (intro wp readable_storeOperatorData assms) (auto intro: existingOperatorData_wf)

lemma readable_contribution:
  assumes "soundProbes a r good" "keepsContent a"
  shows "only (readableWrite (OperatorName r)) (contributeTargets a r ps t0)"
proof (rule only_contributeTargets[OF assms(1) readableWrite_read _ getManagedClusters_any])
  fix mcs ips cd ts
  assume R: "reportFor good ips (cd, ts)"
  then have d: "distinct (map fst cd)" and e: "\<forall>nd\<in>set cd. explained good ips ts nd" by (simp_all add: reportFor_def)
  from e have "\<forall>n c. mapGet (Some cd) n = Some c \<longrightarrow> cdClusterName c = n"
    by (auto simp: mapGet_def explained_def targetFor_def Let_def dest!: map_of_SomeD)
  then show "only (readableWrite (OperatorName r)) (createManagedClustersSecret a r t0 (Some cd))
      \<and> only (readableWrite (OperatorName r)) (publishTargets a r ps t0 ts)"
    unfolding publishTargets_def cleanupAndReturn_def cleanupOldTargetRequests_def Let_def
    by (intro conjI readable_createManagedClustersSecret[OF assms(2)] wp) (simp_all add: mapWf_def mapKeys_def d)
qed simp_all

section \<open>Property\<close>

text \<open>
  C18. Every secret a reconciliation writes is well-typed: whatever the API answers and whatever
  the secret held before, its content is the one entry \<^verbatim>\<open>managed-clusters\<close> with a text that every
  operator's parser reads as a map of maps, each key once, with this operator's clusters in it,
  each filed under its own name.
\<close>

theorem written_secrets_readable:
  assumes "soundProbes a r good" "keepsContent a"
  shows "list_all (readableWrite (OperatorName r)) (trace (TargetRequest_Reconcile a r req) w)"
proof (rule only_list_all)
  have "only (readableWrite (OperatorName r)) (awaitOthers a r ps t)" for ps t
    unfolding awaitOthers_def cleanupAndReturn_def cleanupOldTargetRequests_def by (intro wp) simp_all
  then show "only (readableWrite (OperatorName r)) (TargetRequest_Reconcile a r req)"
    unfolding TargetRequest_Reconcile_def processRequest_def initializeRequest_def initializeStatus_def Let_def
    by (intro wp readable_contribution[OF assms]) simp_all
qed

lemma refApi_keepsContent: "keepsContent refApi"
  by (auto simp: keepsContent_def refSetController_def split: if_splits)

theorem written_secrets_readable_witness:
  "list_all (readableWrite ''acm'')
     (trace (TargetRequest_Reconcile refApi (exampleReconciler\<lparr>clusterLivenessProbe := None\<rparr>) (''krkn'', ''req''))
       (inCluster (pendingCluster [''c1'', ''c2''])))"
  using written_secrets_readable[OF exampleProbes refApi_keepsContent, of "(''krkn'', ''req'')" "inCluster (pendingCluster [''c1'', ''c2''])"]
  by (simp add: exampleReconciler_def)

end
