(* ===== verification/Interleaving.thy ===== *)
theory Interleaving
  imports TargetRequest
begin

text \<open>
  Several operators work on the same request at the same time.  \<open>interleavedApi\<close> is the API
  server of \<^verbatim>\<open>ReferenceApi\<close> in which, before every single call of the code, the other actors
  may change the cluster: the environment carries, besides the cluster, what they will do before
  each of the next calls.  The result is a rely-guarantee pair: if the others only ever move a
  request forward (\<open>requestProgress\<close>), so does every reconciliation of this operator, wherever
  it is interrupted.
\<close>

section \<open>Effects of calls\<close>

text \<open>What a call does to the cluster of the reference API.\<close>

fun refEffect :: "apiCall \<Rightarrow> cluster \<Rightarrow> cluster" where
  "refEffect (CUpdateTargetRequest t) k = snd (refUpdateRequest False t k)"
| "refEffect (CStatusUpdateTargetRequest t) k = snd (refUpdateRequest True t k)"
| "refEffect (CUpdateProviderConfigObject c) k = snd (refUpdateConfig False c k)"
| "refEffect (CStatusUpdateProviderConfig c) k = snd (refUpdateConfig True c k)"
| "refEffect (CContributeProviderConfig c oper cm ns schema) k = snd (refContribute c oper schema k)"
| "refEffect (CCreateSecret s) k = snd (refCreateSecret s k)"
| "refEffect (CUpdateSecret s) k = snd (refUpdateSecret s k)"
| "refEffect (CCreateManifestWork m) k = snd (apiCreateManifestWork refApi m k)"
| "refEffect (CSyncConfigMap cm) k = snd (apiSyncConfigMap refApi cm k)"
| "refEffect c k = k"

type_synonym others = "nat \<Rightarrow> cluster \<Rightarrow> cluster"

definition amid :: "(cluster \<Rightarrow> 'a \<times> cluster) \<Rightarrow> cluster \<times> others \<Rightarrow> 'a \<times> cluster \<times> others" where
  "amid f e = (case f (snd e 0 (fst e)) of (x, k) \<Rightarrow> (x, k, \<lambda>n. snd e (Suc n)))"

definition interleavedApi :: "(cluster \<times> others) api" where
  "interleavedApi = \<lparr>
     apiGetTargetRequest = (\<lambda>n. amid (apiGetTargetRequest refApi n)),
     apiUpdateTargetRequest = (\<lambda>t. amid (apiUpdateTargetRequest refApi t)),
     apiStatusUpdateTargetRequest = (\<lambda>t. amid (apiStatusUpdateTargetRequest refApi t)),
     apiCleanupTargetRequests = (\<lambda>ns s. amid (apiCleanupTargetRequests refApi ns s)),
     apiGetProviderConfig = (\<lambda>n. amid (apiGetProviderConfig refApi n)),
     apiUpdateProviderConfigObject = (\<lambda>c. amid (apiUpdateProviderConfigObject refApi c)),
     apiStatusUpdateProviderConfig = (\<lambda>c. amid (apiStatusUpdateProviderConfig refApi c)),
     apiCleanupProviderConfigs = (\<lambda>ns s. amid (apiCleanupProviderConfigs refApi ns s)),
     apiContributeProviderConfig = (\<lambda>c oper cm ns s. amid (apiContributeProviderConfig refApi c oper cm ns s)),
     apiListProviders = (\<lambda>ns. amid (apiListProviders refApi ns)),
     apiListManagedClusters = amid (apiListManagedClusters refApi),
     apiMarshalList = apiMarshalList refApi,
     apiGetSecret = (\<lambda>n. amid (apiGetSecret refApi n)),
     apiCreateSecret = (\<lambda>s. amid (apiCreateSecret refApi s)),
     apiUpdateSecret = (\<lambda>s. amid (apiUpdateSecret refApi s)),
     apiListSecrets = (\<lambda>ns. amid (apiListSecrets refApi ns)),
     apiSetControllerReference = apiSetControllerReference refApi,
     apiGetConfigMap = (\<lambda>n. amid (apiGetConfigMap refApi n)),
     apiGetManagedProxyConfiguration = (\<lambda>n. amid (apiGetManagedProxyConfiguration refApi n)),
     apiGetManifestWork = (\<lambda>n. amid (apiGetManifestWork refApi n)),
     apiCreateManifestWork = (\<lambda>m. amid (apiCreateManifestWork refApi m)),
     apiListServices = (\<lambda>ns ls. amid (apiListServices refApi ns ls)),
     apiNestedString = apiNestedString refApi,
     apiNestedSlice = apiNestedSlice refApi,
     apiYamlUnmarshal = apiYamlUnmarshal refApi,
     apiSyncConfigMap = (\<lambda>cm. amid (apiSyncConfigMap refApi cm)),
     apiGetValue = (\<lambda>e. apiGetValue refApi (fst e)),
     apiGetenv = (\<lambda>e. apiGetenv refApi (fst e)),
     apiReadFile = (\<lambda>p e. apiReadFile refApi p (fst e)),
     apiNow = (\<lambda>e. apiNow refApi (fst e)),
     apiUrlParse = apiUrlParse refApi,
     apiValidCerts = apiValidCerts refApi,
     apiSystemCertPool = (\<lambda>e. apiSystemCertPool refApi (fst e)),
     apiNewRequestError = apiNewRequestError refApi,
     apiHttpGet = (\<lambda>t u. amid (apiHttpGet refApi t u)),
     apiCheckClusterLiveness = (\<lambda>c t. amid (apiCheckClusterLiveness refApi c t))\<rparr>"

text \<open>One call amid the others, and a program all of whose calls are such.\<close>

definition amidBy :: "(apiCall \<Rightarrow> cluster \<Rightarrow> cluster) \<Rightarrow> apiCall \<Rightarrow> cluster \<times> others \<Rightarrow> cluster \<times> others" where
  "amidBy eff c e = (eff c (snd e 0 (fst e)), \<lambda>n. snd e (Suc n))"

abbreviation amidEffect :: "apiCall \<Rightarrow> cluster \<times> others \<Rightarrow> cluster \<times> others" where
  "amidEffect \<equiv> amidBy refEffect"

definition followsBy :: "(apiCall \<Rightarrow> cluster \<Rightarrow> cluster) \<Rightarrow> (cluster \<times> others, 'a) prog \<Rightarrow> bool" where
  "followsBy eff m = (\<forall>w. \<exists>cs. calls (snd (run_state m w)) = calls w @ cs
     \<and> env (snd (run_state m w)) = fold (amidBy eff) cs (env w))"

abbreviation follows :: "(cluster \<times> others, 'a) prog \<Rightarrow> bool" where
  "follows \<equiv> followsBy refEffect"

named_theorems amid_rules \<open>rules for programs that act through calls only\<close>

lemma follows_ret [amid_rules]: "followsBy eff (ret x)"
  by (simp add: followsBy_def)

lemma follows_ask [amid_rules]: "followsBy eff (ask f)"
  by (simp add: followsBy_def)

lemma follows_call: "(\<And>e. snd (f e) = amidBy eff c e) \<Longrightarrow> followsBy eff (call c f)"
  by (simp add: followsBy_def)

lemma follows_bind [amid_rules]:
  assumes "followsBy eff m" "\<And>x. followsBy eff (f x)"
  shows "followsBy eff (m \<bind> f)"
proof -
  have "\<exists>cs. calls (snd (run_state (m \<bind> f) w)) = calls w @ cs
      \<and> env (snd (run_state (m \<bind> f) w)) = fold (amidBy eff) cs (env w)" for w
  proof (cases "run_state m w")
    case (Pair x w')
    from assms(1)[unfolded followsBy_def, rule_format, of w] Pair obtain cs where
      1: "calls w' = calls w @ cs" "env w' = fold (amidBy eff) cs (env w)" by auto
    from assms(2)[of x, unfolded followsBy_def, rule_format, of w'] obtain ds where
      2: "calls (snd (run_state (f x) w')) = calls w' @ ds"
      "env (snd (run_state (f x) w')) = fold (amidBy eff) ds (env w')" by auto
    from 1 2 Pair show ?thesis by (intro exI[of _ "cs @ ds"]) simp
  qed
  then show ?thesis by (simp add: followsBy_def)
qed

lemma follows_cases [amid_rules]:
  "(b \<Longrightarrow> followsBy eff m) \<Longrightarrow> (\<not> b \<Longrightarrow> followsBy eff n) \<Longrightarrow> followsBy eff (if b then m else n)"
  "(\<And>e. followsBy eff (f e)) \<Longrightarrow> (\<And>y. followsBy eff (g y)) \<Longrightarrow> followsBy eff (case s of Inl e \<Rightarrow> f e | Inr y \<Rightarrow> g y)"
  "followsBy eff m \<Longrightarrow> (\<And>y. followsBy eff (h y)) \<Longrightarrow> followsBy eff (case opt of None \<Rightarrow> m | Some y \<Rightarrow> h y)"
  "followsBy eff m \<Longrightarrow> (\<And>y ys. followsBy eff (i y ys)) \<Longrightarrow> followsBy eff (case l of [] \<Rightarrow> m | y # ys \<Rightarrow> i y ys)"
  "(\<And>y z. followsBy eff (j y z)) \<Longrightarrow> followsBy eff (case p of (y, z) \<Rightarrow> j y z)"
  "followsBy eff (k v) \<Longrightarrow> followsBy eff (let y = v in k y)"
  by (simp_all split: sum.split option.split list.split prod.split)

lemma follows_mapM [amid_rules]: "(\<And>x. followsBy eff (f x)) \<Longrightarrow> followsBy eff (mapM f xs)"
  by (induction xs) (auto intro!: amid_rules)

lemma follows_foldM [amid_rules]: "(\<And>x a. followsBy eff (f x a)) \<Longrightarrow> followsBy eff (foldM f xs a)"
  by (induction xs arbitrary: a) (auto intro!: amid_rules)

lemma amid_effect: "snd (f (snd e 0 (fst e))) = eff c (snd e 0 (fst e)) \<Longrightarrow> snd (amid f e) = amidBy eff c e"
  by (simp add: amid_def amidBy_def case_prod_beta)

definition defaultProbes :: "'e KrknTargetRequestReconciler \<Rightarrow> bool" where
  "defaultProbes r = (clusterLivenessProbe r = None \<and> clusterCredentialProbe r = None)"

text \<open>
  The API servers this holds of: every call acts as \<open>refEffect\<close> says, after what the others do
  before it, and the answers about requests are those of the reference API.
\<close>

locale acts_by_calls =
  fixes api :: "(cluster \<times> others) api"
  assumes get_request: "apiGetTargetRequest api n = amid (apiGetTargetRequest refApi n)"
    and update_request: "apiUpdateTargetRequest api t = amid (apiUpdateTargetRequest refApi t)"
    and status_update: "apiStatusUpdateTargetRequest api t = amid (apiStatusUpdateTargetRequest refApi t)"
    and cleanup: "snd (apiCleanupTargetRequests api ns s e) = amidEffect (CCleanupTargetRequests ns s) e"
    and list_providers: "snd (apiListProviders api ns e) = amidEffect (CListProviders ns) e"
    and list_clusters: "snd (apiListManagedClusters api e) = amidEffect CListManagedClusters e"
    and secrets: "snd (apiGetSecret api n e) = amidEffect (CGetSecret n) e"
      "snd (apiCreateSecret api sec e) = amidEffect (CCreateSecret sec) e"
      "snd (apiUpdateSecret api sec e) = amidEffect (CUpdateSecret sec) e"
    and config_maps: "snd (apiGetConfigMap api n e) = amidEffect (CGetConfigMap n) e"
    and proxy_conf: "snd (apiGetManagedProxyConfiguration api n e) = amidEffect (CGetManagedProxyConfiguration n) e"
    and works: "snd (apiGetManifestWork api n e) = amidEffect (CGetManifestWork n) e"
      "snd (apiCreateManifestWork api m e) = amidEffect (CCreateManifestWork m) e"
    and services: "snd (apiListServices api ns ls e) = amidEffect (CListServices ns ls) e"
    and network: "snd (apiHttpGet api tls u e) = amidEffect (CHttpGet tls u) e"
      "snd (apiCheckClusterLiveness api kc dt e) = amidEffect (CProbeCredentials kc dt) e"
begin

lemma follows_calls [amid_rules]:
  "follows (Get_TargetRequest api n)" "follows (Update_TargetRequest api t)"
  "follows (StatusUpdate_TargetRequest api t)" "follows (Cleanup_TargetRequests api ns s)"
  "follows (List_Providers api ns)" "follows (List_ManagedClusters api)"
  "follows (Get_Secret api n)" "follows (Create_Secret api sec)"
  "follows (Update_Secret api sec)" "follows (Get_ConfigMap api n)"
  "follows (Get_ManagedProxyConfiguration api n)" "follows (Get_ManifestWork api n)"
  "follows (Create_ManifestWork api m)" "follows (List_Services api ns ls)"
  "follows (Http_Get api tls u)" "follows (Check_ClusterLiveness api kc dt)"
  by (rule follows_call, simp add: get_request update_request status_update cleanup list_providers list_clusters
      secrets config_maps proxy_conf works services network amid_effect[where eff = refEffect])+

lemma follows_probeEndpoints: "follows (probeEndpoints api tls u ps r)"
  by (induction ps arbitrary: r) (auto simp: Let_def intro!: amid_rules)

lemma follows_liveness [amid_rules]: "follows (checkClusterAPILiveness api ctx url ca)"
  unfolding checkClusterAPILiveness_def checkClusterAPILivenessWithClient_def clusterAPITLSConfig_def
  by (intro amid_rules follows_probeEndpoints)

lemma follows_proxyURL [amid_rules]: "follows (getProxyURL api c)"
  unfolding getProxyURL_def findProxyService_def by (intro amid_rules)

lemma follows_proxyCA [amid_rules]: "follows (getProxyCA api)"
  unfolding getProxyCA_def by (intro amid_rules)

lemma follows_proxyConfig [amid_rules]: "follows (getProxyConfig api ns c)"
  unfolding getProxyConfig_def isProxyModeEnabled_def ensureManifestWork_def createManifestWork_def
    getServiceAccountName_def getOperatorToken_def Let_def
  by (intro amid_rules)

lemma follows_probeInput [amid_rules]: "follows (buildProbeInput api c)"
  unfolding buildProbeInput_def resolveProxyRoute_def isProxyModeEnabled_def Let_def by (intro amid_rules)

lemma follows_secret [amid_rules]: "follows (createManagedClustersSecret api r t cd)"
  unfolding createManagedClustersSecret_def storeOperatorData_def Let_def by (intro amid_rules)

lemma follows_processCluster [amid_rules]: "defaultProbes r \<Longrightarrow> follows (processCluster api r input p)"
  unfolding processCluster_def advertiseCluster_def getClusterToken_def getConfiguredSecretName_def
    getClusterSecret_def validateClusterCredentials_def credentialProbeOf_def defaultProbes_def Let_def
  by (simp only: option.case) (intro amid_rules)

lemma follows_processClusters [amid_rules]: "defaultProbes r \<Longrightarrow> follows (processClusters api r ips)"
  unfolding processClusters_def collectCluster_def by (intro amid_rules) assumption

lemma follows_probes [amid_rules]: "defaultProbes r \<Longrightarrow> follows (probeManagedClusters api ins (livenessProbeOf api r))"
  unfolding probeManagedClusters_def probeOne_def buildClusterTargetWithProbe_def livenessProbeOf_def
    defaultProbes_def Let_def
  by (simp only: option.case) (intro amid_rules)

lemma follows_process: "defaultProbes r \<Longrightarrow> follows (processRequest api r t)"
  unfolding processRequest_def checkProviderActive_def awaitOthers_def contributeTargets_def reportProbes_def publishTargets_def cleanupAndReturn_def
    cleanupOldTargetRequests_def getManagedClusters_def Let_def
  by (intro amid_rules)

end

section \<open>Progress of a request\<close>

text \<open>
  A request advances when its status stays, starts, or goes from pending to Completed, what an
  operator has contributed stays, and a completed request keeps its data; it is written only with
  a new resource version.
\<close>

definition advances :: "KrknTargetRequest \<Rightarrow> KrknTargetRequest \<Rightarrow> bool" where
  "advances t t' =
     ((trNamespace t', trName t') = (trNamespace t, trName t)
      \<and> (trStatus t' = trStatus t \<or> trStatus t = [] \<or> (trStatus t = StatusPending \<and> trStatus t' = StatusCompleted))
      \<and> (\<forall>p ts. mapGet (trTargetData t) p = Some ts \<longrightarrow> mapGet (trTargetData t') p = Some ts)
      \<and> (trStatus t = StatusCompleted \<longrightarrow> trTargetData t' = trTargetData t \<and> trCompleted t' = trCompleted t))"

lemma advancesD:
  assumes "advances t t'"
  shows "(trNamespace t', trName t') = (trNamespace t, trName t)"
    and "trStatus t' = trStatus t \<or> trStatus t = [] \<or> (trStatus t = StatusPending \<and> trStatus t' = StatusCompleted)"
    and "mapGet (trTargetData t) p = Some ts \<Longrightarrow> mapGet (trTargetData t') p = Some ts"
    and "trStatus t = StatusCompleted \<Longrightarrow> trTargetData t' = trTargetData t \<and> trCompleted t' = trCompleted t"
  using assms unfolding advances_def by blast+

lemma advances_trans:
  assumes "advances t u" "advances u v"
  shows "advances t v"
  unfolding advances_def
proof (intro conjI allI impI)
  show "(trNamespace v, trName v) = (trNamespace t, trName t)"
    using advancesD(1)[OF assms(1)] advancesD(1)[OF assms(2)] by simp
  show "trStatus v = trStatus t \<or> trStatus t = [] \<or> (trStatus t = StatusPending \<and> trStatus v = StatusCompleted)"
    using advancesD(2)[OF assms(1)] advancesD(2)[OF assms(2)] by (elim disjE conjE) simp_all
  show "mapGet (trTargetData v) p = Some ts" if "mapGet (trTargetData t) p = Some ts" for p ts
    using that advancesD(3)[OF assms(1)] advancesD(3)[OF assms(2)] by blast
  have same: "trStatus u = StatusCompleted" if "trStatus t = StatusCompleted"
    using advancesD(2)[OF assms(1)] that by (auto simp: StatusCompleted_def StatusPending_def)
  show "trTargetData v = trTargetData t" "trCompleted v = trCompleted t" if "trStatus t = StatusCompleted"
    using advancesD(4)[OF assms(1)] advancesD(4)[OF assms(2)] same that by simp_all
qed

lemma advances_refl: "advances t t"
  by (simp add: advances_def)

definition newer :: "KrknTargetRequest \<Rightarrow> KrknTargetRequest \<Rightarrow> bool" where
  "newer t t' = (t' = t \<or> (length (trResourceVersion t) < length (trResourceVersion t') \<and> advances t t'))"

lemma newer_refl: "newer t t"
  by (simp add: newer_def)

lemma newer_trans: "newer t u \<Longrightarrow> newer u v \<Longrightarrow> newer t v"
  by (auto simp: newer_def intro: advances_trans)

lemma newer_same: "newer t u \<Longrightarrow> trResourceVersion u = trResourceVersion t \<Longrightarrow> u = t"
  by (auto simp: newer_def)

definition stored :: "nsname \<Rightarrow> cluster \<Rightarrow> KrknTargetRequest option" where
  "stored req k = map_of (kRequests k) req"

definition wellKeyed :: "nsname \<Rightarrow> cluster \<Rightarrow> bool" where
  "wellKeyed req k = (\<forall>t. stored req k = Some t \<longrightarrow> (trNamespace t, trName t) = req)"

definition requestProgress :: "nsname \<Rightarrow> cluster \<Rightarrow> cluster \<Rightarrow> bool" where
  "requestProgress req k k' = (wellKeyed req k' \<and>
     (\<forall>t. stored req k = Some t \<longrightarrow> (\<exists>t'. stored req k' = Some t' \<and> newer t t')))"

lemma requestProgress_refl: "wellKeyed req k \<Longrightarrow> requestProgress req k k"
  by (simp add: requestProgress_def newer_refl)

lemma requestProgress_trans: "requestProgress req k k' \<Longrightarrow> requestProgress req k' k'' \<Longrightarrow> requestProgress req k k''"
  unfolding requestProgress_def using newer_trans by blast

text \<open>Holding a request \<open>t\<close> that was read: the stored one is \<open>t\<close> or a newer one.\<close>

definition holds :: "nsname \<Rightarrow> KrknTargetRequest \<Rightarrow> cluster \<Rightarrow> bool" where
  "holds req t k = (wellKeyed req k \<and> (\<exists>u. stored req k = Some u \<and> newer t u))"

lemma holds_progress: "holds req t k \<Longrightarrow> requestProgress req k k' \<Longrightarrow> holds req t k'"
  unfolding holds_def requestProgress_def using newer_trans by blast

lemma holds_start: "wellKeyed req k \<Longrightarrow> stored req k = Some t \<Longrightarrow> holds req t k"
  by (simp add: holds_def newer_refl)

lemma progress_holds: "stored req k = Some t \<Longrightarrow> holds req t k' \<Longrightarrow> requestProgress req k k'"
  by (auto simp: holds_def requestProgress_def)

lemma nextVersion_longer: "length v < length (nextVersion v)"
  by (simp add: nextVersion_def)

text \<open>An update on the base of \<open>t\<close> succeeds only on \<open>t\<close> itself.\<close>

lemma update_holds:
  assumes h: "holds req t k" and v: "trResourceVersion u = trResourceVersion t"
    and adv: "statusOnly \<Longrightarrow> advances t (t\<lparr>trStatus := trStatus u, trTargetData := trTargetData u, trCompleted := trCompleted u\<rparr>)"
  shows "holds req t (snd (refUpdateRequest statusOnly u k))"
proof (cases "(trNamespace u, trName u) = req")
  case False
  then have "stored req (snd (refUpdateRequest statusOnly u k)) = stored req k"
    by (auto simp: refUpdateRequest_def stored_def Let_def update_conv' split: option.split)
  then show ?thesis using h by (simp add: holds_def wellKeyed_def)
next
  case True
  from h obtain old where old: "stored req k = Some old" "newer t old" by (auto simp: holds_def)
  show ?thesis
  proof (cases "trResourceVersion old = trResourceVersion u")
    case False
    then show ?thesis using h old True by (auto simp: refUpdateRequest_def stored_def)
  next
    case same: True
    with old v have "old = t" using newer_same by simp
    with True old same have "stored req (snd (refUpdateRequest statusOnly u k)) = Some
        (if statusOnly
         then t\<lparr>trStatus := trStatus u, trTargetData := trTargetData u, trCompleted := trCompleted u,
                trResourceVersion := nextVersion (trResourceVersion t)\<rparr>
         else t\<lparr>trLabels := trLabels u, trUUID := trUUID u, trResourceVersion := nextVersion (trResourceVersion t)\<rparr>)"
      by (simp add: refUpdateRequest_def stored_def Let_def update_conv')
    moreover have "(trNamespace t, trName t) = req" using h old \<open>old = t\<close> by (simp add: holds_def wellKeyed_def)
    moreover have "newer t (if statusOnly
         then t\<lparr>trStatus := trStatus u, trTargetData := trTargetData u, trCompleted := trCompleted u,
                trResourceVersion := nextVersion (trResourceVersion t)\<rparr>
         else t\<lparr>trLabels := trLabels u, trUUID := trUUID u, trResourceVersion := nextVersion (trResourceVersion t)\<rparr>)"
      using adv by (auto simp: newer_def nextVersion_longer advances_def)
    ultimately show ?thesis by (auto simp: holds_def wellKeyed_def)
  qed
qed

text \<open>The other actors move the request forward, before every call.\<close>

definition othersProgress :: "nsname \<Rightarrow> others \<Rightarrow> bool" where
  "othersProgress req oth = (\<forall>n k. wellKeyed req k \<longrightarrow> requestProgress req k (oth n k))"

lemma othersProgress_shift: "othersProgress req oth \<Longrightarrow> othersProgress req (\<lambda>n. oth (Suc n))"
  by (simp add: othersProgress_def)

lemma requestWrite_advances:
  "requestWrite r t (CStatusUpdateTargetRequest u) \<Longrightarrow> trStatus t = StatusPending \<Longrightarrow>
   advances t (t\<lparr>trStatus := trStatus u, trTargetData := trTargetData u, trCompleted := trCompleted u\<rparr>)"
proof -
  assume w: "requestWrite r t (CStatusUpdateTargetRequest u)" and t: "trStatus t = StatusPending"
  have "mapGet (trTargetData u) p = Some ts" if "mapGet (trTargetData t) p = Some ts" for p ts
    using that w t by (cases "p = OperatorName r") auto
  moreover have "trStatus u = StatusPending \<or> trStatus u = StatusCompleted" using w t by auto
  ultimately show ?thesis using t by (auto simp: advances_def)
qed

lemma refEffect_holds:
  assumes "requestWrite r t c" "trStatus t = StatusPending" "holds req t k"
  shows "holds req t (refEffect c k)"
proof -
  have same: "holds req t k'" if "kRequests k' = kRequests k" for k'
    using that assms(3) by (simp add: holds_def wellKeyed_def stored_def)
  show ?thesis
  proof (cases c)
    case (CUpdateTargetRequest u)
    with assms show ?thesis by simp
  next
    case (CStatusUpdateTargetRequest u)
    with assms(1,2) have "u = t\<lparr>trStatus := trStatus u, trTargetData := trTargetData u, trCompleted := trCompleted u\<rparr>"
      by simp
    from arg_cong[OF this, of trResourceVersion] have "trResourceVersion u = trResourceVersion t" by simp
    with assms CStatusUpdateTargetRequest show ?thesis
      by (auto intro!: update_holds requestWrite_advances[unfolded CStatusUpdateTargetRequest])
  qed (use assms in \<open>auto intro!: same simp: refCreateSecret_def refUpdateSecret_def split: option.split\<close>)
qed

lemma amidEffect_holds:
  assumes "requestWrite r t c" "trStatus t = StatusPending" "holds req t (fst e)" "othersProgress req (snd e)"
  shows "holds req t (fst (amidEffect c e)) \<and> othersProgress req (snd (amidEffect c e))"
proof -
  have "requestProgress req (fst e) (snd e 0 (fst e))"
    using assms(3,4) by (simp add: othersProgress_def holds_def)
  then have "holds req t (snd e 0 (fst e))" using assms(3) holds_progress by blast
  from refEffect_holds[OF assms(1,2) this] othersProgress_shift[OF assms(4)]
  show ?thesis by (simp add: amidBy_def)
qed

lemma fold_holds:
  "list_all (requestWrite r t) cs \<Longrightarrow> trStatus t = StatusPending \<Longrightarrow> holds req t (fst e) \<Longrightarrow>
   othersProgress req (snd e) \<Longrightarrow>
   holds req t (fst (fold amidEffect cs e)) \<and> othersProgress req (snd (fold amidEffect cs e))"
proof (induction cs arbitrary: e)
  case (Cons c cs)
  from Cons.prems amidEffect_holds[of r t c req e] have
    "holds req t (fst (amidEffect c e)) \<and> othersProgress req (snd (amidEffect c e))" by simp
  with Cons show ?case by simp
qed simp

lemma run_holds:
  assumes "follows m" "only (requestWrite r t) m" "trStatus t = StatusPending"
    "holds req t (fst (env w))" "othersProgress req (snd (env w))"
  shows "holds req t (fst (env (snd (run_state m w))))"
proof -
  from assms(1) obtain cs where cs: "calls (snd (run_state m w)) = calls w @ cs"
    "env (snd (run_state m w)) = fold amidEffect cs (env w)" unfolding followsBy_def by blast
  moreover from assms(2) obtain ds where "calls (snd (run_state m w)) = calls w @ ds" "list_all (requestWrite r t) ds"
    unfolding only_def by blast
  ultimately have "list_all (requestWrite r t) cs" by simp
  from fold_holds[OF this assms(3-5)] cs(2) show ?thesis by simp
qed

lemma amid_run:
  assumes "holds req t (fst e)" "othersProgress req (snd e)"
  shows "holds req t (snd e 0 (fst e))" "othersProgress req (\<lambda>n. snd e (Suc n))"
  using assms holds_progress[of req t "fst e"] othersProgress_shift by (auto simp: othersProgress_def holds_def)

lemma default_soundProbes: "defaultProbes r \<Longrightarrow> soundProbes a r (acceptedBy a)"
  by (simp add: soundProbes_default defaultProbes_def)

context acts_by_calls
begin

lemma initializeStatus_holds:
  assumes "holds req t (fst (env w))" "othersProgress req (snd (env w))" "trStatus t = []"
    and "trResourceVersion u = trResourceVersion t" "trTargetData u = trTargetData t" "trCompleted u = trCompleted t"
  shows "holds req t (fst (env (snd (run_state (initializeStatus api u) w))))"
proof -
  have "holds req t (snd (refUpdateRequest True (u\<lparr>trStatus := StatusPending\<rparr>) (snd (env w) 0 (fst (env w)))))"
    by (rule update_holds[OF amid_run(1)[OF assms(1,2)]]) (use assms(3-6) in \<open>simp_all add: advances_def\<close>)
  then show ?thesis
    by (simp add: initializeStatus_def status_update amid_def case_prod_beta)
qed

lemma initializeRequest_progress:
  assumes k: "wellKeyed req k" "stored req k = Some t" and e: "env w = (k, oth)" "othersProgress req oth"
    and t: "trStatus t = []"
  shows "requestProgress req k (fst (env (snd (run_state (initializeRequest api t) w))))"
proof -
  let ?labels = "case trLabels t of None \<Rightarrow> [] | Some al \<Rightarrow> al"
  let ?oth = "\<lambda>n. oth (Suc n)"
  have h: "holds req t (fst (env w))" "othersProgress req (snd (env w))" using holds_start[OF k] e by simp_all
  show ?thesis
  proof (cases "mapGet (Some ?labels) uuidLabel = None")
    case False
    have "holds req t (fst (env (snd (run_state (initializeStatus api (t\<lparr>trLabels := Some ?labels\<rparr>)) w))))"
      by (rule initializeStatus_holds[OF h t]) simp_all
    moreover have "initializeRequest api t = initializeStatus api (t\<lparr>trLabels := Some ?labels\<rparr>)"
      by (simp only: initializeRequest_def Let_def False if_False)
    ultimately show ?thesis using progress_holds[OF k(2)] by simp
  next
    case True
    let ?u = "t\<lparr>trLabels := Some (AList.update uuidLabel (trUUID t) ?labels)\<rparr>"
    let ?k2 = "oth 0 k"
    let ?k3 = "snd (refUpdateRequest False ?u ?k2)"
    let ?w = "w\<lparr>env := (?k3, ?oth), calls := calls w @ [CUpdateTargetRequest ?u]\<rparr>"
    have h2: "holds req t ?k2" "othersProgress req ?oth" using amid_run[OF h] e by simp_all
    have h3: "holds req t ?k3" by (rule update_holds[OF h2(1)]) simp_all
    have p3: "requestProgress req k ?k3" by (rule progress_holds[OF k(2) h3])
    have run: "run_state (initializeRequest api t) w =
        (case fst (refUpdateRequest False ?u ?k2) of
           Inl e \<Rightarrow> (if isConflict e then (requeueNow, None) else (emptyResult, Some e), ?w)
         | Inr new \<Rightarrow> run_state (initializeStatus api new) ?w)"
      using True e by (simp add: initializeRequest_def Let_def update_request amid_def case_prod_beta split: sum.split)
    show ?thesis
    proof (cases "fst (refUpdateRequest False ?u ?k2)")
      case (Inl err)
      with run p3 show ?thesis by simp
    next
      case (Inr new)
      have key: "(trNamespace t, trName t) = req" using k by (simp add: wellKeyed_def)
      from h2(1) obtain old where old: "stored req ?k2 = Some old" "newer t old" by (auto simp: holds_def)
      with Inr key have same: "trResourceVersion old = trResourceVersion t"
        by (auto simp: refUpdateRequest_def stored_def Let_def split: if_splits)
      have "old = t" by (rule newer_same[OF old(2) same])
      with old Inr key have new: "new = t\<lparr>trLabels := trLabels ?u, trUUID := trUUID t,
             trResourceVersion := nextVersion (trResourceVersion t)\<rparr>" "stored req ?k3 = Some new"
        by (auto simp: refUpdateRequest_def stored_def Let_def update_conv')
      have "holds req new ?k3" using h3 new(2) by (auto simp: holds_def newer_refl)
      then have "holds req new (fst (env (snd (run_state (initializeStatus api new) ?w))))"
        by (intro initializeStatus_holds) (use h2(2) t new(1) in simp_all)
      from progress_holds[OF new(2) this] p3 run Inr show ?thesis by (auto intro: requestProgress_trans)
    qed
  qed
qed

lemma reconcile_progress:
  assumes r: "defaultProbes r" and k: "wellKeyed req k" and oth: "othersProgress req oth"
  shows "requestProgress req k (fst (env (snd (run_state (TargetRequest_Reconcile api r req)
     \<lparr>env = (k, oth), calls = []\<rparr>))))"
proof -
  let ?k = "oth 0 k" and ?oth = "\<lambda>n. oth (Suc n)"
  let ?w = "\<lparr>env = (?k, ?oth), calls = [CGetTargetRequest req]\<rparr>"
  have p: "requestProgress req k ?k" using oth k by (simp add: othersProgress_def)
  then have k1: "wellKeyed req ?k" by (simp add: requestProgress_def)
  have oth1: "othersProgress req ?oth" by (rule othersProgress_shift[OF oth])
  have get: "amid (\<lambda>k. (lookupOr (kRequests k) req, k)) (k, oth) = (lookupOr (kRequests ?k) req, ?k, ?oth)"
    by (simp add: amid_def)
  have "requestProgress req ?k (fst (env (snd (run_state (TargetRequest_Reconcile api r req)
     \<lparr>env = (k, oth), calls = []\<rparr>))))"
  proof (cases "stored req ?k")
    case None
    then show ?thesis
      using requestProgress_refl[OF k1] get
      by (simp add: TargetRequest_Reconcile_def get_request lookupOr_def stored_def)
  next
    case (Some t)
    have run: "snd (run_state (TargetRequest_Reconcile api r req) \<lparr>env = (k, oth), calls = []\<rparr>) =
       snd (run_state (if trStatus t = [] then initializeRequest api t
         else if trStatus t = StatusCompleted then ret (emptyResult, None)
         else if trStatus t \<noteq> StatusPending then ret (emptyResult, None)
         else processRequest api r t) ?w)"
    proof -
      have "apiGetTargetRequest api req = amid (\<lambda>k. (lookupOr (kRequests k) req, k))"
        by (simp add: get_request)
      then show ?thesis
        using get Some by (simp add: TargetRequest_Reconcile_def lookupOr_def stored_def)
    qed
    consider "trStatus t = []" | "trStatus t = StatusPending" | "trStatus t \<noteq> []" "trStatus t \<noteq> StatusPending" by blast
    then show ?thesis
    proof cases
      case 1
      with initializeRequest_progress[OF k1 Some _ oth1 1, of ?w] run show ?thesis by simp
    next
      case 2
      have f: "follows (processRequest api r t)"
        using follows_process[OF r] .
      have "holds req t (fst (env (snd (run_state (processRequest api r t) ?w))))"
        by (rule run_holds[OF f only_processRequest[OF default_soundProbes[OF r] 2] 2])
          (simp_all add: holds_start[OF k1 Some] oth1)
      from progress_holds[OF Some this] run 2 show ?thesis by simp
    next
      case 3
      with run requestProgress_refl[OF k1] show ?thesis by simp
    qed
  qed
  with p show ?thesis by (rule requestProgress_trans)
qed

end

interpretation interleaved: acts_by_calls interleavedApi
  by unfold_locales (simp_all add: interleavedApi_def amid_effect[where eff = refEffect] refHttpGet_def split: option.split)

section \<open>Any number of reconciliations\<close>

text \<open>
  The states a cluster reaches when operators with the default probes, of any names and in any
  order, reconcile the request, each amid actors that only move it forward.
\<close>

inductive operatorRuns :: "nsname \<Rightarrow> cluster \<Rightarrow> cluster \<Rightarrow> bool" for req :: nsname where
  none: "operatorRuns req k k"
| reconcile: "operatorRuns req k k1 \<Longrightarrow> defaultProbes r \<Longrightarrow> othersProgress req oth \<Longrightarrow>
     operatorRuns req k (fst (env (snd (run_state (TargetRequest_Reconcile interleavedApi r req)
       \<lparr>env = (k1, oth), calls = []\<rparr>))))"

lemma operatorRuns_progress: "operatorRuns req k k' \<Longrightarrow> wellKeyed req k \<Longrightarrow> requestProgress req k k'"
proof (induction rule: operatorRuns.induct)
  case (none k)
  then show ?case by (rule requestProgress_refl)
next
  case (reconcile k k1 r oth)
  then have "wellKeyed req k1" by (simp add: requestProgress_def)
  from interleaved.reconcile_progress[OF reconcile.hyps(2) this reconcile.hyps(3)] reconcile show ?case
    by (blast intro: requestProgress_trans)
qed

lemma no_others: "othersProgress req (\<lambda>n k. k)"
  by (simp add: othersProgress_def requestProgress_refl)

section \<open>Properties\<close>


definition busyCluster :: cluster where
  "busyCluster = emptyCluster\<lparr>kRequests := [((''krkn'', ''req''),
     exampleRequest\<lparr>trTargetData := Some [(''core'', [])]\<rparr>)]\<rparr>"

definition plainReconciler :: "'e KrknTargetRequestReconciler" where
  "plainReconciler = \<lparr>OperatorName = ''acm'', OperatorNamespace = ''krkn'', clusterLivenessProbe = None,
     clusterCredentialProbe = None\<rparr>"

lemma busyCluster_facts: "wellKeyed (''krkn'', ''req'') busyCluster"
  "stored (''krkn'', ''req'') busyCluster = Some (exampleRequest\<lparr>trTargetData := Some [(''core'', [])]\<rparr>)"
  "defaultProbes plainReconciler"
  by (auto simp: wellKeyed_def stored_def busyCluster_def exampleRequest_def defaultProbes_def plainReconciler_def
      split: if_splits)



definition doneRequest :: KrknTargetRequest where
  "doneRequest = exampleRequest\<lparr>trStatus := ''Completed'', trCompleted := Some 5\<rparr>"

definition doneCluster :: cluster where
  "doneCluster = emptyCluster\<lparr>kRequests := [((''krkn'', ''req''), doneRequest)]\<rparr>"


end
