(* ===== verification/CallBounds.thy ===== *)
theory CallBounds
  imports Interleaving ProviderConfig TargetRequestProps
begin

text \<open>
  How much a reconciliation asks of the API servers: a calculus that counts calls, one rule per
  construct as for \<open>only\<close>, and the bounds it gives for the reconcilers, linear in the number of
  managed clusters.
\<close>

section \<open>Counting calls\<close>

definition calls_max :: "nat \<Rightarrow> ('e, 'a) prog \<Rightarrow> bool" where
  "calls_max n m = (\<forall>w. \<exists>cs. calls (snd (run_state m w)) = calls w @ cs \<and> length cs \<le> n)"

named_theorems counted \<open>rules that count the calls of a program\<close>

lemma calls_max_basic [counted]: "calls_max 0 (ret x)" "calls_max 0 (ask f)" "calls_max 1 (call c g)"
  by (simp_all add: calls_max_def)

lemma calls_max_bind [counted]:
  assumes "calls_max i m" "\<And>x. calls_max j (f x)"
  shows "calls_max (i + j) (m \<bind> f)"
proof -
  have "\<exists>cs. calls (snd (run_state (m \<bind> f) w)) = calls w @ cs \<and> length cs \<le> i + j" for w
  proof (cases "run_state m w")
    case (Pair x w')
    from assms(1)[unfolded calls_max_def, rule_format, of w] Pair obtain cs where
      1: "calls w' = calls w @ cs" "length cs \<le> i" by auto
    from assms(2)[of x, unfolded calls_max_def, rule_format, of w'] obtain ds where
      2: "calls (snd (run_state (f x) w')) = calls w' @ ds" "length ds \<le> j" by auto
    from 1 2 Pair show ?thesis by (intro exI[of _ "cs @ ds"]) simp
  qed
  then show ?thesis by (simp add: calls_max_def)
qed

lemma calls_max_mono: "calls_max i m \<Longrightarrow> i \<le> n \<Longrightarrow> calls_max n m"
  by (fastforce simp: calls_max_def)

lemma calls_max_cases [counted]:
  "calls_max i m \<Longrightarrow> calls_max j n \<Longrightarrow> calls_max (max i j) (if b then m else n)"
  "(\<And>e. calls_max i (f e)) \<Longrightarrow> (\<And>y. calls_max j (g y)) \<Longrightarrow> calls_max (max i j) (case s of Inl e \<Rightarrow> f e | Inr y \<Rightarrow> g y)"
  "calls_max i m \<Longrightarrow> (\<And>y. calls_max j (h y)) \<Longrightarrow> calls_max (max i j) (case opt of None \<Rightarrow> m | Some y \<Rightarrow> h y)"
  "calls_max i m \<Longrightarrow> (\<And>y ys. calls_max j (l y ys)) \<Longrightarrow> calls_max (max i j) (case xs of [] \<Rightarrow> m | y # ys \<Rightarrow> l y ys)"
  "(\<And>y z. calls_max i (p y z)) \<Longrightarrow> calls_max i (case yz of (y, z) \<Rightarrow> p y z)"
  by (simp_all split: sum.split option.split list.split prod.split)
    (blast intro: calls_max_mono[OF _ max.cobounded1] calls_max_mono[OF _ max.cobounded2])+

lemma calls_max_mapM [counted]: "(\<And>x. calls_max i (f x)) \<Longrightarrow> calls_max (length xs * i) (mapM f xs)"
proof (induction xs)
  case (Cons x xs)
  then have "calls_max (i + (length xs * i + 0)) (mapM f (x # xs))"
    unfolding mapM.simps by (intro counted) auto
  then show ?case by (rule calls_max_mono) simp
qed (simp add: calls_max_basic)

lemma calls_max_foldM [counted]: "(\<And>x a. calls_max i (f x a)) \<Longrightarrow> calls_max (length xs * i) (foldM f xs a)"
proof (induction xs arbitrary: a)
  case (Cons x xs)
  then have "calls_max (i + length xs * i) (foldM f (x # xs) a)"
    unfolding foldM.simps by (intro counted) auto
  then show ?case by (rule calls_max_mono) simp
qed (simp add: calls_max_basic)

lemma calls_max_trace: "calls_max n m \<Longrightarrow> length (trace m w) \<le> n"
proof -
  assume "calls_max n m"
  then obtain cs where "calls (snd (run_state m w)) = calls w @ cs" "length cs \<le> n" by (auto simp: calls_max_def)
  then show ?thesis by (simp add: trace_def)
qed

text \<open>What is known of a value helps to count what follows it.\<close>

lemma calls_max_bind_yields:
  assumes "calls_max i m" "yields Y m" "\<And>x. Y x \<Longrightarrow> calls_max j (f x)"
  shows "calls_max (i + j) (m \<bind> f)"
proof -
  have "\<exists>cs. calls (snd (run_state (m \<bind> f) w)) = calls w @ cs \<and> length cs \<le> i + j" for w
  proof (cases "run_state m w")
    case (Pair x w')
    with assms(2) have "Y x" unfolding yields_def by (metis fst_conv)
    from assms(1)[unfolded calls_max_def, rule_format, of w] Pair obtain cs where
      1: "calls w' = calls w @ cs" "length cs \<le> i" by auto
    from assms(3)[OF \<open>Y x\<close>, unfolded calls_max_def, rule_format, of w'] obtain ds where
      2: "calls (snd (run_state (f x) w')) = calls w' @ ds" "length ds \<le> j" by auto
    from 1 2 Pair show ?thesis by (intro exI[of _ "cs @ ds"]) simp
  qed
  then show ?thesis by (simp add: calls_max_def)
qed

section \<open>One cluster\<close>

lemma calls_max_proxyURL [counted]: "calls_max 2 (getProxyURL a c)"
  unfolding getProxyURL_def findProxyService_def
  by (rule calls_max_mono, (rule counted)+, simp)

lemma calls_max_proxyCA [counted]: "calls_max 1 (getProxyCA a)"
  unfolding getProxyCA_def by (rule calls_max_mono, (rule counted)+, simp)

lemma calls_max_ensure [counted]: "calls_max 2 (ensureManifestWork a ns c)"
  unfolding ensureManifestWork_def createManifestWork_def getServiceAccountName_def Let_def
  by (rule calls_max_mono, (rule counted)+, simp)

lemma calls_max_proxyConfig [counted]: "calls_max 6 (getProxyConfig a ns c)"
  unfolding getProxyConfig_def isProxyModeEnabled_def getOperatorToken_def
  by (rule calls_max_mono, (rule counted)+, simp)

lemma calls_max_probeInput [counted]: "calls_max 3 (buildProbeInput a c)"
  unfolding buildProbeInput_def resolveProxyRoute_def isProxyModeEnabled_def Let_def
  by (rule calls_max_mono, (rule counted)+, simp)

lemma calls_max_endpoints: "calls_max (length ps) (probeEndpoints a tls u ps res)"
proof (induction ps arbitrary: res)
  case (Cons p ps)
  show ?case
    unfolding probeEndpoints.simps Let_def by (rule calls_max_mono, (rule counted Cons.IH)+, simp)
qed (simp add: calls_max_basic)

lemma calls_max_liveness [counted]: "calls_max 3 (checkClusterAPILiveness a ctx url ca)"
proof -
  have endpoints: "calls_max 3 (probeEndpoints a tls u clusterHealthEndpoints noLiveness)" for tls u
    by (rule calls_max_mono[OF calls_max_endpoints]) (simp add: clusterHealthEndpoints_def)
  show ?thesis
    unfolding checkClusterAPILiveness_def checkClusterAPILivenessWithClient_def clusterAPITLSConfig_def Let_def
    by (rule calls_max_mono, (rule counted endpoints)+, simp)
qed

lemma calls_max_cluster [counted]: "defaultProbes r \<Longrightarrow> calls_max 8 (processCluster a r input p)"
  unfolding processCluster_def advertiseCluster_def getClusterToken_def getConfiguredSecretName_def
    getClusterSecret_def validateClusterCredentials_def credentialProbeOf_def defaultProbes_def Let_def
  by (simp only: option.case, rule calls_max_mono, (rule counted)+, simp)

lemma calls_max_secret [counted]: "calls_max 4 (createManagedClustersSecret a r t cd)"
  unfolding createManagedClustersSecret_def storeOperatorData_def Let_def
  by (rule calls_max_mono, (rule counted)+, simp)

section \<open>Whole reconciliations\<close>

lemma calls_max_provider [counted]: "calls_max 1 (checkProviderActive a oper ns)"
  unfolding checkProviderActive_def by (rule calls_max_mono, (rule counted)+, simp)

lemma calls_max_listing [counted]: "calls_max 1 (getManagedClusters a)"
  unfolding getManagedClusters_def by (rule calls_max_mono, (rule counted)+, simp)

lemma calls_max_publish [counted]: "calls_max 2 (publishTargets a r ps t ts)"
  unfolding publishTargets_def cleanupAndReturn_def cleanupOldTargetRequests_def Let_def
  by (rule calls_max_mono, (rule counted)+, simp)

lemma calls_max_await [counted]: "calls_max 2 (awaitOthers a r ps t)"
  unfolding awaitOthers_def cleanupAndReturn_def cleanupOldTargetRequests_def
  by (rule calls_max_mono, (rule counted)+, simp)

lemma calls_max_initialize [counted]: "calls_max 2 (initializeRequest a t)"
  unfolding initializeRequest_def initializeStatus_def Let_def
  by (rule calls_max_mono, (rule counted)+, simp)

lemma calls_max_work:
  assumes r: "defaultProbes r" and n: "length cs \<le> n"
  shows "calls_max (14 * n + 6) (do {
         probeInputs \<leftarrow> mapM (buildProbeInput a) cs;
         probeResults \<leftarrow> probeManagedClusters a probeInputs (livenessProbeOf a r);
         (clustersData, targetData) \<leftarrow> processClusters a r (zip probeInputs probeResults);
         s \<leftarrow> createManagedClustersSecret a r t (Some clustersData);
         case s of Some e \<Rightarrow> ret (emptyResult, Some e) | None \<Rightarrow> publishTargets a r ps t targetData })"
proof -
  have one: "calls_max 3 (probeOne a (livenessProbeOf a r) input)" for input
  proof -
    from r have none: "clusterLivenessProbe r = None" by (simp add: defaultProbes_def)
    show ?thesis
      unfolding probeOne_def buildClusterTargetWithProbe_def livenessProbeOf_def none option.case Let_def
      by (rule calls_max_mono, (rule counted)+, simp)
  qed
  have probes: "calls_max (length ins * 3) (probeManagedClusters a ins (livenessProbeOf a r))" for ins
    unfolding probeManagedClusters_def by (rule calls_max_mapM[OF one])
  have clusters: "calls_max (length ips * 8) (processClusters a r ips)" for ips
  proof -
    have "calls_max 8 (collectCluster a r ip acc)" for ip acc
      unfolding collectCluster_def by (rule calls_max_mono, (rule counted calls_max_cluster[OF r])+, simp)
    then show ?thesis unfolding processClusters_def by (rule calls_max_foldM)
  qed
  have inputs: "yields (\<lambda>ins. length ins = length cs) (mapM (buildProbeInput a) cs)"
    by (rule yields_mono[OF yields_mapM[of cs "\<lambda>_ _. True"]]) (auto simp: yields_def dest: list_all2_lengthD)
  have after: "calls_max 6 (case cdts of (cd, ts) \<Rightarrow> createManagedClustersSecret a r t (Some cd) \<bind>
      (\<lambda>s. case s of Some e \<Rightarrow> ret (emptyResult, Some e) | None \<Rightarrow> publishTargets a r ps t ts))" for cdts
    by (rule calls_max_mono, (rule counted)+, simp)
  have "calls_max (length cs * 3 + (length cs * 3 + (length cs * 8 + 6))) (do {
         probeInputs \<leftarrow> mapM (buildProbeInput a) cs;
         probeResults \<leftarrow> probeManagedClusters a probeInputs (livenessProbeOf a r);
         (clustersData, targetData) \<leftarrow> processClusters a r (zip probeInputs probeResults);
         s \<leftarrow> createManagedClustersSecret a r t (Some clustersData);
         case s of Some e \<Rightarrow> ret (emptyResult, Some e) | None \<Rightarrow> publishTargets a r ps t targetData })"
  proof (rule calls_max_bind_yields[OF calls_max_mapM[OF calls_max_probeInput] inputs])
    fix ins :: "clusterProbeInput list" assume len: "length ins = length cs"
    show "calls_max (length cs * 3 + (length cs * 8 + 6)) (do {
         probeResults \<leftarrow> probeManagedClusters a ins (livenessProbeOf a r);
         (clustersData, targetData) \<leftarrow> processClusters a r (zip ins probeResults);
         s \<leftarrow> createManagedClustersSecret a r t (Some clustersData);
         case s of Some e \<Rightarrow> ret (emptyResult, Some e) | None \<Rightarrow> publishTargets a r ps t targetData })"
      unfolding len[symmetric]
      by (intro calls_max_bind probes after) (rule calls_max_mono[OF clusters], simp)
  qed
  then show ?thesis by (rule calls_max_mono) (use n in simp)
qed

section \<open>Configuration objects\<close>

lemma calls_max_secretField [counted]: "calls_max 1 (addSecretField a c acc)"
  unfolding addSecretField_def listSecretsInNamespace_def getDefaultSecret_def Let_def
  by (rule calls_max_mono, (rule counted)+, simp)

lemma calls_max_proxyField [counted]: "calls_max 0 (addProxyField a cs c)"
  unfolding addProxyField_def getDefaultProxyMode_def Let_def
  by (rule calls_max_mono, (rule counted)+, simp)

lemma calls_max_schema [counted]: "calls_max (length cs) (schemaFields a cs)"
  unfolding schemaFields_def by (rule calls_max_mono, (rule counted)+, simp)

lemma calls_max_configListing [counted]: "calls_max 1 (ProviderConfig_getManagedClusters a)"
  unfolding ProviderConfig_getManagedClusters_def by (rule calls_max_mono, (rule counted)+, simp)

lemma calls_max_initializeConfig [counted]: "calls_max 2 (initializeConfig a c)"
  unfolding initializeConfig_def initializeConfigStatus_def Let_def
  by (rule calls_max_mono, (rule counted)+, simp)

lemma calls_max_finishConfig [counted]: "calls_max 2 (finishConfig a r ps c)"
  unfolding finishConfig_def Let_def by (rule calls_max_mono, (rule counted)+, simp)

section \<open>Properties\<close>

text \<open>
  C16. A reconciliation is linear in the number of managed clusters: if OCM never lists more than
  \<open>n\<close> clusters, a reconciliation with the default probes makes at most 14 calls per cluster and
  nine more, whatever the API answers; no answer makes it loop or retry.
\<close>

theorem reconcile_call_bound:
  assumes "defaultProbes r" "\<And>v cs. outcome (getManagedClusters a) v = Inr cs \<Longrightarrow> length cs \<le> n"
  shows "length (trace (TargetRequest_Reconcile a r req) w) \<le> 14 * n + 9"
proof (rule calls_max_trace)
  have known: "yields (\<lambda>m. \<forall>cs. m = Inr cs \<longrightarrow> length cs \<le> n) (getManagedClusters a)"
    using assms(2) by (auto simp: yields_def outcome_def)
  have contribute: "calls_max (1 + (14 * n + 6)) (contributeTargets a r ps t)" for ps t
    unfolding contributeTargets_def reportProbes_def
    by (rule calls_max_bind_yields[OF calls_max_listing known])
      (auto intro: calls_max_mono[OF calls_max_basic(1)] calls_max_work[OF assms(1)] split: sum.split)
  show "calls_max (14 * n + 9) (TargetRequest_Reconcile a r req)"
    unfolding TargetRequest_Reconcile_def processRequest_def Let_def
    by (rule calls_max_mono, (rule counted contribute)+, simp)
qed

text \<open>Two clusters listed, so at most 37 calls, for a pending request.\<close>

theorem reconcile_call_bound_witness:
  "length (trace (TargetRequest_Reconcile (fixedClusters [exampleCluster ''c1'' ''True'', exampleCluster ''c2'' ''False''])
       plainReconciler (''krkn'', ''req'')) (inCluster (pendingCluster [''c1'', ''c2'']))) \<le> 37"
proof -
  have "length (trace (TargetRequest_Reconcile (fixedClusters [exampleCluster ''c1'' ''True'', exampleCluster ''c2'' ''False''])
       plainReconciler (''krkn'', ''req'')) (inCluster (pendingCluster [''c1'', ''c2'']))) \<le> 14 * 2 + 9"
    by (rule reconcile_call_bound) (simp_all add: fixedClusters_listed defaultProbes_def plainReconciler_def)
  then show ?thesis by simp
qed

text \<open>
  A reconciliation of a configuration object costs one listing of secrets per managed cluster
  and at most eight further calls, whatever the API answers.
\<close>

theorem config_call_bound:
  assumes "\<And>v cs. outcome (ProviderConfig_getManagedClusters a) v = Inr cs \<Longrightarrow> length cs \<le> n"
  shows "length (trace (ProviderConfig_Reconcile marshalField a r req) w) \<le> n + 8"
proof (rule calls_max_trace)
  have known: "yields (\<lambda>m. \<forall>cs. m = Inr cs \<longrightarrow> length cs \<le> n) (ProviderConfig_getManagedClusters a)"
    using assms by (auto simp: yields_def outcome_def)
  have schema: "calls_max (1 + n) (buildConfigSchema marshalField a)"
    unfolding buildConfigSchema_def
  proof (rule calls_max_bind_yields[OF calls_max_configListing known])
    fix m :: "err + ManagedClusterList" assume "\<forall>cs. m = Inr cs \<longrightarrow> length cs \<le> n"
    then have fields: "calls_max n (schemaFields a cs)" if "m = Inr cs" for cs
      using that by (blast intro: calls_max_mono[OF calls_max_schema])
    show "calls_max n (case m of Inl e \<Rightarrow> ret (Inl (ErrWrap ''failed to get managed clusters'' e))
        | Inr managedClusters \<Rightarrow> do {
            fs \<leftarrow> schemaFields a managedClusters;
            ret (case mapE marshalField fs of
              Inl e \<Rightarrow> Inl (ErrWrap ''failed to marshal field'' e)
            | Inr jsonFields \<Rightarrow> Inr (jsonPrint (JArr jsonFields))) })"
    proof (cases m)
      case (Inr cs)
      show ?thesis unfolding Inr sum.case
        by (rule calls_max_mono[OF calls_max_bind[OF fields[OF Inr] calls_max_basic(1)]]) simp
    qed (simp add: calls_max_mono[OF calls_max_basic(1)])
  qed
  show "calls_max (n + 8) (ProviderConfig_Reconcile marshalField a r req)"
    unfolding ProviderConfig_Reconcile_def processConfig_def contributeConfig_def
    by (rule calls_max_mono, (rule counted schema)+, simp)
qed

text \<open>Two clusters listed, so at most ten calls, for a pending object.\<close>

theorem config_call_bound_witness:
  "length (trace (ProviderConfig_Reconcile marshalName
       (fixedClusters [exampleCluster ''c1'' ''True'', exampleCluster ''c2'' ''False'']) exampleConfigReconciler
       (''krkn'', ''conf''))
     (inCluster (emptyCluster\<lparr>kConfigs := [((''krkn'', ''conf''), exampleConfig)]\<rparr>))) \<le> 2 + 8"
  by (rule config_call_bound) (simp add: ProviderConfig_getManagedClusters_eq fixedClusters_listed)

end
