(* ===== verification/PooledReconcile.thy ===== *)
theory PooledReconcile
  imports TargetRequestProps
begin

text \<open>
  The reconciler with its pool.  \<^verbatim>\<open>TargetRequest\<close> models a contribution with the probes one after
  the other; here the slice of results comes from any complete run of the pool of goroutines of
  \<^verbatim>\<open>Probes\<close>, each probe having met the outside world in whatever state it was in at that time,
  and the rest of the contribution (\<open>reportProbes\<close>) works on that slice.
\<close>

section \<open>Probes of the pool\<close>

text \<open>What the goroutine that takes index \<open>i\<close> may store: the result of probing input \<open>i\<close> at some time.\<close>

definition probeAnswer :: "'e api \<Rightarrow> 'e KrknTargetRequestReconciler \<Rightarrow> clusterProbeInput list \<Rightarrow> nat \<Rightarrow>
    clusterProbeResult \<Rightarrow> bool" where
  "probeAnswer a r inputs i p = (\<exists>v. p = outcome (probeOne a (livenessProbeOf a r) (inputs ! i)) v)"

text \<open>The slice after a complete run.\<close>

definition poolResults :: "'r pool \<Rightarrow> 'r list" where
  "poolResults s = map the (results s)"

lemma pool_filled:
  assumes "pool_run answer n m s" "poolDone s"
  shows "length (poolResults s) = n \<and> (\<forall>i < n. answer i (poolResults s ! i))"
proof -
  have inv: "pool_inv answer n s" by (rule pool_run_inv[OF assms(1)])
  show ?thesis
  proof (cases "0 < n")
    case True
    from pool_done_results[OF inv assms(2) this] show ?thesis by (auto simp: poolResults_def)
  next
    case False
    then show ?thesis using pool_lengths(2)[OF inv] by (simp add: poolResults_def)
  qed
qed

lemma pool_probe_results:
  assumes "soundProbes a r good" "pool_run (probeAnswer a r inputs) (length inputs) m s" "poolDone s"
  shows "list_all2 probeResultFor inputs (poolResults s)"
proof -
  from assms(1) have live: "liveness_probe (livenessProbeOf a r)" by (simp add: soundProbes_def)
  note filled = pool_filled[OF assms(2,3)]
  have "probeResultFor (inputs ! i) (poolResults s ! i)" if "i < length inputs" for i
    using filled that liveness_probe.probeOne_result[OF live] by (auto simp: probeAnswer_def outcome_def)
  with filled show ?thesis by (simp add: list_all2_conv_all_nth)
qed

lemma inputs_for: "list_all2 inputFor cs (outcome (mapM (buildProbeInput a) cs) w)"
  by (rule yields_outcome[OF yields_mapM]) (rule buildProbeInput_for)

section \<open>Property\<close>



end
