(* ===== verification/Settings.thy ===== *)
theory Settings
  imports TargetRequestProps
begin

text \<open>
  From the integration ConfigMap to the reconcilers: the ConfigMap reconciler copies the ConfigMap
  into the configstore, the reconciler of KrknTargetRequest reads its decisions from there.  What
  \<^verbatim>\<open>configmap.SyncConfigMapToStore\<close> of krkn-operator does is a parameter; \<open>config_sync\<close> states
  what the program relies on (\<^verbatim>\<open>specs.orig/REQUIREMENTS.md\<close>: every change in the ConfigMap must be
  reflected in the configstore).
\<close>

section \<open>Copying a ConfigMap\<close>

locale config_sync =
  fixes api :: "'e api"
  assumes synced: "fst (apiSyncConfigMap api cm k) = None \<Longrightarrow> mapGet (cmData cm) key = Some v \<Longrightarrow>
    apiGetValue api (snd (apiSyncConfigMap api cm k)) key = Some v"
begin

lemma reconciled_value:
  assumes "apiGetConfigMap api req (env w) = (Inr cm, k)" "outcome (ConfigMap_Reconcile api req) w = (emptyResult, None)"
    and "mapGet (cmData cm) key = Some v"
  shows "apiGetValue api (env (snd (run_state (ConfigMap_Reconcile api req) w))) key = Some v"
proof -
  have "fst (apiSyncConfigMap api cm k) = None"
    using assms(1,2) by (cases "fst (apiSyncConfigMap api cm k)") (simp_all add: ConfigMap_Reconcile_def outcome_def)
  from synced[OF this assms(3)] assms(1) show ?thesis by (simp add: ConfigMap_Reconcile_def split: option.split)
qed

lemma reconciled_proxy:
  assumes "apiGetConfigMap api req (env w) = (Inr cm, k)" "outcome (ConfigMap_Reconcile api req) w = (emptyResult, None)"
    and "mapGet (cmData cm) (formatProxyVarName n) = Some v"
  shows "proxyOn api n (env (snd (run_state (ConfigMap_Reconcile api req) w))) \<longleftrightarrow> v \<in> {''true'', ''yes'', ''1''}"
  unfolding proxyOn_def reconciled_value[OF assms] by simp

lemma reconciled_secret:
  assumes "apiGetConfigMap api req (env w) = (Inr cm, k)" "outcome (ConfigMap_Reconcile api req) w = (emptyResult, None)"
    and "mapGet (cmData cm) (formatNamespaceToVarName n) = Some v" "v \<noteq> []"
  shows "outcome (getConfiguredSecretName api n) (snd (run_state (ConfigMap_Reconcile api req) w)) = v"
  using reconciled_value[OF assms(1-3)] assms(4) by (simp add: getConfiguredSecretName_def outcome_def)

end

lemma refApi_syncs: "config_sync refApi"
  by unfold_locales (auto simp: mapGet_def split: option.splits)

interpretation reference_sync: config_sync refApi
  by (rule refApi_syncs)

text \<open>Without proxy mode a cluster is probed at its own first URL, and asked for directly.\<close>

lemma direct_route:
  assumes "\<not> proxyOn a (mcName c) (env w)"
  shows "\<not> piProxyModeEnabled (outcome (buildProbeInput a c) w)"
    "piProbeURL (outcome (buildProbeInput a c) w) = fst (firstClientConfig c)"
    "outcome (getProxyConfig a ns (mcName c)) w = Inr directConfig"
  using assms
  by (simp_all add: buildProbeInput_def getProxyConfig_def outcome_def Let_def split: prod.split)

section \<open>Properties\<close>


definition settingsCluster :: cluster where
  "settingsCluster = emptyCluster\<lparr>kConfigMaps := [((''krkn'', ''cfg''), \<lparr>cmName = ''cfg'', cmNamespace = ''krkn'',
     cmData = Some [(''ACM_USE_PROXY_C1'', ''yes''), (''ACM_SECRET_C2'', ''robot'')]\<rparr>)]\<rparr>"


end
