(* ===== verification/Lifecycle.thy ===== *)
theory Lifecycle
  imports TargetRequest
begin

text \<open>
  The contract of the request protocol, apart from how it is carried out: a request is new, waits
  for the active operators, and is done; each operator contributes once, the last contribution
  completes the request.  \<open>lifecycle_step\<close> is this contract as a step relation,
  \<open>lifecycleOf\<close> the view of a stored request it is about.  \<^verbatim>\<open>Guarantee\<close> shows that the
  reconciler implements it.
\<close>

section \<open>Phases\<close>

datatype phase = New | Waiting | Done | Other string

definition phaseOf :: "string \<Rightarrow> phase" where
  "phaseOf s = (if s = [] then New else if s = StatusPending then Waiting
     else if s = StatusCompleted then Done else Other s)"

lemma phaseOf_eq [simp]:
  "phaseOf s = New \<longleftrightarrow> s = []" "phaseOf s = Waiting \<longleftrightarrow> s = StatusPending"
  "phaseOf s = Done \<longleftrightarrow> s = StatusCompleted"
  by (auto simp: phaseOf_def)

lemma phaseOf_values [simp]: "phaseOf [] = New" "phaseOf StatusPending = Waiting" "phaseOf StatusCompleted = Done"
  by simp_all

lemma phaseOf_inject: "phaseOf s = phaseOf s' \<longleftrightarrow> s = s'"
  by (auto simp: phaseOf_def split: if_splits)

text \<open>Phases are ordered by how far the request has come.\<close>

fun phaseKey :: "phase \<Rightarrow> nat \<times> string" where
  "phaseKey New = (0, [])"
| "phaseKey Waiting = (1, [])"
| "phaseKey Done = (2, [])"
| "phaseKey (Other s) = (3, s)"

lemma phaseKey_inject: "phaseKey p = phaseKey q \<Longrightarrow> p = q"
  by (cases p; cases q) auto

instantiation phase :: linorder
begin

definition less_eq_phase :: "phase \<Rightarrow> phase \<Rightarrow> bool" where
  "less_eq_phase p q = (fst (phaseKey p) < fst (phaseKey q)
     \<or> (fst (phaseKey p) = fst (phaseKey q) \<and> snd (phaseKey p) \<le> snd (phaseKey q)))"

definition less_phase :: "phase \<Rightarrow> phase \<Rightarrow> bool" where
  "less_phase p q = (p \<le> q \<and> \<not> q \<le> p)"

instance
proof
  fix p q r :: phase
  show "p < q \<longleftrightarrow> p \<le> q \<and> \<not> q \<le> p" by (simp add: less_phase_def)
  show "p \<le> p" by (simp add: less_eq_phase_def)
  show "p \<le> q \<Longrightarrow> q \<le> r \<Longrightarrow> p \<le> r" by (auto simp: less_eq_phase_def)
  show "p \<le> q \<Longrightarrow> q \<le> p \<Longrightarrow> p = q"
    by (rule phaseKey_inject) (auto simp: less_eq_phase_def prod_eq_iff)
  show "p \<le> q \<or> q \<le> p" by (auto simp: less_eq_phase_def)
qed

end

lemma phase_less [simp]: "New < Waiting" "Waiting < Done" "New < Done"
  by (simp_all add: less_phase_def less_eq_phase_def)

section \<open>The contract\<close>

record lifecycle =
  lcPhase :: phase
  lcTargets :: "string \<Rightarrow> ClusterTarget list option"
  lcCompleted :: "time option"

definition lifecycleOf :: "KrknTargetRequest \<Rightarrow> lifecycle" where
  "lifecycleOf t = \<lparr>lcPhase = phaseOf (trStatus t), lcTargets = mapGet (trTargetData t),
     lcCompleted = trCompleted t\<rparr>"

lemma lifecycleOf_simps [simp]:
  "lcPhase (lifecycleOf t) = phaseOf (trStatus t)" "lcTargets (lifecycleOf t) = mapGet (trTargetData t)"
  "lcCompleted (lifecycleOf t) = trCompleted t"
  by (simp_all add: lifecycleOf_def)

text \<open>The steps operator \<open>p\<close> may take when the active operators are \<open>A\<close>.\<close>

inductive lifecycle_step :: "string set \<Rightarrow> string \<Rightarrow> lifecycle \<Rightarrow> lifecycle \<Rightarrow> bool"
  for A :: "string set" and p :: string where
  start: "lcPhase s = New \<Longrightarrow> lifecycle_step A p s (s\<lparr>lcPhase := Waiting\<rparr>)"
| contribute: "lcPhase s = Waiting \<Longrightarrow> lcTargets s p = None \<Longrightarrow> \<not> A \<subseteq> insert p (dom (lcTargets s)) \<Longrightarrow>
    lifecycle_step A p s (s\<lparr>lcTargets := (lcTargets s)(p \<mapsto> ts)\<rparr>)"
| finish: "lcPhase s = Waiting \<Longrightarrow> lcTargets s p = None \<Longrightarrow> A \<subseteq> insert p (dom (lcTargets s)) \<Longrightarrow>
    lifecycle_step A p s (s\<lparr>lcPhase := Done, lcTargets := (lcTargets s)(p \<mapsto> ts), lcCompleted := Some now\<rparr>)"
| complete: "lcPhase s = Waiting \<Longrightarrow> lcTargets s p \<noteq> None \<Longrightarrow> A \<subseteq> dom (lcTargets s) \<Longrightarrow>
    lifecycle_step A p s (s\<lparr>lcPhase := Done, lcCompleted := Some now\<rparr>)"

inductive_cases lifecycle_stepE: "lifecycle_step A p s s'"

text \<open>
  What holds of a request all the time: only active operators have contributed, and it is done
  exactly when all of them have.
\<close>

definition lifecycle_inv :: "string set \<Rightarrow> lifecycle \<Rightarrow> bool" where
  "lifecycle_inv A s = (lcPhase s \<in> {New, Waiting, Done} \<and> dom (lcTargets s) \<subseteq> A
     \<and> (lcPhase s = Done \<longleftrightarrow> A \<subseteq> dom (lcTargets s)))"

text \<open>How many steps are left: one to start, one per missing operator, one to complete.\<close>

definition stepsLeft :: "string set \<Rightarrow> lifecycle \<Rightarrow> nat" where
  "stepsLeft A s = card (A - dom (lcTargets s))
     + (case lcPhase s of New \<Rightarrow> 2 | Waiting \<Rightarrow> 1 | Done \<Rightarrow> 0 | Other _ \<Rightarrow> 0)"

section \<open>Facts\<close>

lemma lifecycle_step_inv: "lifecycle_step A p s s' \<Longrightarrow> p \<in> A \<Longrightarrow> lifecycle_inv A s \<Longrightarrow> lifecycle_inv A s'"
  by (induction rule: lifecycle_step.induct) (auto simp: lifecycle_inv_def)

lemma lifecycle_step_phase: "lifecycle_step A p s s' \<Longrightarrow> lcPhase s \<le> lcPhase s'"
  by (induction rule: lifecycle_step.induct) (auto simp: less_imp_le)

lemma lifecycle_step_targets: "lifecycle_step A p s s' \<Longrightarrow> lcTargets s \<subseteq>\<^sub>m lcTargets s'"
  by (induction rule: lifecycle_step.induct) (auto simp: map_le_def)

lemma lifecycle_step_waiting:
  "lifecycle_step A p s s' \<Longrightarrow> lcPhase s \<noteq> Done \<and> lcPhase s' \<noteq> New"
  by (induction rule: lifecycle_step.induct) auto

lemma stepsLeft_decreases:
  assumes "finite A" "p \<in> A" "lifecycle_step A p s s'"
  shows "stepsLeft A s' < stepsLeft A s"
  using assms(3)
proof cases
  case (contribute ts)
  have "card (A - insert p (dom (lcTargets s))) < card (A - dom (lcTargets s))"
    using assms(1,2) contribute(3) by (intro psubset_card_mono) auto
  with contribute show ?thesis by (simp add: stepsLeft_def)
next
  case (finish ts now)
  with assms(2) have "A - dom (lcTargets s) = {p}" by auto
  then have "card (A - dom (lcTargets s)) = 1" by simp
  moreover have "card (A - insert p (dom (lcTargets s))) = 0"
    using finish by (metis Diff_eq_empty_iff card.empty)
  ultimately show ?thesis using finish by (simp add: stepsLeft_def)
qed (simp_all add: stepsLeft_def)

lemma stepsLeft_bound: "finite A \<Longrightarrow> stepsLeft A s \<le> card A + 2"
  using card_mono[of A "A - dom (lcTargets s)"] by (auto simp: stepsLeft_def split: phase.split)

end
