(* ===== verification/RelyGuarantee.thy ===== *)
theory RelyGuarantee
  imports Interleaving
begin

text \<open>
  A small rely-guarantee calculus: \<open>rg R G P m Q\<close> says of a program that, started where \<open>P\<close> holds
  and with the others moving by \<open>R\<close> before each of its calls, every call moves the cluster by \<open>G\<close>
  and the result satisfies \<open>Q\<close>.  \<open>rgBy\<close> leaves open what the calls do to the cluster.
\<close>

section \<open>Rely and guarantee\<close>

text \<open>The moves of the program itself: the cluster before and after each of its calls.\<close>

fun ownMovesBy :: "(apiCall \<Rightarrow> cluster \<Rightarrow> cluster) \<Rightarrow> apiCall list \<Rightarrow> cluster \<times> others \<Rightarrow> (cluster \<times> cluster) list" where
  "ownMovesBy eff [] e = []"
| "ownMovesBy eff (c # cs) e = (snd e 0 (fst e), eff c (snd e 0 (fst e))) # ownMovesBy eff cs (amidBy eff c e)"

lemma ownMoves_append: "ownMovesBy eff (cs @ ds) e = ownMovesBy eff cs e @ ownMovesBy eff ds (fold (amidBy eff) cs e)"
  by (induction cs arbitrary: e) simp_all

definition othersMove :: "(cluster \<Rightarrow> cluster \<Rightarrow> bool) \<Rightarrow> others \<Rightarrow> bool" where
  "othersMove R oth = (\<forall>n k. R k (oth n k))"

lemma othersMove_shift: "othersMove R oth \<Longrightarrow> othersMove R (\<lambda>n. oth (Suc n))"
  by (simp add: othersMove_def)

definition rgBy :: "(apiCall \<Rightarrow> cluster \<Rightarrow> cluster) \<Rightarrow> (cluster \<Rightarrow> cluster \<Rightarrow> bool) \<Rightarrow> (cluster \<Rightarrow> cluster \<Rightarrow> bool) \<Rightarrow> (cluster \<Rightarrow> bool) \<Rightarrow>
    (cluster \<times> others, 'a) prog \<Rightarrow> ('a \<Rightarrow> cluster \<Rightarrow> bool) \<Rightarrow> bool" where
  "rgBy eff R G P m Q = (\<forall>w. P (fst (env w)) \<longrightarrow> othersMove R (snd (env w)) \<longrightarrow>
     (\<exists>cs. calls (snd (run_state m w)) = calls w @ cs
        \<and> env (snd (run_state m w)) = fold (amidBy eff) cs (env w)
        \<and> list_all (\<lambda>(k, k'). G k k') (ownMovesBy eff cs (env w)))
     \<and> Q (fst (run_state m w)) (fst (env (snd (run_state m w))))
     \<and> othersMove R (snd (env (snd (run_state m w)))))"

definition stable :: "(cluster \<Rightarrow> cluster \<Rightarrow> bool) \<Rightarrow> (cluster \<Rightarrow> bool) \<Rightarrow> bool" where
  "stable R P = (\<forall>k k'. P k \<longrightarrow> R k k' \<longrightarrow> P k')"

lemma rg_ret: "(\<And>k. P k \<Longrightarrow> Q x k) \<Longrightarrow> rgBy eff R G P (ret x) Q"
  unfolding rgBy_def by (intro allI impI conjI exI[of _ "[]"]) simp_all

lemma rg_ask: "(\<And>y k. P k \<Longrightarrow> Q y k) \<Longrightarrow> rgBy eff R G P (ask f) Q"
  unfolding rgBy_def by (intro allI impI conjI exI[of _ "[]"]) simp_all

lemma rg_bind:
  assumes "rgBy eff R G P m Q'" "\<And>x. rgBy eff R G (Q' x) (f x) Q"
  shows "rgBy eff R G P (m \<bind> f) Q"
  unfolding rgBy_def
proof (intro allI impI)
  fix w :: "(apiCall, cluster \<times> others) world"
  assume w: "P (fst (env w))" "othersMove R (snd (env w))"
  obtain x w' where 1: "run_state m w = (x, w')" by fastforce
  obtain y w'' where 2: "run_state (f x) w' = (y, w'')" by fastforce
  from assms(1)[unfolded rgBy_def, rule_format, OF w] 1 obtain cs where
    cs: "calls w' = calls w @ cs" "env w' = fold (amidBy eff) cs (env w)"
      "list_all (\<lambda>(k, k'). G k k') (ownMovesBy eff cs (env w))"
    and mid: "Q' x (fst (env w'))" "othersMove R (snd (env w'))" by auto
  from assms(2)[of x, unfolded rgBy_def, rule_format, OF mid] 2 obtain ds where
    ds: "calls w'' = calls w' @ ds" "env w'' = fold (amidBy eff) ds (env w')"
      "list_all (\<lambda>(k, k'). G k k') (ownMovesBy eff ds (env w'))"
    and post: "Q y (fst (env w''))" "othersMove R (snd (env w''))" by auto
  have "\<exists>es. calls w'' = calls w @ es \<and> env w'' = fold (amidBy eff) es (env w)
      \<and> list_all (\<lambda>(k, k'). G k k') (ownMovesBy eff es (env w))"
    using cs ds by (intro exI[of _ "cs @ ds"]) (simp add: ownMoves_append)
  with 1 2 post show "(\<exists>cs. calls (snd (run_state (m \<bind> f) w)) = calls w @ cs
      \<and> env (snd (run_state (m \<bind> f) w)) = fold (amidBy eff) cs (env w)
      \<and> list_all (\<lambda>(k, k'). G k k') (ownMovesBy eff cs (env w)))
    \<and> Q (fst (run_state (m \<bind> f) w)) (fst (env (snd (run_state (m \<bind> f) w))))
    \<and> othersMove R (snd (env (snd (run_state (m \<bind> f) w))))" by simp
qed

lemma rg_mono:
  "rgBy eff R G P' m Q' \<Longrightarrow> (\<And>k. P k \<Longrightarrow> P' k) \<Longrightarrow> (\<And>x k. Q' x k \<Longrightarrow> Q x k) \<Longrightarrow> rgBy eff R G P m Q"
  by (fastforce simp: rgBy_def)

lemma rg_call:
  assumes f: "f = amid g" "\<And>k. snd (g k) = eff c k" and P: "stable R P"
    and step: "\<And>k. P k \<Longrightarrow> G k (eff c k) \<and> Q (fst (g k)) (eff c k)"
  shows "rgBy eff R G P (call c f) Q"
  unfolding rgBy_def
proof (intro allI impI)
  fix w :: "(apiCall, cluster \<times> others) world"
  assume w: "P (fst (env w))" "othersMove R (snd (env w))"
  let ?k = "snd (env w) 0 (fst (env w))"
  have "P ?k" using w P by (auto simp: stable_def othersMove_def)
  have env': "f (env w) = (fst (g ?k), eff c ?k, \<lambda>n. snd (env w) (Suc n))"
    using f(2)[of ?k] by (simp add: f(1) amid_def case_prod_beta)
  show "(\<exists>cs. calls (snd (run_state (call c f) w)) = calls w @ cs
      \<and> env (snd (run_state (call c f) w)) = fold (amidBy eff) cs (env w)
      \<and> list_all (\<lambda>(k, k'). G k k') (ownMovesBy eff cs (env w)))
    \<and> Q (fst (run_state (call c f) w)) (fst (env (snd (run_state (call c f) w))))
    \<and> othersMove R (snd (env (snd (run_state (call c f) w))))"
    using step[OF \<open>P ?k\<close>] othersMove_shift[OF w(2)] env'
    by (intro conjI exI[of _ "[c]"]) (simp_all add: amidBy_def)
qed

text \<open>A block whose single calls need not be told apart.\<close>

lemma fold_moves:
  assumes P: "stable R P" and step: "\<And>c k. C c \<Longrightarrow> P k \<Longrightarrow> G k (eff c k) \<and> P (eff c k)"
  shows "list_all C cs \<Longrightarrow> P (fst e) \<Longrightarrow> othersMove R (snd e) \<Longrightarrow>
    list_all (\<lambda>(k, k'). G k k') (ownMovesBy eff cs e) \<and> P (fst (fold (amidBy eff) cs e))
    \<and> othersMove R (snd (fold (amidBy eff) cs e))"
proof (induction cs arbitrary: e)
  case (Cons c cs)
  let ?k = "snd e 0 (fst e)"
  have "P ?k" using Cons.prems P by (auto simp: stable_def othersMove_def)
  with step[of c ?k] Cons.prems have "G ?k (eff c ?k)" "P (fst (amidBy eff c e))"
    by (simp_all add: amidBy_def)
  moreover have "othersMove R (snd (amidBy eff c e))"
    using othersMove_shift[OF Cons.prems(3)] by (simp add: amidBy_def)
  ultimately show ?case using Cons by simp
qed simp

lemma rg_block:
  assumes "followsBy eff m" "only C m" "stable R P"
    and step: "\<And>c k. C c \<Longrightarrow> P k \<Longrightarrow> G k (eff c k) \<and> P (eff c k)"
  shows "rgBy eff R G P m (\<lambda>_. P)"
  unfolding rgBy_def
proof (intro allI impI)
  fix w :: "(apiCall, cluster \<times> others) world"
  assume w: "P (fst (env w))" "othersMove R (snd (env w))"
  from assms(1) obtain cs where cs: "calls (snd (run_state m w)) = calls w @ cs"
    "env (snd (run_state m w)) = fold (amidBy eff) cs (env w)" unfolding followsBy_def by blast
  moreover from assms(2) obtain ds where "calls (snd (run_state m w)) = calls w @ ds" "list_all C ds"
    unfolding only_def by blast
  ultimately have "list_all C cs" by simp
  from fold_moves[where eff = eff and C = C and P = P and G = G, OF assms(3) step this w] cs
  show "(\<exists>cs. calls (snd (run_state m w)) = calls w @ cs
      \<and> env (snd (run_state m w)) = fold (amidBy eff) cs (env w)
      \<and> list_all (\<lambda>(k, k'). G k k') (ownMovesBy eff cs (env w)))
    \<and> P (fst (env (snd (run_state m w)))) \<and> othersMove R (snd (env (snd (run_state m w))))" by auto
qed

lemma rg_cases:
  "(b \<Longrightarrow> rgBy eff R G P m Q) \<Longrightarrow> (\<not> b \<Longrightarrow> rgBy eff R G P n Q) \<Longrightarrow> rgBy eff R G P (if b then m else n) Q"
  "(\<And>e. s = Inl e \<Longrightarrow> rgBy eff R G P (f e) Q) \<Longrightarrow> (\<And>y. s = Inr y \<Longrightarrow> rgBy eff R G P (g y) Q) \<Longrightarrow>
   rgBy eff R G P (case s of Inl e \<Rightarrow> f e | Inr y \<Rightarrow> g y) Q"
  "(opt = None \<Longrightarrow> rgBy eff R G P m Q) \<Longrightarrow> (\<And>y. opt = Some y \<Longrightarrow> rgBy eff R G P (h y) Q) \<Longrightarrow>
   rgBy eff R G P (case opt of None \<Rightarrow> m | Some y \<Rightarrow> h y) Q"
  "(\<And>y z. p = (y, z) \<Longrightarrow> rgBy eff R G P (j y z) Q) \<Longrightarrow> rgBy eff R G P (case p of (y, z) \<Rightarrow> j y z) Q"
  by (simp_all split: sum.split option.split prod.split)

text \<open>Facts about values that hold whatever the environment answers.\<close>

lemma rg_yields: "rgBy eff R G P m Q \<Longrightarrow> yields Y m \<Longrightarrow> rgBy eff R G P m (\<lambda>x k. Y x \<and> Q x k)"
  by (auto simp: rgBy_def yields_def)

lemma rg_assume: "(F \<Longrightarrow> rgBy eff R G P m Q) \<Longrightarrow> rgBy eff R G (\<lambda>k. F \<and> P k) m Q"
  by (auto simp: rgBy_def)

lemma rg_exists: "(\<And>x. rgBy eff R G (P x) m Q) \<Longrightarrow> rgBy eff R G (\<lambda>k. \<exists>x. P x k) m Q"
  by (auto simp: rgBy_def)

lemma rg_outcome:
  "rgBy eff R G P m Q \<Longrightarrow> P (fst (env w)) \<Longrightarrow> othersMove R (snd (env w)) \<Longrightarrow> run_state m w = (x, w') \<Longrightarrow>
   Q x (fst (env w'))"
  by (fastforce simp: rgBy_def)

lemma rg_false: "rgBy eff R G (\<lambda>_. False) m Q"
  by (simp add: rgBy_def)

text \<open>A run from a given cluster, among others that move by \<open>R\<close>, as facts about its moves and its end.\<close>

lemma moves_stable:
  assumes "list_all (\<lambda>(k, k'). G k k') (ownMovesBy eff cs e)" "G \<le> R"
    and "othersMove R (snd e)" "stable R P" "P (fst e)"
  shows "P (fst (fold (amidBy eff) cs e))"
  using assms(1,3,5)
proof (induction cs arbitrary: e)
  case (Cons c cs)
  let ?k = "snd e 0 (fst e)"
  have "R ?k (eff c ?k)" using Cons.prems(1) assms(2) by auto
  moreover have "P ?k" using Cons.prems assms(4) by (auto simp: stable_def othersMove_def)
  ultimately have "P (fst (amidBy eff c e))" using assms(4) by (auto simp: stable_def amidBy_def)
  moreover have "othersMove R (snd (amidBy eff c e))"
    using othersMove_shift[OF Cons.prems(2)] by (simp add: amidBy_def)
  ultimately show ?case using Cons by simp
qed simp

lemma rg_run:
  assumes m: "rgBy eff R G P m Q" and k: "P k" and oth: "othersMove R oth"
    and run: "run_state m \<lparr>env = (k, oth), calls = []\<rparr> = (x, w)" and G: "G \<le> R"
  shows "list_all (\<lambda>(k, k'). G k k') (ownMovesBy eff (trace m \<lparr>env = (k, oth), calls = []\<rparr>) (k, oth))"
    and "stable R P' \<Longrightarrow> P' k \<Longrightarrow> P' (fst (env w))" and "Q x (fst (env w))"
proof -
  let ?w = "\<lparr>env = (k, oth), calls = []\<rparr>"
  have pre: "P (fst (env ?w))" "othersMove R (snd (env ?w))" using k oth by simp_all
  from m[unfolded rgBy_def, rule_format, OF pre] run obtain cs where
    cs: "calls w = cs" "env w = fold (amidBy eff) cs (k, oth)"
      "list_all (\<lambda>(k, k'). G k k') (ownMovesBy eff cs (k, oth))"
    and post: "Q x (fst (env w))" by auto
  show "list_all (\<lambda>(k, k'). G k k') (ownMovesBy eff (trace m ?w) (k, oth))"
    using cs(1,3) run by (simp add: trace_def)
  show "P' (fst (env w))" if "stable R P'" "P' k"
    using moves_stable[OF cs(3) G _ that(1)] oth that(2) cs(2) by simp
  show "Q x (fst (env w))" by (rule post)
qed

text \<open>With the calls of the reference API.\<close>

abbreviation ownMoves :: "apiCall list \<Rightarrow> cluster \<times> others \<Rightarrow> (cluster \<times> cluster) list" where
  "ownMoves \<equiv> ownMovesBy refEffect"

abbreviation rg :: "(cluster \<Rightarrow> cluster \<Rightarrow> bool) \<Rightarrow> (cluster \<Rightarrow> cluster \<Rightarrow> bool) \<Rightarrow> (cluster \<Rightarrow> bool) \<Rightarrow>
    (cluster \<times> others, 'a) prog \<Rightarrow> ('a \<Rightarrow> cluster \<Rightarrow> bool) \<Rightarrow> bool" where
  "rg \<equiv> rgBy refEffect"

end
