(* ===== verification/ConfigLifecycle.thy ===== *)
theory ConfigLifecycle
  imports ProviderConfig Lifecycle RelyGuarantee
begin

text \<open>
  The contract of the configuration objects.  Unlike a request's targets, an operator's form is
  written by one update and the completion by another one, and a form may be written again, also
  after completion; so contributing and completing are steps of their own here, and completing may
  happen more than once.  \<open>configMove\<close> is the contract on stored objects, both what an operator
  does and what it asks of the others.
\<close>

section \<open>The contract\<close>

record configLife =
  cfPhase :: phase
  cfData :: "string \<Rightarrow> ProviderConfigData option"
  cfCreated :: "time option"
  cfCompleted :: "time option"

definition configLifeOf :: "KrknOperatorTargetProviderConfig \<Rightarrow> configLife" where
  "configLifeOf c = \<lparr>cfPhase = phaseOf (pcStatus c), cfData = mapGet (pcConfigData c),
     cfCreated = pcCreated c, cfCompleted = pcCompleted c\<rparr>"

lemma configLifeOf_simps [simp]:
  "cfPhase (configLifeOf c) = phaseOf (pcStatus c)" "cfData (configLifeOf c) = mapGet (pcConfigData c)"
  "cfCreated (configLifeOf c) = pcCreated c" "cfCompleted (configLifeOf c) = pcCompleted c"
  by (simp_all add: configLifeOf_def)

text \<open>The steps operator \<open>p\<close> may take when the active operators are \<open>A\<close>.\<close>

inductive config_step :: "string set \<Rightarrow> string \<Rightarrow> configLife \<Rightarrow> configLife \<Rightarrow> bool"
  for A :: "string set" and p :: string where
  start: "cfPhase s = New \<Longrightarrow> config_step A p s (s\<lparr>cfPhase := Waiting, cfCreated := Some now\<rparr>)"
| contribute: "cfPhase s \<noteq> New \<Longrightarrow> config_step A p s (s\<lparr>cfData := (cfData s)(p \<mapsto> d)\<rparr>)"
| complete: "cfPhase s \<noteq> New \<Longrightarrow> A \<subseteq> dom (cfData s) \<Longrightarrow>
    config_step A p s (s\<lparr>cfPhase := Done, cfCompleted := Some now\<rparr>)"

inductive_cases config_stepE: "config_step A p s s'"

definition config_inv :: "string set \<Rightarrow> configLife \<Rightarrow> bool" where
  "config_inv A s = (cfPhase s \<in> {New, Waiting, Done} \<and> dom (cfData s) \<subseteq> A
     \<and> (cfPhase s = Done \<longrightarrow> A \<subseteq> dom (cfData s)))"

lemma config_step_inv: "config_step A p s s' \<Longrightarrow> p \<in> A \<Longrightarrow> config_inv A s \<Longrightarrow> config_inv A s'"
  by (induction rule: config_step.induct) (auto simp: config_inv_def)

text \<open>A step never takes the phase back, and only changes the own entry.\<close>

lemma config_step_grows:
  assumes "config_step A p s s'"
  shows "dom (cfData s) \<subseteq> dom (cfData s')" "q \<noteq> p \<Longrightarrow> cfData s' q = cfData s q"
    "cfPhase s \<noteq> New \<Longrightarrow> cfPhase s' \<noteq> New" "cfPhase s = Done \<Longrightarrow> cfPhase s' = Done"
  using assms by (induction rule: config_step.induct) auto

section \<open>Stored objects\<close>

definition storedConfig :: "nsname \<Rightarrow> cluster \<Rightarrow> KrknOperatorTargetProviderConfig option" where
  "storedConfig req k = map_of (kConfigs k) req"

abbreviation configKey :: "KrknOperatorTargetProviderConfig \<Rightarrow> nsname" where
  "configKey c \<equiv> (pcNamespace c, pcName c)"

definition configStep :: "string set \<Rightarrow> string \<Rightarrow> KrknOperatorTargetProviderConfig \<Rightarrow>
    KrknOperatorTargetProviderConfig \<Rightarrow> bool" where
  "configStep A p c c' = (configKey c' = configKey c
     \<and> length (pcResourceVersion c) < length (pcResourceVersion c')
     \<and> (mapWf (pcConfigData c) \<longrightarrow> mapWf (pcConfigData c'))
     \<and> (configLifeOf c' = configLifeOf c \<or> config_step A p (configLifeOf c) (configLifeOf c')))"

definition configMove :: "string set \<Rightarrow> nsname \<Rightarrow> string \<Rightarrow> cluster \<Rightarrow> cluster \<Rightarrow> bool" where
  "configMove A req p k k' = (storedConfig req k' = storedConfig req k
     \<or> (\<exists>c c'. storedConfig req k = Some c \<and> storedConfig req k' = Some c' \<and> configStep A p c c'))"

definition configMoves :: "string set \<Rightarrow> nsname \<Rightarrow> cluster \<Rightarrow> cluster \<Rightarrow> bool" where
  "configMoves A req = (\<lambda>k k'. \<exists>p \<in> A. configMove A req p k k')\<^sup>*\<^sup>*"

lemma own_config_moves: "p \<in> A \<Longrightarrow> configMove A req p \<le> configMoves A req"
  unfolding configMoves_def by blast

definition configOk :: "string set \<Rightarrow> nsname \<Rightarrow> KrknOperatorTargetProviderConfig \<Rightarrow> bool" where
  "configOk A req c = (configKey c = req \<and> mapWf (pcConfigData c) \<and> config_inv A (configLifeOf c))"

definition hasConfig :: "string set \<Rightarrow> nsname \<Rightarrow> (KrknOperatorTargetProviderConfig \<Rightarrow> bool) \<Rightarrow> cluster \<Rightarrow> bool" where
  "hasConfig A req F k = (\<exists>c. storedConfig req k = Some c \<and> configOk A req c \<and> F c)"

lemma configStep_ok: "configStep A p c c' \<Longrightarrow> p \<in> A \<Longrightarrow> configOk A req c \<Longrightarrow> configOk A req c'"
  by (auto simp: configStep_def configOk_def dest: config_step_inv)

lemma configStep_grows:
  assumes "configStep A p c c'"
  shows "dom (mapGet (pcConfigData c)) \<subseteq> dom (mapGet (pcConfigData c'))"
    "pcStatus c \<noteq> [] \<Longrightarrow> pcStatus c' \<noteq> []" "pcStatus c = StatusCompleted \<Longrightarrow> pcStatus c' = StatusCompleted"
proof -
  let ?s = "configLifeOf c" and ?s' = "configLifeOf c'"
  consider "?s' = ?s" | "config_step A p ?s ?s'"
    using assms by (auto simp: configStep_def)
  then have "dom (cfData ?s) \<subseteq> dom (cfData ?s') \<and> (cfPhase ?s \<noteq> New \<longrightarrow> cfPhase ?s' \<noteq> New)
      \<and> (cfPhase ?s = Done \<longrightarrow> cfPhase ?s' = Done)"
    by cases (simp, blast dest: config_step_grows)
  then show "dom (mapGet (pcConfigData c)) \<subseteq> dom (mapGet (pcConfigData c'))"
    "pcStatus c \<noteq> [] \<Longrightarrow> pcStatus c' \<noteq> []" "pcStatus c = StatusCompleted \<Longrightarrow> pcStatus c' = StatusCompleted"
    unfolding configLifeOf_simps phaseOf_eq by blast+
qed

text \<open>
  What an operator knows of the stored object: it was started, some operators have contributed,
  and it is the object it has read or a later version of it.
\<close>

definition knows :: "bool \<Rightarrow> string set \<Rightarrow> KrknOperatorTargetProviderConfig \<Rightarrow> bool" where
  "knows b D c = ((b \<longrightarrow> pcStatus c \<noteq> []) \<and> D \<subseteq> dom (mapGet (pcConfigData c)))"

definition since :: "KrknOperatorTargetProviderConfig \<Rightarrow> KrknOperatorTargetProviderConfig \<Rightarrow> bool" where
  "since c0 c = (c = c0 \<or> length (pcResourceVersion c0) < length (pcResourceVersion c))"

lemma knows_step: "configStep A p c c' \<Longrightarrow> knows b D c \<Longrightarrow> knows b D c'"
  unfolding knows_def using configStep_grows(1,2) by blast

lemma since_step: "configStep A p c c' \<Longrightarrow> since c0 c \<Longrightarrow> since c0 c'"
  by (auto simp: since_def configStep_def)

lemma since_same: "since c0 c \<Longrightarrow> pcResourceVersion c = pcResourceVersion c0 \<Longrightarrow> c = c0"
  by (auto simp: since_def)

lemma stable_hasConfig:
  assumes "\<And>p c c'. p \<in> A \<Longrightarrow> configStep A p c c' \<Longrightarrow> F c \<Longrightarrow> F c'"
  shows "stable (configMoves A req) (hasConfig A req F)"
  unfolding stable_def configMoves_def
proof (intro allI impI)
  fix k k' assume "hasConfig A req F k" "(\<lambda>k k'. \<exists>p\<in>A. configMove A req p k k')\<^sup>*\<^sup>* k k'"
  from this(2,1) show "hasConfig A req F k'"
  proof (induction rule: rtranclp_induct)
    case (step k' k'')
    then show ?case
      using assms configStep_ok unfolding hasConfig_def configMove_def by (metis option.inject)
  qed
qed

lemma configMove_hasConfig:
  "configMove A req p k k' \<Longrightarrow> p \<in> A \<Longrightarrow> hasConfig A req F k \<Longrightarrow>
   (\<And>c c'. configStep A p c c' \<Longrightarrow> F c \<Longrightarrow> F c') \<Longrightarrow> hasConfig A req F k'"
  unfolding hasConfig_def configMove_def using configStep_ok by (metis option.inject)

text \<open>Knowing the object since it was read.\<close>

abbreviation reading :: "string set \<Rightarrow> nsname \<Rightarrow> bool \<Rightarrow> string set \<Rightarrow> KrknOperatorTargetProviderConfig \<Rightarrow> cluster \<Rightarrow> bool" where
  "reading A req b D c0 \<equiv> hasConfig A req (\<lambda>c. since c0 c \<and> knows b D c)"

lemma stable_reading:
  "stable (configMoves A req) (reading A req b D c0)" "stable (configMoves A req) (hasConfig A req (knows b D))"
  by (rule stable_hasConfig, use since_step knows_step in blast)+

lemma reading_knows: "reading A req b D c0 k \<Longrightarrow> hasConfig A req (knows b D) k"
  by (auto simp: hasConfig_def)

text \<open>An update that is accepted replaces the very object it was based on.\<close>

lemma storedConfig_update: "storedConfig req (k\<lparr>kConfigs := AList.update req new (kConfigs k)\<rparr>) = Some new"
  by (simp add: storedConfig_def update_conv')

lemma config_update_accepted:
  assumes "configOk A req c0" "reading A req b D c0 k" and u: "configKey u = req" "pcResourceVersion u = pcResourceVersion c0"
  shows "(\<exists>e. refUpdateConfig s u k = (Inl e, k)) \<or> (\<exists>new. refUpdateConfig s u k =
      (Inr new, k\<lparr>kConfigs := AList.update req new (kConfigs k)\<rparr>)
     \<and> storedConfig req k = Some c0 \<and> knows b D c0
     \<and> new = (if s then c0\<lparr>pcStatus := pcStatus u, pcConfigData := pcConfigData u, pcCreated := pcCreated u,
                        pcCompleted := pcCompleted u, pcResourceVersion := nextVersion (pcResourceVersion c0)\<rparr>
              else c0\<lparr>pcLabels := pcLabels u, pcUUID := pcUUID u,
                     pcResourceVersion := nextVersion (pcResourceVersion c0)\<rparr>))"
proof -
  from assms(2) obtain old where old: "storedConfig req k = Some old" "since c0 old" "knows b D old"
    by (auto simp: hasConfig_def)
  show ?thesis
  proof (cases "pcResourceVersion old = pcResourceVersion c0")
    case True
    with old(2) have "old = c0" by (rule since_same)
    with assms(1) old u show ?thesis by (auto simp: refUpdateConfig_def storedConfig_def Let_def)
  next
    case False
    with old u show ?thesis by (auto simp: refUpdateConfig_def storedConfig_def)
  qed
qed

end
