(* ===== verification/Guarantee.thy ===== *)
theory Guarantee
  imports RelyGuarantee Lifecycle
begin

text \<open>
  The reconciler of KrknTargetRequest implements the contract of \<^verbatim>\<open>Lifecycle\<close>, among any number
  of other operators, by the calculus of \<^verbatim>\<open>RelyGuarantee\<close>.  What an operator guarantees,
  \<open>requestMove\<close>, is also all it asks of the others, so the statement holds for operators running
  side by side.  The operators see a fixed list of providers (\<open>steadyApi\<close>).
\<close>

section \<open>Moves of a request\<close>

text \<open>
  One atomic change of the stored request by operator \<open>p\<close>: a new version that either leaves
  status and data alone or is a step of the contract.
\<close>

definition requestStep :: "string set \<Rightarrow> string \<Rightarrow> KrknTargetRequest \<Rightarrow> KrknTargetRequest \<Rightarrow> bool" where
  "requestStep A p t t' =
     ((trNamespace t', trName t') = (trNamespace t, trName t)
      \<and> length (trResourceVersion t) < length (trResourceVersion t')
      \<and> (mapWf (trTargetData t) \<longrightarrow> mapWf (trTargetData t'))
      \<and> ((trStatus t' = trStatus t \<and> trTargetData t' = trTargetData t \<and> trCompleted t' = trCompleted t)
         \<or> lifecycle_step A p (lifecycleOf t) (lifecycleOf t')))"

definition requestMove :: "string set \<Rightarrow> nsname \<Rightarrow> string \<Rightarrow> cluster \<Rightarrow> cluster \<Rightarrow> bool" where
  "requestMove A req p k k' = (stored req k' = stored req k
     \<or> (\<exists>t t'. stored req k = Some t \<and> stored req k' = Some t' \<and> requestStep A p t t'))"

text \<open>What an operator asks of the others: any number of such moves, by any active operators.\<close>

definition operatorMoves :: "string set \<Rightarrow> nsname \<Rightarrow> cluster \<Rightarrow> cluster \<Rightarrow> bool" where
  "operatorMoves A req = (\<lambda>k k'. \<exists>p \<in> A. requestMove A req p k k')\<^sup>*\<^sup>*"

lemma own_moves: "p \<in> A \<Longrightarrow> requestMove A req p \<le> operatorMoves A req"
  unfolding operatorMoves_def by blast

definition requestOk :: "string set \<Rightarrow> nsname \<Rightarrow> KrknTargetRequest \<Rightarrow> bool" where
  "requestOk A req t = ((trNamespace t, trName t) = req \<and> mapWf (trTargetData t)
     \<and> lifecycle_inv A (lifecycleOf t))"

definition hasRequest :: "string set \<Rightarrow> nsname \<Rightarrow> (KrknTargetRequest \<Rightarrow> bool) \<Rightarrow> cluster \<Rightarrow> bool" where
  "hasRequest A req F k = (\<exists>u. stored req k = Some u \<and> requestOk A req u \<and> F u)"

lemma lifecycle_advances:
  assumes "lifecycle_step A p (lifecycleOf t) (lifecycleOf t')"
  shows "(trStatus t' = trStatus t \<or> trStatus t = [] \<or> (trStatus t = StatusPending \<and> trStatus t' = StatusCompleted))
     \<and> (\<forall>q ts. mapGet (trTargetData t) q = Some ts \<longrightarrow> mapGet (trTargetData t') q = Some ts)
     \<and> trStatus t \<noteq> StatusCompleted"
proof -
  have "\<forall>q ts. mapGet (trTargetData t) q = Some ts \<longrightarrow> mapGet (trTargetData t') q = Some ts"
    using lifecycle_step_targets[OF assms] by (auto simp: map_le_def dom_def)
  moreover from assms have "trStatus t' = trStatus t \<or> trStatus t = []
      \<or> (trStatus t = StatusPending \<and> trStatus t' = StatusCompleted)"
    by cases (auto simp: lifecycleOf_def phaseOf_inject dest!: arg_cong[of _ _ lcPhase])
  moreover have "trStatus t \<noteq> StatusCompleted" using lifecycle_step_waiting[OF assms] by simp
  ultimately show ?thesis by blast
qed

lemma requestStep_newer: "requestStep A p t t' \<Longrightarrow> newer t t'"
  using lifecycle_advances[of A p t t'] by (auto simp: requestStep_def newer_def advances_def)

lemma requestStep_ok: "requestStep A p t t' \<Longrightarrow> p \<in> A \<Longrightarrow> requestOk A req t \<Longrightarrow> requestOk A req t'"
  by (auto simp: requestStep_def requestOk_def lifecycleOf_def dest: lifecycle_step_inv)

lemma stable_hasRequest:
  assumes "\<And>p t t'. p \<in> A \<Longrightarrow> requestStep A p t t' \<Longrightarrow> F t \<Longrightarrow> F t'"
  shows "stable (operatorMoves A req) (hasRequest A req F)"
  unfolding stable_def operatorMoves_def
proof (intro allI impI)
  fix k k' assume "hasRequest A req F k" "(\<lambda>k k'. \<exists>p\<in>A. requestMove A req p k k')\<^sup>*\<^sup>* k k'"
  from this(2,1) show "hasRequest A req F k'"
  proof (induction rule: rtranclp_induct)
    case (step k' k'')
    then show ?case
      using assms requestStep_ok unfolding hasRequest_def requestMove_def by (metis option.inject)
  qed
qed

lemma requestMove_hasRequest:
  "requestMove A req p k k' \<Longrightarrow> p \<in> A \<Longrightarrow> hasRequest A req F k \<Longrightarrow>
   (\<And>t t'. requestStep A p t t' \<Longrightarrow> F t \<Longrightarrow> F t') \<Longrightarrow> hasRequest A req F k'"
  unfolding hasRequest_def requestMove_def using requestStep_ok by (metis option.inject)

text \<open>The request \<open>t\<close> was read; the operator \<open>p\<close> has contributed.\<close>

abbreviation holding :: "string set \<Rightarrow> nsname \<Rightarrow> KrknTargetRequest \<Rightarrow> cluster \<Rightarrow> bool" where
  "holding A req t \<equiv> hasRequest A req (newer t)"

abbreviation contributed :: "string set \<Rightarrow> nsname \<Rightarrow> string \<Rightarrow> cluster \<Rightarrow> bool" where
  "contributed A req p \<equiv> hasRequest A req (\<lambda>u. mapGet (trTargetData u) p \<noteq> None)"

lemma newer_step: "requestStep A p u v \<Longrightarrow> newer t u \<Longrightarrow> newer t v"
  using requestStep_newer newer_trans by blast

lemma contributed_step:
  "requestStep A p u v \<Longrightarrow> mapGet (trTargetData u) q \<noteq> None \<Longrightarrow> mapGet (trTargetData v) q \<noteq> None"
  using lifecycle_advances[of A p u v] by (auto simp: requestStep_def)

lemma started_step: "requestStep A p u v \<Longrightarrow> trStatus u \<noteq> [] \<Longrightarrow> trStatus v \<noteq> []"
  using requestStep_newer[of A p u v] by (auto simp: newer_def dest: advancesD(2))

lemma stable_request:
  "stable (operatorMoves A req) (holding A req t)" "stable (operatorMoves A req) (contributed A req p)"
  by (rule stable_hasRequest, erule (1) newer_step contributed_step)+

lemma move_holding:
  assumes "requestMove A req p k k'" "p \<in> A" "holding A req t k"
  shows "holding A req t k'"
  by (rule requestMove_hasRequest[OF assms]) (rule newer_step)

text \<open>An update that is accepted replaces the very request it was based on.\<close>

lemma update_accepted:
  assumes "requestOk A req t" "stored req k = Some old" "newer t old" "requestOk A req old"
    and u: "(trNamespace u, trName u) = req" "trResourceVersion u = trResourceVersion t"
  shows "(\<exists>e. refUpdateRequest b u k = (Inl e, k)) \<or> (\<exists>new. refUpdateRequest b u k =
      (Inr new, k\<lparr>kRequests := AList.update req new (kRequests k)\<rparr>)
     \<and> stored req k = Some t
     \<and> new = (if b then t\<lparr>trStatus := trStatus u, trTargetData := trTargetData u, trCompleted := trCompleted u,
                        trResourceVersion := nextVersion (trResourceVersion t)\<rparr>
              else t\<lparr>trLabels := trLabels u, trUUID := trUUID u,
                     trResourceVersion := nextVersion (trResourceVersion t)\<rparr>))"
proof (cases "trResourceVersion old = trResourceVersion t")
  case True
  with assms(3) have "old = t" by (rule newer_same)
  with assms show ?thesis by (auto simp: refUpdateRequest_def stored_def Let_def)
next
  case False
  with assms show ?thesis by (auto simp: refUpdateRequest_def stored_def)
qed

lemma stored_update: "stored req (k\<lparr>kRequests := AList.update req new (kRequests k)\<rparr>) = Some new"
  by (simp add: stored_def update_conv')

text \<open>The status updates of a pending request, with the providers the code counts.\<close>

fun lifecycleWrite :: "'e KrknTargetRequestReconciler \<Rightarrow> KrknOperatorTargetProvider list \<Rightarrow> KrknTargetRequest \<Rightarrow>
    apiCall \<Rightarrow> bool" where
  "lifecycleWrite r ps t (CUpdateTargetRequest u) = False"
| "lifecycleWrite r ps t (CStatusUpdateTargetRequest u) =
     (if mapGet (trTargetData t) (OperatorName r) = None then \<exists>now ts. u = publishedRequest now r ps t ts
      else shouldMarkAsCompleted (countActiveProviders ps) (mapLen (trTargetData t))
           \<and> (\<exists>now. u = completeRequest now t))"
| "lifecycleWrite r ps t c = True"

lemma publishedRequest_step:
  assumes t: "requestOk A req t" "trStatus t = StatusPending" "mapGet (trTargetData t) (OperatorName r) = None"
    and A: "A = set (activeNames ps)" "distinct (activeNames ps)" "OperatorName r \<in> A"
  shows "lifecycle_step A (OperatorName r) (lifecycleOf t) (lifecycleOf (publishedRequest now r ps t ts))"
proof -
  let ?m = "putTargets (OperatorName r) ts (trTargetData t)" and ?u = "publishedRequest now r ps t ts"
  have wf: "mapWf ?m" and keys: "set (mapKeys ?m) \<subseteq> set (activeNames ps)"
    using t A by (auto simp: requestOk_def mapWf_putTargets mapKeys_putTargets lifecycle_inv_def mapKeys_get)
  have data: "mapGet (trTargetData ?u) = (mapGet (trTargetData t))(OperatorName r \<mapsto> ts)"
    by (auto simp: publishedRequest_targets mapGet_putTargets)
  have "allActiveContributed ps ?m \<longleftrightarrow> A \<subseteq> insert (OperatorName r) (dom (mapGet (trTargetData t)))"
    using A by (auto simp: allActiveContributed_set mapKeys_putTargets mapKeys_get)
  then have count: "shouldMarkAsCompleted (countActiveProviders ps) (mapLen ?m)
      \<longleftrightarrow> A \<subseteq> insert (OperatorName r) (dom (mapGet (trTargetData t)))"
    using shouldMark_complete[OF wf A(2)] shouldMark_sound[OF wf A(2) keys] by blast
  show ?thesis
  proof (cases "A \<subseteq> insert (OperatorName r) (dom (mapGet (trTargetData t)))")
    case True
    then have "lifecycleOf ?u = (lifecycleOf t)\<lparr>lcPhase := Done,
        lcTargets := (lcTargets (lifecycleOf t))(OperatorName r \<mapsto> ts), lcCompleted := Some now\<rparr>"
      using data count by (simp add: lifecycleOf_def publishedRequest_def putTargets_def completeRequest_def Let_def)
    moreover have "lifecycle_step A (OperatorName r) (lifecycleOf t) ((lifecycleOf t)\<lparr>lcPhase := Done,
        lcTargets := (lcTargets (lifecycleOf t))(OperatorName r \<mapsto> ts), lcCompleted := Some now\<rparr>)"
      using t True by (intro lifecycle_step.finish) simp_all
    ultimately show ?thesis by simp
  next
    case False
    then have "lifecycleOf ?u = (lifecycleOf t)\<lparr>lcTargets := (lcTargets (lifecycleOf t))(OperatorName r \<mapsto> ts)\<rparr>"
      using data count t(2)
      by (simp add: lifecycleOf_def publishedRequest_def putTargets_def completeRequest_def Let_def)
    moreover have "lifecycle_step A (OperatorName r) (lifecycleOf t)
        ((lifecycleOf t)\<lparr>lcTargets := (lcTargets (lifecycleOf t))(OperatorName r \<mapsto> ts)\<rparr>)"
      using t False by (intro lifecycle_step.contribute) simp_all
    ultimately show ?thesis by simp
  qed
qed

lemma completeRequest_step:
  assumes t: "requestOk A req t" "trStatus t = StatusPending" "mapGet (trTargetData t) (OperatorName r) \<noteq> None"
    and A: "A = set (activeNames ps)" "distinct (activeNames ps)"
    and count: "shouldMarkAsCompleted (countActiveProviders ps) (mapLen (trTargetData t))"
  shows "lifecycle_step A (OperatorName r) (lifecycleOf t) (lifecycleOf (completeRequest now t))"
proof -
  have wf: "mapWf (trTargetData t)" and keys: "set (mapKeys (trTargetData t)) \<subseteq> set (activeNames ps)"
    using t A by (auto simp: requestOk_def lifecycle_inv_def mapKeys_get)
  from shouldMark_sound[OF wf A(2) keys count] have "A \<subseteq> dom (mapGet (trTargetData t))"
    using A by (auto simp: allActiveContributed_set mapKeys_get)
  then have "lifecycle_step A (OperatorName r) (lifecycleOf t) ((lifecycleOf t)\<lparr>lcPhase := Done, lcCompleted := Some now\<rparr>)"
    using t by (intro lifecycle_step.complete) simp_all
  then show ?thesis by (simp add: lifecycleOf_def completeRequest_def)
qed

text \<open>A status update that is a step of the contract: a move, whether it is accepted or not.\<close>

lemma status_update_move:
  assumes t: "requestOk A req t" and k: "holding A req t k"
    and base: "(trNamespace u, trName u) = req" "trResourceVersion u = trResourceVersion t"
    and step: "lifecycle_step A p (lifecycleOf t) (lifecycleOf u)" and wf: "mapWf (trTargetData u)"
  shows "requestMove A req p k (snd (refUpdateRequest True u k))
     \<and> (\<forall>new. fst (refUpdateRequest True u k) = Inr new \<longrightarrow>
          stored req (snd (refUpdateRequest True u k)) = Some new \<and> lifecycleOf new = lifecycleOf u)"
proof -
  from k obtain old where old: "stored req k = Some old" "newer t old" "requestOk A req old"
    by (auto simp: hasRequest_def)
  consider e where "refUpdateRequest True u k = (Inl e, k)"
    | new where "refUpdateRequest True u k = (Inr new, k\<lparr>kRequests := AList.update req new (kRequests k)\<rparr>)"
        "stored req k = Some t" "new = t\<lparr>trStatus := trStatus u, trTargetData := trTargetData u,
           trCompleted := trCompleted u, trResourceVersion := nextVersion (trResourceVersion t)\<rparr>"
    using update_accepted[OF t old base, of True] by auto
  then show ?thesis
  proof cases
    case (2 new)
    have same: "lifecycleOf new = lifecycleOf u" using 2(3) by (simp add: lifecycleOf_def)
    have "requestStep A p t new"
      unfolding requestStep_def same using step wf 2(3) by (simp add: nextVersion_longer)
    then show ?thesis using 2(1,2) same by (auto simp: requestMove_def stored_update)
  qed (simp add: requestMove_def)
qed

text \<open>Every write of a pending request is such a move.\<close>

lemma lifecycleWrite_step:
  assumes t: "requestOk A req t" "trStatus t = StatusPending"
    and A: "A = set (activeNames ps)" "distinct (activeNames ps)" "OperatorName r \<in> A"
    and u: "lifecycleWrite r ps t (CStatusUpdateTargetRequest u)"
  shows "(trNamespace u, trName u) = req" "trResourceVersion u = trResourceVersion t"
    and "lifecycle_step A (OperatorName r) (lifecycleOf t) (lifecycleOf u)" and "mapWf (trTargetData u)"
proof -
  show "(trNamespace u, trName u) = req" "trResourceVersion u = trResourceVersion t"
    using u t(1) by (auto simp: requestOk_def publishedRequest_def completeRequest_def Let_def split: if_splits)
  show "lifecycle_step A (OperatorName r) (lifecycleOf t) (lifecycleOf u)"
    using u publishedRequest_step[OF t _ A] completeRequest_step[OF t _ A(1,2)] by (auto split: if_splits)
  show "mapWf (trTargetData u)"
    using u t(1) by (auto simp: publishedRequest_targets requestOk_def mapWf_putTargets completeRequest_def split: if_splits)
qed

lemma write_move:
  assumes t: "requestOk A req t" "trStatus t = StatusPending"
    and A: "A = set (activeNames ps)" "distinct (activeNames ps)" "OperatorName r \<in> A"
    and c: "lifecycleWrite r ps t c" and k: "holding A req t k"
  shows "requestMove A req (OperatorName r) k (refEffect c k)"
proof -
  have same: "requestMove A req (OperatorName r) k k'" if "kRequests k' = kRequests k" for k'
    using that by (simp add: requestMove_def stored_def)
  show ?thesis
  proof (cases c)
    case (CStatusUpdateTargetRequest u)
    note step = lifecycleWrite_step[OF t A c[unfolded CStatusUpdateTargetRequest]]
    from status_update_move[OF t(1) k step] CStatusUpdateTargetRequest show ?thesis by simp
  qed (use c in \<open>auto intro!: same simp: refCreateSecret_def refUpdateSecret_def refUpdateConfig_def
      refContribute_def Let_def split: option.split prod.split sum.split\<close>)
qed

section \<open>The reconciler\<close>

text \<open>Operators that see the same providers all the time.\<close>

locale steady_calls = acts_by_calls +
  fixes ps :: "KrknOperatorTargetProvider list"
  assumes providers: "fst (apiListProviders api ns e) = Inr (filter (\<lambda>p. pvNamespace p = ns) ps)"

definition providersOf :: "KrknOperatorTargetProvider list \<Rightarrow> string \<Rightarrow> KrknOperatorTargetProvider list" where
  "providersOf ps ns = filter (\<lambda>p. pvNamespace p = ns) ps"

fun requestCall :: "apiCall \<Rightarrow> bool" where
  "requestCall (CUpdateTargetRequest t) = True"
| "requestCall (CStatusUpdateTargetRequest t) = True"
| "requestCall c = False"

lemma aside_stored: "\<not> requestCall c \<Longrightarrow> stored req (refEffect c k) = stored req k"
  by (cases c) (simp_all add: stored_def refCreateSecret_def refUpdateSecret_def refUpdateConfig_def
      refContribute_def Let_def split: option.split prod.split sum.split)

text \<open>An active operator with the default probes, in a namespace where no name occurs twice.\<close>

definition activeOperator :: "KrknOperatorTargetProvider list \<Rightarrow> 'e KrknTargetRequestReconciler \<Rightarrow> bool" where
  "activeOperator ps r = (defaultProbes r \<and> distinct (map pvOperatorName (providersOf ps (OperatorNamespace r)))
     \<and> OperatorName r \<in> set (activeNames (providersOf ps (OperatorNamespace r))))"

abbreviation activeSet :: "KrknOperatorTargetProvider list \<Rightarrow> string \<Rightarrow> string set" where
  "activeSet ps ns \<equiv> set (activeNames (providersOf ps ns))"

lemma activeNames_distinct: "distinct (map pvOperatorName qs) \<Longrightarrow> distinct (activeNames qs)"
  by (simp add: activeNames_def distinct_map_filter)

lemma find_active:
  assumes "distinct (map pvOperatorName qs)" "n \<in> set (activeNames qs)"
  shows "\<exists>p. find (\<lambda>p. pvOperatorName p = n) qs = Some p \<and> pvActive p"
  using assms by (induction qs) (auto simp: activeNames_def split: if_splits)

context steady_calls
begin

lemma finds_itself:
  assumes "activeOperator ps r"
  shows "yields (\<lambda>x. x = (Some (providersOf ps (OperatorNamespace r)), False, emptyResult, None))
    (checkProviderActive api (OperatorName r) (OperatorNamespace r))"
proof -
  from assms find_active[of "providersOf ps (OperatorNamespace r)" "OperatorName r"] obtain p where
    "find (\<lambda>p. pvOperatorName p = OperatorName r) (providersOf ps (OperatorNamespace r)) = Some p" "pvActive p"
    by (auto simp: activeOperator_def)
  then show ?thesis
    by (simp add: checkProviderActive_def yields_def providers flip: providersOf_def)
qed

text \<open>What the code does beside the request: clusters, secrets, cleanup.\<close>

lemma rg_aside:
  assumes "follows m" "only (\<lambda>c. \<not> requestCall c) m" "stable (operatorMoves A req) (hasRequest A req F)"
  shows "rg (operatorMoves A req) (requestMove A req p) (hasRequest A req F) m (\<lambda>_. hasRequest A req F)"
  by (rule rg_block[OF assms]) (simp add: aside_stored requestMove_def hasRequest_def)

abbreviation ownRg :: "string set \<Rightarrow> nsname \<Rightarrow> string \<Rightarrow> (cluster \<Rightarrow> bool) \<Rightarrow> (cluster \<times> others, 'x) prog \<Rightarrow>
    ('x \<Rightarrow> cluster \<Rightarrow> bool) \<Rightarrow> bool" where
  "ownRg A req p \<equiv> rg (operatorMoves A req) (requestMove A req p)"

lemma rg_cleanup: "stable (operatorMoves A req) (hasRequest A req F) \<Longrightarrow>
   ownRg A req p (hasRequest A req F) (cleanupAndReturn api r) (\<lambda>_. hasRequest A req F)"
  by (rule rg_aside) (simp_all add: cleanupAndReturn_def cleanupOldTargetRequests_def, (intro amid_rules wp; simp)+)

lemma rg_publish:
  assumes t: "requestOk A req t" "trStatus t = StatusPending" "mapGet (trTargetData t) (OperatorName r) = None"
    and A: "A = set (activeNames qs)" "distinct (activeNames qs)" "OperatorName r \<in> A"
  shows "ownRg A req (OperatorName r) (holding A req t) (publishTargets api r qs t ts)
     (\<lambda>res k. res = (emptyResult, None) \<longrightarrow> contributed A req (OperatorName r) k)"
proof -
  let ?p = "OperatorName r"
  have publish: "publishTargets api r qs t ts = do {
      now \<leftarrow> Now api;
      u \<leftarrow> StatusUpdate_TargetRequest api (publishedRequest now r qs t ts);
      case u of Inl e \<Rightarrow> ret (if isConflict e then (requeueNow, None) else (emptyResult, Some e))
      | Inr _ \<Rightarrow> cleanupAndReturn api r }"
    by (simp add: publishTargets_def publishedRequest_def Let_def)
  have update: "ownRg A req ?p (holding A req t) (StatusUpdate_TargetRequest api (publishedRequest now r qs t ts))
     (\<lambda>u k. case u of Inl _ \<Rightarrow> True | Inr _ \<Rightarrow> contributed A req ?p k)" for now
  proof (rule rg_call[OF status_update _ stable_request(1)])
    fix k assume k: "holding A req t k"
    let ?u = "publishedRequest now r qs t ts" and ?k = "snd (refUpdateRequest True (publishedRequest now r qs t ts) k)"
    have allowed: "lifecycleWrite r qs t (CStatusUpdateTargetRequest ?u)" using t(3) by auto
    note step = lifecycleWrite_step[OF t(1,2) A allowed]
    have move: "requestMove A req ?p k ?k" and new: "\<forall>new. fst (refUpdateRequest True ?u k) = Inr new \<longrightarrow>
        stored req ?k = Some new \<and> lifecycleOf new = lifecycleOf ?u"
      using status_update_move[OF t(1) k step] by simp_all
    have "holding A req t ?k" by (rule move_holding[OF move A(3) k])
    then have "contributed A req ?p ?k" if "fst (refUpdateRequest True ?u k) = Inr x" for x
      using new that publishedRequest_own[of now r qs t ts]
      by (auto simp: hasRequest_def dest!: arg_cong[of _ _ lcTargets])
    with move show "requestMove A req ?p k (refEffect (CStatusUpdateTargetRequest ?u) k)
       \<and> (case fst (apiStatusUpdateTargetRequest refApi ?u k) of Inl _ \<Rightarrow> True
          | Inr _ \<Rightarrow> contributed A req ?p (refEffect (CStatusUpdateTargetRequest ?u) k))"
      by (simp split: sum.split)
  qed simp
  have after: "ownRg A req ?p (\<lambda>k. case u of Inl _ \<Rightarrow> True | Inr _ \<Rightarrow> contributed A req ?p k)
     (case u of Inl e \<Rightarrow> ret (if isConflict e then (requeueNow, None) else (emptyResult, Some e))
      | Inr _ \<Rightarrow> cleanupAndReturn api r)
     (\<lambda>res k. res = (emptyResult, None) \<longrightarrow> contributed A req ?p k)" for u
    by (cases u) (auto simp: requeueNow_def emptyResult_def intro!: rg_ret rg_mono[OF rg_cleanup[OF stable_request(2)]])
  show ?thesis
    unfolding publish by (rule rg_bind[OF rg_ask], assumption, rule rg_bind[OF update], rule after)
qed

lemma rg_await:
  assumes t: "requestOk A req t" "trStatus t = StatusPending" "mapGet (trTargetData t) (OperatorName r) \<noteq> None"
    and A: "A = set (activeNames qs)" "distinct (activeNames qs)" "OperatorName r \<in> A"
  shows "ownRg A req (OperatorName r) (holding A req t) (awaitOthers api r qs t)
     (\<lambda>res k. res = (emptyResult, None) \<longrightarrow> contributed A req (OperatorName r) k)"
proof -
  have f: "follows (awaitOthers api r qs t)"
    unfolding awaitOthers_def cleanupAndReturn_def cleanupOldTargetRequests_def by (intro amid_rules)
  have o: "only (lifecycleWrite r qs t) (awaitOthers api r qs t)"
    unfolding awaitOthers_def cleanupAndReturn_def cleanupOldTargetRequests_def
    by (intro wp) (use t(3) in auto)
  have m: "requestMove A req (OperatorName r) k (refEffect c k) \<and> holding A req t (refEffect c k)"
    if "lifecycleWrite r qs t c" "holding A req t k" for c k
    using write_move[OF t(1,2) A that] move_holding[OF _ A(3) that(2)] by blast
  have c: "contributed A req (OperatorName r) k" if "holding A req t k" for k
    using that t(3) by (auto simp: hasRequest_def newer_def dest: advancesD(3))
  show ?thesis
    by (rule rg_mono[OF rg_block[OF f o stable_request(1) m]]) (use c in auto)
qed

lemma rg_contribute:
  assumes t: "requestOk A req t" "trStatus t = StatusPending" "mapGet (trTargetData t) (OperatorName r) = None"
    and A: "A = set (activeNames qs)" "distinct (activeNames qs)" "OperatorName r \<in> A" and r: "defaultProbes r"
  shows "ownRg A req (OperatorName r) (holding A req t) (contributeTargets api r qs t)
     (\<lambda>res k. res = (emptyResult, None) \<longrightarrow> contributed A req (OperatorName r) k)"
proof -
  note sp = default_soundProbes[OF r, of api]
  then have cred: "credential_probe (credentialProbeOf api r) (acceptedBy api)"
    and live: "liveness_probe (livenessProbeOf api r)" by (simp_all add: soundProbes_def)
  have aside: "\<not> requestCall c" if "\<not> writes c" for c using that by (cases c) simp_all
  have clusters: "only (\<lambda>c. \<not> requestCall c) (processClusters api r ips)" for ips
    by (rule only_mono[OF only_processClusters[OF cred, of ips "map (piCluster \<circ> fst) ips"]])
      (use aside in \<open>auto simp: clusterCall_def\<close>)
  have probes: "only (\<lambda>c. \<not> requestCall c) (probeManagedClusters api ins (livenessProbeOf api r))" for ins
    by (rule liveness_probe.only_probeManagedClusters[OF live aside])
  have listing: "follows (getManagedClusters api)" unfolding getManagedClusters_def by (intro amid_rules)
  note block = rg_aside[OF _ _ stable_request(1)]
  let ?Q = "\<lambda>res k. res = (emptyResult, None) \<longrightarrow> contributed A req (OperatorName r) k"
  have "ownRg A req (OperatorName r) (holding A req t) (createManagedClustersSecret api r t cd) (\<lambda>_. holding A req t)" for cd
    by (rule block[OF follows_secret]) (intro wp; simp)
  then have store: "ownRg A req (OperatorName r) (holding A req t)
       (createManagedClustersSecret api r t cd \<bind>
        (\<lambda>s. case s of Some e \<Rightarrow> ret (emptyResult, Some e) | None \<Rightarrow> publishTargets api r qs t ts)) ?Q" for cd ts
    by (rule rg_bind) (intro rg_cases rg_publish[OF t A], rule rg_ret, simp)
  have work: "ownRg A req (OperatorName r) (holding A req t) (processClusters api r ips \<bind>
       (\<lambda>(cd, ts). createManagedClustersSecret api r t (Some cd) \<bind>
        (\<lambda>s. case s of Some e \<Rightarrow> ret (emptyResult, Some e) | None \<Rightarrow> publishTargets api r qs t ts))) ?Q" for ips
    by (rule rg_bind[OF block[OF follows_processClusters[OF r] clusters]]) (intro rg_cases store)
  have inputs: "ownRg A req (OperatorName r) (holding A req t) (mapM (buildProbeInput api) cs) (\<lambda>_. holding A req t)" for cs
    by (rule block) (intro amid_rules, rule only_mapM, rule only_buildProbeInput, erule aside)
  have list: "ownRg A req (OperatorName r) (holding A req t) (getManagedClusters api) (\<lambda>_. holding A req t)"
    by (rule block[OF listing]) (intro wp, simp)
  show ?thesis
    unfolding contributeTargets_def reportProbes_def
    by (rule rg_bind[OF list], rule rg_cases, rule rg_ret, simp, rule rg_bind[OF inputs],
        rule rg_bind[OF block[OF follows_probes[OF r] probes]], rule work)
qed

lemma rg_process:
  assumes t: "requestOk A req t" "trStatus t = StatusPending" and r: "activeOperator ps r"
    and A: "A = activeSet ps (OperatorNamespace r)"
  shows "ownRg A req (OperatorName r) (holding A req t) (processRequest api r t)
     (\<lambda>res k. res = (emptyResult, None) \<longrightarrow> contributed A req (OperatorName r) k)"
proof -
  let ?qs = "providersOf ps (OperatorNamespace r)"
  have qs: "A = set (activeNames ?qs)" "distinct (activeNames ?qs)" "OperatorName r \<in> A" "defaultProbes r"
    using r A by (auto simp: activeOperator_def intro: activeNames_distinct)
  have listing: "follows (checkProviderActive api (OperatorName r) (OperatorNamespace r))"
    unfolding checkProviderActive_def by (intro amid_rules)
  have "ownRg A req (OperatorName r) (holding A req t)
     (checkProviderActive api (OperatorName r) (OperatorNamespace r))
     (\<lambda>x k. x = (Some ?qs, False, emptyResult, None) \<and> holding A req t k)"
    by (rule rg_yields[OF rg_aside[OF listing _ stable_request(1)] finds_itself[OF r]]) (intro wp, simp)
  then show ?thesis
    unfolding processRequest_def
    by (rule rg_bind, intro rg_assume, simp only: prod.case option.case if_False Let_def)
      (intro rg_cases rg_await[OF t _ qs(1-3)] rg_contribute[OF t _ qs], simp_all)
qed

lemma rg_initializeStatus:
  assumes t: "requestOk A req t" "trStatus t = []" and p: "p \<in> A"
    and u: "(trNamespace u, trName u) = req" "trResourceVersion u = trResourceVersion t"
      "trTargetData u = trTargetData t" "trCompleted u = trCompleted t"
  shows "ownRg A req p (holding A req t) (initializeStatus api u) (\<lambda>_ _. True)"
proof -
  let ?u = "u\<lparr>trStatus := StatusPending\<rparr>"
  have base: "(trNamespace ?u, trName ?u) = req" "trResourceVersion ?u = trResourceVersion t" "mapWf (trTargetData ?u)"
    using t u by (simp_all add: requestOk_def)
  have "lifecycleOf ?u = (lifecycleOf t)\<lparr>lcPhase := Waiting\<rparr>" using u by (simp add: lifecycleOf_def)
  then have step: "lifecycle_step A p (lifecycleOf t) (lifecycleOf ?u)"
    using lifecycle_step.start[of "lifecycleOf t" A p] t(2) by simp
  have update: "ownRg A req p (holding A req t) (StatusUpdate_TargetRequest api ?u) (\<lambda>_ _. True)"
    by (rule rg_call[OF status_update _ stable_request(1)])
      (use status_update_move[OF t(1) _ base(1,2) step base(3)] in simp_all)
  show ?thesis
    unfolding initializeStatus_def by (rule rg_bind[OF update]) (rule rg_ret, simp)
qed

text \<open>A labels-only update keeps what is known, and hands back the request that is stored then.\<close>

lemma label_update:
  assumes t: "requestOk A req t" and k: "holding A req t k" and u: "u = t\<lparr>trLabels := l\<rparr>"
  shows "requestMove A req p k (snd (refUpdateRequest False u k))
     \<and> (\<forall>v. fst (refUpdateRequest False u k) = Inr v \<longrightarrow> requestOk A req v \<and> trStatus v = trStatus t
          \<and> holding A req v (snd (refUpdateRequest False u k)))"
proof -
  from k obtain old where old: "stored req k = Some old" "newer t old" "requestOk A req old"
    by (auto simp: hasRequest_def)
  have base: "(trNamespace u, trName u) = req" "trResourceVersion u = trResourceVersion t"
    using t by (simp_all add: u requestOk_def)
  consider e where "refUpdateRequest False u k = (Inl e, k)"
    | v where "refUpdateRequest False u k = (Inr v, k\<lparr>kRequests := AList.update req v (kRequests k)\<rparr>)"
        "stored req k = Some t" "v = t\<lparr>trLabels := trLabels u, trUUID := trUUID u,
           trResourceVersion := nextVersion (trResourceVersion t)\<rparr>"
    using update_accepted[OF t old base, of False] by auto
  then show ?thesis
  proof cases
    case (2 v)
    have "requestStep A p t v" using 2(3) by (simp add: requestStep_def nextVersion_longer)
    moreover have "requestOk A req v" using t 2(3) by (simp add: requestOk_def lifecycleOf_def)
    ultimately show ?thesis
      using 2 by (auto simp: requestMove_def stored_update hasRequest_def newer_refl)
  qed (simp add: requestMove_def)
qed

lemma rg_initialize:
  assumes t: "requestOk A req t" "trStatus t = []" and p: "p \<in> A"
  shows "ownRg A req p (holding A req t) (initializeRequest api t) (\<lambda>_ _. True)"
proof -
  have key: "(trNamespace t, trName t) = req" using t by (simp add: requestOk_def)
  have label: "ownRg A req p (holding A req t) (Update_TargetRequest api (t\<lparr>trLabels := l\<rparr>))
     (\<lambda>v k. case v of Inl _ \<Rightarrow> True | Inr v \<Rightarrow> requestOk A req v \<and> trStatus v = [] \<and> holding A req v k)" for l
    by (rule rg_call[OF update_request _ stable_request(1)])
      (use label_update[OF t(1) _ refl] t(2) in \<open>simp_all split: sum.split\<close>)
  have after: "ownRg A req p (\<lambda>k. case v of Inl _ \<Rightarrow> True | Inr v \<Rightarrow> requestOk A req v \<and> trStatus v = [] \<and> holding A req v k)
     (case v of Inl e \<Rightarrow> ret (if isConflict e then (requeueNow, None) else (emptyResult, Some e))
      | Inr updated \<Rightarrow> initializeStatus api updated) (\<lambda>_ _. True)" for v
    by (cases v) (auto intro!: rg_ret rg_assume rg_initializeStatus p simp: requestOk_def)
  have plain: "ownRg A req p (holding A req t) (initializeStatus api (t\<lparr>trLabels := l\<rparr>)) (\<lambda>_ _. True)" for l
    by (rule rg_initializeStatus[OF t p]) (use key in simp_all)
  show ?thesis
    unfolding initializeRequest_def Let_def by (intro rg_cases plain rg_bind[OF label after])
qed

text \<open>
  The reconciliation as a whole: every call moves the request as the contract allows, and a run
  on a started request that ends without an error and without a requeue leaves it with this
  operator's contribution.
\<close>

lemma rg_reconcile:
  assumes r: "activeOperator ps r" and A: "A = activeSet ps (OperatorNamespace r)"
  shows "ownRg A req (OperatorName r) (hasRequest A req (\<lambda>t. b \<longrightarrow> trStatus t \<noteq> [])) (TargetRequest_Reconcile api r req)
     (\<lambda>res k. b \<and> res = (emptyResult, None) \<longrightarrow> contributed A req (OperatorName r) k)"
proof -
  let ?p = "OperatorName r"
  let ?Q = "\<lambda>res k. b \<and> res = (emptyResult, None) \<longrightarrow> contributed A req ?p k"
  have p: "?p \<in> A" using r A by (simp add: activeOperator_def)
  have started: "stable (operatorMoves A req) (hasRequest A req (\<lambda>t. b \<longrightarrow> trStatus t \<noteq> []))"
    by (rule stable_hasRequest) (use started_step in blast)
  have get: "ownRg A req ?p (hasRequest A req (\<lambda>t. b \<longrightarrow> trStatus t \<noteq> [])) (Get_TargetRequest api req)
     (\<lambda>g k. case g of Inl _ \<Rightarrow> False
        | Inr t \<Rightarrow> (requestOk A req t \<and> (b \<longrightarrow> trStatus t \<noteq> [])) \<and> holding A req t k)"
    by (rule rg_call[OF get_request _ started])
      (auto simp: requestMove_def hasRequest_def stored_def lookupOr_def newer_refl)
  have finished: "contributed A req ?p k" if "trStatus t = StatusCompleted" "holding A req t k" for t k
  proof -
    from that obtain u where u: "stored req k = Some u" "requestOk A req u" "newer t u" by (auto simp: hasRequest_def)
    then have "trStatus u = StatusCompleted" using that(1) by (auto simp: newer_def advances_def)
    then show ?thesis using u p by (auto simp: hasRequest_def requestOk_def lifecycle_inv_def)
  qed
  have branch: "ownRg A req ?p (holding A req t)
     (if trStatus t = [] then initializeRequest api t
      else if trStatus t = StatusCompleted then ret (emptyResult, None)
      else if trStatus t \<noteq> StatusPending then ret (emptyResult, None)
      else processRequest api r t) ?Q"
    if t: "requestOk A req t" "b \<longrightarrow> trStatus t \<noteq> []" for t
  proof (intro rg_cases)
    show "ownRg A req ?p (holding A req t) (initializeRequest api t) ?Q" if "trStatus t = []"
      by (rule rg_mono[OF rg_initialize[OF t(1) that p]]) (use t(2) that in auto)
    show "ownRg A req ?p (holding A req t) (ret (emptyResult, None)) ?Q" if "trStatus t = StatusCompleted"
      by (rule rg_ret) (use finished[OF that] in simp)
    show "ownRg A req ?p (holding A req t) (ret (emptyResult, None)) ?Q"
      if "trStatus t \<noteq> []" "trStatus t \<noteq> StatusCompleted" "trStatus t \<noteq> StatusPending"
      using t(1) that by (auto simp: requestOk_def lifecycle_inv_def)
    show "ownRg A req ?p (holding A req t) (processRequest api r t) ?Q" if "\<not> trStatus t \<noteq> StatusPending"
      by (rule rg_mono[OF rg_process[OF t(1) _ r A]]) (use that in auto)
  qed
  show ?thesis
    unfolding TargetRequest_Reconcile_def
  proof (rule rg_bind[OF get])
    fix g
    show "ownRg A req ?p (\<lambda>k. case g of Inl _ \<Rightarrow> False
        | Inr t \<Rightarrow> (requestOk A req t \<and> (b \<longrightarrow> trStatus t \<noteq> [])) \<and> holding A req t k)
       (case g of Inl e \<Rightarrow> ret (emptyResult, if isNotFound e then None else Some e)
        | Inr t \<Rightarrow> if trStatus t = [] then initializeRequest api t
            else if trStatus t = StatusCompleted then ret (emptyResult, None)
            else if trStatus t \<noteq> StatusPending then ret (emptyResult, None)
            else processRequest api r t) ?Q"
    proof (cases g)
      case (Inl e)
      show ?thesis unfolding Inl sum.case by (rule rg_false)
    next
      case (Inr t)
      show ?thesis unfolding Inr sum.case by (intro rg_assume branch) simp_all
    qed
  qed
qed

end

text \<open>The API server of the operators: the reference one, amid others, with fixed providers.\<close>

definition steadyApi :: "KrknOperatorTargetProvider list \<Rightarrow> (cluster \<times> others) api" where
  "steadyApi ps = interleavedApi\<lparr>apiListProviders := (\<lambda>ns e.
     (Inr (filter (\<lambda>p. pvNamespace p = ns) ps), snd (amid (\<lambda>k. ((), k)) e)))\<rparr>"

interpretation steady: steady_calls "steadyApi ps" ps for ps
  by unfold_locales (simp_all add: steadyApi_def interleavedApi_def amid_effect[where eff = refEffect] refHttpGet_def split: option.split)

section \<open>Many reconciliations\<close>

text \<open>
  Any number of reconciliations by active operators of one namespace, each among others that keep
  the contract; \<open>S\<close> collects the operators of which one reconciliation ended well (no error, no
  requeue).
\<close>

inductive rounds :: "KrknOperatorTargetProvider list \<Rightarrow> string \<Rightarrow> nsname \<Rightarrow> cluster \<Rightarrow> string set \<Rightarrow> cluster \<Rightarrow> bool"
  for ps :: "KrknOperatorTargetProvider list" and ns :: string and req :: nsname and k :: cluster where
  none: "rounds ps ns req k {} k"
| round: "rounds ps ns req k S k1 \<Longrightarrow> activeOperator ps r \<Longrightarrow> OperatorNamespace r = ns \<Longrightarrow>
    othersMove (operatorMoves (activeSet ps ns) req) oth \<Longrightarrow>
    run_state (TargetRequest_Reconcile (steadyApi ps) r req) \<lparr>env = (k1, oth), calls = []\<rparr> = (res, w) \<Longrightarrow>
    rounds ps ns req k (if res = (emptyResult, None) then insert (OperatorName r) S else S) (fst (env w))"

text \<open>One reconciliation among others, as a fact about its final cluster.\<close>

lemma one_round:
  assumes r: "activeOperator ps r" "A = activeSet ps (OperatorNamespace r)" and oth: "othersMove (operatorMoves A req) oth"
    and run: "run_state (TargetRequest_Reconcile (steadyApi ps) r req) \<lparr>env = (k, oth), calls = []\<rparr> = (res, w)"
    and k: "hasRequest A req (\<lambda>t. b \<longrightarrow> trStatus t \<noteq> []) k"
  shows "list_all (\<lambda>(k, k'). requestMove A req (OperatorName r) k k')
      (ownMoves (trace (TargetRequest_Reconcile (steadyApi ps) r req) \<lparr>env = (k, oth), calls = []\<rparr>) (k, oth))"
    and "stable (operatorMoves A req) P \<Longrightarrow> P k \<Longrightarrow> P (fst (env w))"
    and "b \<Longrightarrow> res = (emptyResult, None) \<Longrightarrow> contributed A req (OperatorName r) (fst (env w))"
proof -
  have p: "OperatorName r \<in> A" using r by (simp add: activeOperator_def)
  then have own: "requestMove A req (OperatorName r) \<le> operatorMoves A req" by (rule own_moves)
  note ended = rg_run[OF steady.rg_reconcile[OF r] k oth run own]
  show "list_all (\<lambda>(k, k'). requestMove A req (OperatorName r) k k')
      (ownMoves (trace (TargetRequest_Reconcile (steadyApi ps) r req) \<lparr>env = (k, oth), calls = []\<rparr>) (k, oth))"
    by (rule ended(1))
  show "P (fst (env w))" if "stable (operatorMoves A req) P" "P k" by (rule ended(2)[OF that])
  show "contributed A req (OperatorName r) (fst (env w))" if "b" "res = (emptyResult, None)"
    using ended(3) that by simp
qed

lemma rounds_contributed:
  assumes "rounds ps ns req k S k'" "hasRequest (activeSet ps ns) req (\<lambda>t. trStatus t \<noteq> []) k"
  shows "hasRequest (activeSet ps ns) req (\<lambda>t. trStatus t \<noteq> []) k'
     \<and> (\<forall>p \<in> S. contributed (activeSet ps ns) req p k')"
  using assms
proof (induction rule: rounds.induct)
  case (round S k1 r oth res w)
  let ?A = "activeSet ps ns"
  have A: "?A = activeSet ps (OperatorNamespace r)" using round.hyps(3) by simp
  have started: "stable (operatorMoves ?A req) (hasRequest ?A req (\<lambda>t. trStatus t \<noteq> []))"
    by (rule stable_hasRequest) (rule started_step)
  have k1: "hasRequest ?A req (\<lambda>t. True \<longrightarrow> trStatus t \<noteq> []) k1" using round.IH round.prems by simp
  note one = one_round[OF round.hyps(2) A round.hyps(4,5) k1]
  have "contributed ?A req p (fst (env w))" if "p \<in> S" for p
    using one(2)[OF stable_request(2)] round.IH round.prems that by simp
  moreover have "hasRequest ?A req (\<lambda>t. trStatus t \<noteq> []) (fst (env w))" using one(2)[OF started] k1 by simp
  ultimately show ?case using one(3) by simp
qed simp

text \<open>Reconciliations one after the other, with nobody in between: the clusters they leave behind.\<close>

definition afterReconcile :: "KrknOperatorTargetProvider list \<Rightarrow> nsname \<Rightarrow> (cluster \<times> others) KrknTargetRequestReconciler \<Rightarrow>
    cluster \<Rightarrow> cluster" where
  "afterReconcile ps req r k = fst (env (snd (run_state (TargetRequest_Reconcile (steadyApi ps) r req)
     \<lparr>env = (k, \<lambda>n k. k), calls = []\<rparr>)))"

fun clustersAfter :: "KrknOperatorTargetProvider list \<Rightarrow> nsname \<Rightarrow> (cluster \<times> others) KrknTargetRequestReconciler list \<Rightarrow>
    cluster \<Rightarrow> cluster list" where
  "clustersAfter ps req [] k = [k]"
| "clustersAfter ps req (r # rs) k = k # clustersAfter ps req rs (afterReconcile ps req r k)"

definition requestView :: "nsname \<Rightarrow> cluster \<Rightarrow> lifecycle option" where
  "requestView req k = map_option lifecycleOf (stored req k)"

fun changes :: "'x list \<Rightarrow> nat" where
  "changes (x # y # xs) = (if x = y then 0 else 1) + changes (y # xs)"
| "changes xs = 0"

lemma clustersAfter_Cons: "\<exists>ks. clustersAfter ps req rs k = k # ks"
  by (cases rs) auto

lemma alone: "othersMove (operatorMoves A req) (\<lambda>n k. k)"
  by (simp add: othersMove_def operatorMoves_def)

lemma lifecycleOf_cong:
  "trStatus t' = trStatus t \<Longrightarrow> trTargetData t' = trTargetData t \<Longrightarrow> trCompleted t' = trCompleted t \<Longrightarrow>
   lifecycleOf t' = lifecycleOf t"
  by (simp add: lifecycleOf_def)

text \<open>One reconciliation: the view stays, or the steps that are left become fewer.\<close>

lemma afterReconcile_view:
  assumes r: "activeOperator ps r" "A = activeSet ps (OperatorNamespace r)"
    and k: "stored req k = Some t" "requestOk A req t"
  shows "\<exists>t'. stored req (afterReconcile ps req r k) = Some t' \<and> requestOk A req t'
     \<and> phaseOf (trStatus t) \<le> phaseOf (trStatus t')
     \<and> (lifecycleOf t' = lifecycleOf t \<or> stepsLeft A (lifecycleOf t') < stepsLeft A (lifecycleOf t))"
proof -
  let ?l = "lifecycleOf t"
  let ?F = "\<lambda>u. lcPhase ?l \<le> lcPhase (lifecycleOf u) \<and> (lifecycleOf u = ?l \<or> stepsLeft A (lifecycleOf u) < stepsLeft A ?l)"
  have fin: "finite A" using r(2) by simp
  have step: "?F v" if "p \<in> A" "requestStep A p u v" "?F u" for p u v
  proof (cases "lifecycleOf v = lifecycleOf u")
    case False
    then have "lifecycle_step A p (lifecycleOf u) (lifecycleOf v)"
      using that(2) lifecycleOf_cong[of v u] by (auto simp: requestStep_def)
    from stepsLeft_decreases[OF fin that(1) this] lifecycle_step_phase[OF this] that(3)
    show ?thesis by (auto intro: order.trans)
  qed (use that(3) in simp)
  obtain res w where run: "run_state (TargetRequest_Reconcile (steadyApi ps) r req)
      \<lparr>env = (k, \<lambda>n k. k), calls = []\<rparr> = (res, w)" by fastforce
  have start: "hasRequest A req (\<lambda>u. False \<longrightarrow> trStatus u \<noteq> []) k" "hasRequest A req ?F k"
    using k by (simp_all add: hasRequest_def)
  from one_round(2)[OF r alone run start(1) stable_hasRequest[of A ?F, OF step] start(2)]
  show ?thesis using run by (auto simp: hasRequest_def afterReconcile_def)
qed

definition soleProvider :: "KrknOperatorTargetProvider list" where
  "soleProvider = [\<lparr>pvName = ''acm'', pvNamespace = ''krkn'', pvOperatorName = ''acm'', pvActive = True\<rparr>]"

definition soleCluster :: cluster where
  "soleCluster = emptyCluster\<lparr>kRequests := [((''krkn'', ''req''), exampleRequest)]\<rparr>"

lemma sole_facts:
  "activeOperator soleProvider plainReconciler" "OperatorNamespace plainReconciler = ''krkn''"
  "activeSet soleProvider ''krkn'' = {''acm''}" "OperatorName plainReconciler = ''acm''"
  "stored (''krkn'', ''req'') soleCluster = Some exampleRequest" "trStatus exampleRequest = StatusPending"
  "requestOk {''acm''} (''krkn'', ''req'') exampleRequest"
proof -
  show "activeOperator soleProvider plainReconciler"
    by (simp add: activeOperator_def defaultProbes_def plainReconciler_def soleProvider_def providersOf_def activeNames_def)
  show "OperatorNamespace plainReconciler = ''krkn''" "OperatorName plainReconciler = ''acm''"
    by (simp_all add: plainReconciler_def)
  show "activeSet soleProvider ''krkn'' = {''acm''}"
    by (simp add: soleProvider_def providersOf_def activeNames_def)
  show "stored (''krkn'', ''req'') soleCluster = Some exampleRequest" by (simp add: stored_def soleCluster_def)
  show status: "trStatus exampleRequest = StatusPending" by (simp add: exampleRequest_def StatusPending_def)
  show "requestOk {''acm''} (''krkn'', ''req'') exampleRequest"
    using status by (simp add: requestOk_def lifecycle_inv_def) (simp add: exampleRequest_def dom_def)
qed

lemma amid_alone: "amid f (k, \<lambda>n k. k) = (fst (f k), snd (f k), \<lambda>n k. k)"
  by (simp add: amid_def case_prod_beta)

lemma steadyApi_simps:
  "apiGetTargetRequest (steadyApi ps) n = amid (\<lambda>k. (lookupOr (kRequests k) n, k))"
  "apiStatusUpdateTargetRequest (steadyApi ps) t = amid (refUpdateRequest True t)"
  "apiCleanupTargetRequests (steadyApi ps) ns' s = amid (\<lambda>k. (Inr 0, k))"
  "apiListProviders (steadyApi ps) ns = (\<lambda>e. (Inr (providersOf ps ns), snd (amid (\<lambda>k. ((), k)) e)))"
  "apiListManagedClusters (steadyApi ps) = amid (\<lambda>k. (Inr (kClusters k), k))"
  "apiMarshalList (steadyApi ps) vs = Inr (jsonPrint (JObj [(''items'', JArr vs)]))"
  "apiGetSecret (steadyApi ps) n = amid (\<lambda>k. (lookupOr (kSecrets k) n, k))"
  "apiCreateSecret (steadyApi ps) sec = amid (refCreateSecret sec)"
  "apiSetControllerReference (steadyApi ps) = refSetController"
  "apiNow (steadyApi ps) = (\<lambda>e. kClock (fst e))"
  by (simp_all add: steadyApi_def interleavedApi_def providersOf_def)

text \<open>The sole operator of an empty cluster: its reconciliation ends well.\<close>

lemma sole_run:
  "fst (run_state (TargetRequest_Reconcile (steadyApi soleProvider) plainReconciler (''krkn'', ''req''))
     \<lparr>env = (soleCluster, \<lambda>n k. k), calls = []\<rparr>) = (emptyResult, None)"
proof -
  have listing: "jsonParse (jsonPrint (JObj [(''items'', JArr [])])) = Some (JObj [(''items'', JArr [])])"
    by (rule jsonParse_print) simp
  have none: "decManagedClusterList (JObj [(''items'', JArr [])]) [] = Inr []"
    by (simp add: decManagedClusterList_def decode_simps decSlice_def)
  have pending: "trStatus exampleRequest = StatusPending" by (rule sole_facts)
  have request: "mapGet (trTargetData exampleRequest) n = None" "trName exampleRequest = ''req''"
    "trNamespace exampleRequest = ''krkn''" "trResourceVersion exampleRequest = ''1''" for n
    by (simp_all add: exampleRequest_def)
  have cluster: "kRequests soleCluster = [((''krkn'', ''req''), exampleRequest)]" "kClusters soleCluster = []"
    "kSecrets soleCluster = []" by (simp_all add: soleCluster_def emptyCluster_def)
  have providers: "providersOf soleProvider ''krkn'' = soleProvider" "find (\<lambda>p. pvOperatorName p = ''acm'') soleProvider
      = Some \<lparr>pvName = ''acm'', pvNamespace = ''krkn'', pvOperatorName = ''acm'', pvActive = True\<rparr>"
    by (simp_all add: soleProvider_def providersOf_def)
  show ?thesis
    by (simp add: TargetRequest_Reconcile_def processRequest_def checkProviderActive_def contributeTargets_def reportProbes_def
        getManagedClusters_def listing none steadyApi_simps amid_alone lookupOr_def cluster pending request providers
        plainReconciler_def probeManagedClusters_def processClusters_def createManagedClustersSecret_def
        storeOperatorData_def emptyMap_def refSetController_def refCreateSecret_def run_publishTargets
        publishedRequest_def completeRequest_def refUpdateRequest_def Let_def cleanupAndReturn_def
        cleanupOldTargetRequests_def del: jsonPrint.simps)
qed

lemma rounds_complete:
  assumes "rounds ps ns req k S k'" "activeSet ps ns \<subseteq> S"
    and "stored req k = Some t" "requestOk (activeSet ps ns) req t" "trStatus t \<noteq> []"
  shows "\<exists>t'. stored req k' = Some t' \<and> trStatus t' = StatusCompleted
     \<and> dom (mapGet (trTargetData t')) = activeSet ps ns"
proof -
  let ?A = "activeSet ps ns"
  have "hasRequest ?A req (\<lambda>t. trStatus t \<noteq> []) k" using assms(3-5) by (simp add: hasRequest_def)
  from rounds_contributed[OF assms(1) this] assms(2) obtain t' where
    t': "stored req k' = Some t'" "requestOk ?A req t'" and all: "\<forall>p \<in> ?A. mapGet (trTargetData t') p \<noteq> None"
    by (auto simp: hasRequest_def) (metis option.inject subsetD)
  then have "?A \<subseteq> dom (mapGet (trTargetData t'))" by auto
  with t' show ?thesis by (auto simp: requestOk_def lifecycle_inv_def)
qed

section \<open>Properties\<close>







end
