(* ===== verification/ConfigGuarantee.thy ===== *)
theory ConfigGuarantee
  imports ConfigLifecycle Guarantee
begin

text \<open>
  The reconciler of KrknOperatorTargetProviderConfig implements the contract of
  \<^verbatim>\<open>ConfigLifecycle\<close>, among any number of other operators, by the calculus of
  \<^verbatim>\<open>RelyGuarantee\<close>.  \<^verbatim>\<open>provider.UpdateProviderConfig\<close>, which writes an operator's form into the
  shared object, is a function of krkn-operator: it is the parameter \<open>g\<close>, of which
  \<open>config_contribution\<close> states what the code relies on.
\<close>

section \<open>Contributions\<close>

type_synonym contribution =
  "KrknOperatorTargetProviderConfig \<Rightarrow> string \<Rightarrow> string \<Rightarrow> string \<Rightarrow> string \<Rightarrow> cluster \<Rightarrow> err option \<times> cluster"

definition addsEntry :: "string \<Rightarrow> KrknOperatorTargetProviderConfig \<Rightarrow> KrknOperatorTargetProviderConfig \<Rightarrow> bool" where
  "addsEntry oper old new = (configKey new = configKey old
     \<and> length (pcResourceVersion old) < length (pcResourceVersion new)
     \<and> (mapWf (pcConfigData old) \<longrightarrow> mapWf (pcConfigData new))
     \<and> (\<exists>d. mapGet (pcConfigData new) = (mapGet (pcConfigData old))(oper \<mapsto> d))
     \<and> pcStatus new = pcStatus old \<and> pcCreated new = pcCreated old \<and> pcCompleted new = pcCompleted old)"

text \<open>
  Based on an object that is the stored one or an earlier version of it, a contribution adds the
  operator's entry to the stored object and nothing else, or fails and leaves it alone.
\<close>

locale config_contribution =
  fixes g :: contribution
  assumes contributes: "storedConfig (configKey c) k = Some old \<Longrightarrow> since c old \<Longrightarrow>
     (fst (g c oper cm ns schema k) \<noteq> None
       \<and> storedConfig (configKey c) (snd (g c oper cm ns schema k)) = Some old)
     \<or> (\<exists>new. storedConfig (configKey c) (snd (g c oper cm ns schema k)) = Some new \<and> addsEntry oper old new)"
begin

lemma contribute_move:
  assumes c: "configOk A req c" and k: "reading A req True D c k"
  shows "configMove A req oper k (snd (g c oper cm ns schema k))
     \<and> (fst (g c oper cm ns schema k) = None \<longrightarrow> oper \<in> A \<longrightarrow>
          hasConfig A req (knows True (insert oper D)) (snd (g c oper cm ns schema k)))"
proof -
  let ?k = "snd (g c oper cm ns schema k)"
  have key: "configKey c = req" using c by (simp add: configOk_def)
  from k obtain old where old: "storedConfig req k = Some old" "configOk A req old" "since c old" "knows True D old"
    by (auto simp: hasConfig_def)
  consider "fst (g c oper cm ns schema k) \<noteq> None" "storedConfig req ?k = Some old"
    | new where "storedConfig req ?k = Some new" "addsEntry oper old new"
    using contributes[of c k old oper cm ns schema] old key by auto
  then show ?thesis
  proof cases
    case 1
    then show ?thesis using old(1) by (auto simp: configMove_def)
  next
    case (2 new)
    from 2(2) obtain d where d: "mapGet (pcConfigData new) = (mapGet (pcConfigData old))(oper \<mapsto> d)"
      by (auto simp: addsEntry_def)
    have "configLifeOf new = (configLifeOf old)\<lparr>cfData := (cfData (configLifeOf old))(oper \<mapsto> d)\<rparr>"
      using 2(2) d by (simp add: addsEntry_def configLifeOf_def)
    moreover have "cfPhase (configLifeOf old) \<noteq> New" using old(4) by (simp add: knows_def)
    ultimately have "config_step A oper (configLifeOf old) (configLifeOf new)"
      by (metis config_step.contribute)
    then have step: "configStep A oper old new" using 2(2) by (simp add: configStep_def addsEntry_def)
    have "knows True (insert oper D) new" using old(4) 2(2) d by (auto simp: knows_def addsEntry_def)
    with step 2(1) old configStep_ok[OF step] show ?thesis by (auto simp: configMove_def hasConfig_def)
  qed
qed

end

lemma refContribute_adds: "config_contribution (\<lambda>c oper cm ns schema. refContribute c oper schema)"
proof
  fix c k old oper cm ns schema
  assume k: "storedConfig (configKey c) k = Some old" and old: "since c old"
  show "(fst (refContribute c oper schema k) \<noteq> None
       \<and> storedConfig (configKey c) (snd (refContribute c oper schema k)) = Some old)
     \<or> (\<exists>new. storedConfig (configKey c) (snd (refContribute c oper schema k)) = Some new \<and> addsEntry oper old new)"
  proof (cases "pcResourceVersion old = pcResourceVersion c")
    case False
    with k show ?thesis by (simp add: refContribute_def refUpdateConfig_def storedConfig_def Let_def)
  next
    case True
    with old have "old = c" by (rule since_same)
    define m where "m = (case pcConfigData c of None \<Rightarrow> Some [(oper, schema)]
        | Some al \<Rightarrow> Some (AList.update oper schema al))"
    have m: "mapGet m = (mapGet (pcConfigData c))(oper \<mapsto> schema)" "mapWf (pcConfigData c) \<Longrightarrow> mapWf m"
      by (auto simp: m_def mapGet_def mapWf_def mapKeys_def update_conv' distinct_update fun_eq_iff split: option.split)
    let ?new = "c\<lparr>pcConfigData := m, pcResourceVersion := nextVersion (pcResourceVersion c)\<rparr>"
    have "snd (refContribute c oper schema k) = k\<lparr>kConfigs := AList.update (configKey c) ?new (kConfigs k)\<rparr>"
      using k unfolding \<open>old = c\<close> by (simp add: refContribute_def refUpdateConfig_def storedConfig_def Let_def m_def)
    moreover have "addsEntry oper old ?new"
      unfolding \<open>old = c\<close> using m by (auto simp: addsEntry_def nextVersion_longer)
    ultimately show ?thesis by (simp add: storedConfig_update)
  qed
qed

interpretation reference_contribution: config_contribution "\<lambda>c oper cm ns schema. refContribute c oper schema"
  by (rule refContribute_adds)

section \<open>Updates of the object\<close>

text \<open>
  An update based on an object that was read: a move of the contract, whether it is accepted or
  not, if what it writes is nothing or a step from that object.
\<close>

lemma config_update_move:
  assumes c: "configOk A req c" and k: "reading A req b D c k" and p: "p \<in> A"
    and base: "configKey u = req" "pcResourceVersion u = pcResourceVersion c" and wf: "mapWf (pcConfigData u)"
    and step: "s \<Longrightarrow> knows b D c \<Longrightarrow> configLifeOf u = configLifeOf c \<or> config_step A p (configLifeOf c) (configLifeOf u)"
  shows "configMove A req p k (snd (refUpdateConfig s u k))
     \<and> (\<forall>new. fst (refUpdateConfig s u k) = Inr new \<longrightarrow> knows b D c \<and> configOk A req new
          \<and> storedConfig req (snd (refUpdateConfig s u k)) = Some new
          \<and> configLifeOf new = configLifeOf (if s then u else c))"
proof -
  consider e where "refUpdateConfig s u k = (Inl e, k)"
    | new where "refUpdateConfig s u k = (Inr new, k\<lparr>kConfigs := AList.update req new (kConfigs k)\<rparr>)"
        "storedConfig req k = Some c" "knows b D c"
        "new = (if s then c\<lparr>pcStatus := pcStatus u, pcConfigData := pcConfigData u, pcCreated := pcCreated u,
                        pcCompleted := pcCompleted u, pcResourceVersion := nextVersion (pcResourceVersion c)\<rparr>
              else c\<lparr>pcLabels := pcLabels u, pcUUID := pcUUID u,
                     pcResourceVersion := nextVersion (pcResourceVersion c)\<rparr>)"
    using config_update_accepted[OF c k base, of s] by blast
  then show ?thesis
  proof cases
    case 1
    then show ?thesis by (simp add: configMove_def)
  next
    case (2 new)
    have life: "configLifeOf new = configLifeOf (if s then u else c)" using 2(4) by (simp add: configLifeOf_def)
    have "configStep A p c new"
      unfolding configStep_def life using 2(3,4) step wf by (auto simp: nextVersion_longer)
    moreover from configStep_ok[OF this p c] have "configOk A req new" .
    ultimately show ?thesis using 2(1-3) life by (auto simp: configMove_def storedConfig_update)
  qed
qed

section \<open>The reconciler\<close>

fun configEffect :: "contribution \<Rightarrow> apiCall \<Rightarrow> cluster \<Rightarrow> cluster" where
  "configEffect g (CContributeProviderConfig c oper cm ns schema) k = snd (g c oper cm ns schema k)"
| "configEffect g c k = refEffect c k"

text \<open>An API server that answers about configuration objects as the reference one does.\<close>

locale config_calls = config_contribution +
  fixes api :: "(cluster \<times> others) api" and ps :: "KrknOperatorTargetProvider list"
  assumes get_config: "apiGetProviderConfig api n = amid (apiGetProviderConfig refApi n)"
    and update_config: "apiUpdateProviderConfigObject api c = amid (apiUpdateProviderConfigObject refApi c)"
    and status_config: "apiStatusUpdateProviderConfig api c = amid (apiStatusUpdateProviderConfig refApi c)"
    and contribute_config: "apiContributeProviderConfig api c oper cm ns schema = amid (g c oper cm ns schema)"
    and asides: "snd (apiCleanupProviderConfigs api ns s e) = amidBy (configEffect g) (CCleanupProviderConfigs ns s) e"
      "snd (apiListProviders api ns e) = amidBy (configEffect g) (CListProviders ns) e"
      "snd (apiListManagedClusters api e) = amidBy (configEffect g) CListManagedClusters e"
      "snd (apiListSecrets api ns e) = amidBy (configEffect g) (CListSecrets ns) e"
    and seen: "fst (apiListProviders api ns e) = Inr (providersOf ps ns)"

definition activeConfigOperator :: "KrknOperatorTargetProvider list \<Rightarrow> KrknOperatorTargetProviderConfigReconciler \<Rightarrow> bool" where
  "activeConfigOperator ps r = (distinct (map pvOperatorName (providersOf ps (pcOperatorNamespace r)))
     \<and> pcOperatorName r \<in> activeSet ps (pcOperatorNamespace r))"

fun asideCall :: "apiCall \<Rightarrow> bool" where
  "asideCall (CCleanupProviderConfigs ns s) = True"
| "asideCall c = (\<not> writes c)"

lemma asideCall_read: "\<not> writes c \<Longrightarrow> asideCall c"
  by (cases c) simp_all

text \<open>
  What a run that ends well leaves behind: the operators in \<open>S\<close>, this one among them, have
  contributed, and if these are all active ones, the object is Completed.
\<close>

abbreviation settledBy :: "string set \<Rightarrow> nsname \<Rightarrow> string set \<Rightarrow> cluster \<Rightarrow> bool" where
  "settledBy A req S \<equiv> hasConfig A req (\<lambda>c. knows True S c \<and> (A \<subseteq> S \<longrightarrow> pcStatus c = StatusCompleted))"

lemma stable_settledBy: "stable (configMoves A req) (settledBy A req S)"
  by (rule stable_hasConfig) (use knows_step configStep_grows(3) in blast)

context config_calls
begin

abbreviation cfgRg :: "string set \<Rightarrow> nsname \<Rightarrow> string \<Rightarrow> (cluster \<Rightarrow> bool) \<Rightarrow> (cluster \<times> others, 'x) prog \<Rightarrow>
    ('x \<Rightarrow> cluster \<Rightarrow> bool) \<Rightarrow> bool" where
  "cfgRg A req p \<equiv> rgBy (configEffect g) (configMoves A req) (configMove A req p)"

lemma aside_follows [amid_rules]:
  "followsBy (configEffect g) (Cleanup_ProviderConfigs api ns s)" "followsBy (configEffect g) (List_Providers api ns)"
  "followsBy (configEffect g) (List_ManagedClusters api)" "followsBy (configEffect g) (List_Secrets api ns)"
  by (rule follows_call, rule asides)+

lemma follows_form: "followsBy (configEffect g) (buildConfigSchema mf api)"
  unfolding buildConfigSchema_def ProviderConfig_getManagedClusters_def schemaFields_def addSecretField_def
    addProxyField_def listSecretsInNamespace_def getDefaultSecret_def getDefaultProxyMode_def Let_def
  by (intro amid_rules)

lemma rg_beside:
  assumes "followsBy (configEffect g) m" "only asideCall m" "stable (configMoves A req) P"
  shows "cfgRg A req p P m (\<lambda>_. P)"
proof (rule rg_block[OF assms])
  fix c k assume c: "asideCall c" and "P k"
  moreover have "configEffect g c k = k" using c by (cases c) simp_all
  ultimately show "configMove A req p k (configEffect g c k) \<and> P (configEffect g c k)" by (simp add: configMove_def)
qed

lemma sees_itself:
  assumes "activeConfigOperator ps r"
  shows "yields (\<lambda>x. x = (Some (providersOf ps (pcOperatorNamespace r)), False, emptyResult, None))
    (checkProviderActive api (pcOperatorName r) (pcOperatorNamespace r))"
proof -
  from assms find_active[of "providersOf ps (pcOperatorNamespace r)" "pcOperatorName r"] obtain q where
    "find (\<lambda>p. pvOperatorName p = pcOperatorName r) (providersOf ps (pcOperatorNamespace r)) = Some q" "pvActive q"
    by (auto simp: activeConfigOperator_def)
  then show ?thesis by (simp add: checkProviderActive_def yields_def seen)
qed

text \<open>Starting an object: the label, then the status.\<close>

lemma rg_startStatus:
  assumes c: "configOk A req c" "pcStatus c = []" and p: "p \<in> A"
    and u: "configKey u = req" "pcResourceVersion u = pcResourceVersion c" "pcConfigData u = pcConfigData c"
      "pcCompleted u = pcCompleted c"
  shows "cfgRg A req p (reading A req b D c) (initializeConfigStatus api u) (\<lambda>_ _. True)"
proof -
  have update: "cfgRg A req p (reading A req b D c)
     (StatusUpdate_ProviderConfig api (u\<lparr>pcStatus := StatusPending, pcCreated := Some now\<rparr>)) (\<lambda>_ _. True)" for now
  proof (rule rg_call[OF status_config _ stable_reading(1)])
    fix k assume k: "reading A req b D c k"
    let ?u = "u\<lparr>pcStatus := StatusPending, pcCreated := Some now\<rparr>"
    have "configLifeOf ?u = (configLifeOf c)\<lparr>cfPhase := Waiting, cfCreated := Some now\<rparr>"
      using u by (simp add: configLifeOf_def)
    moreover have "cfPhase (configLifeOf c) = New" using c(2) by simp
    ultimately have "config_step A p (configLifeOf c) (configLifeOf ?u)" by (metis config_step.start)
    then show "configMove A req p k (configEffect g (CStatusUpdateProviderConfig ?u) k) \<and> True"
      using config_update_move[OF c(1) k p, of ?u True] u c(1) by (simp add: configOk_def)
  qed simp
  show ?thesis
    unfolding initializeConfigStatus_def
    by (rule rg_bind[OF rg_ask], assumption, rule rg_bind[OF update]) (rule rg_ret, simp)
qed

lemma rg_start:
  assumes c: "configOk A req c" "pcStatus c = []" and p: "p \<in> A"
  shows "cfgRg A req p (reading A req b D c) (initializeConfig api c) (\<lambda>_ _. True)"
proof -
  have key: "configKey c = req" and wf: "mapWf (pcConfigData c)" using c by (simp_all add: configOk_def)
  have label: "cfgRg A req p (reading A req b D c) (Update_ProviderConfig api (c\<lparr>pcLabels := l\<rparr>))
     (\<lambda>v k. case v of Inl _ \<Rightarrow> True | Inr v \<Rightarrow> (configOk A req v \<and> pcStatus v = []) \<and> reading A req False {} v k)" for l
  proof (rule rg_call[OF update_config _ stable_reading(1)])
    fix k assume k: "reading A req b D c k"
    have base: "configKey (c\<lparr>pcLabels := l\<rparr>) = req" using key by simp
    have empty: "pcStatus v = []" if "configLifeOf v = configLifeOf c" for v
      using arg_cong[OF that, of cfPhase] c(2) by simp
    show "configMove A req p k (configEffect g (CUpdateProviderConfigObject (c\<lparr>pcLabels := l\<rparr>)) k)
      \<and> (case fst (apiUpdateProviderConfigObject refApi (c\<lparr>pcLabels := l\<rparr>) k) of Inl _ \<Rightarrow> True
         | Inr v \<Rightarrow> (configOk A req v \<and> pcStatus v = [])
             \<and> reading A req False {} v (configEffect g (CUpdateProviderConfigObject (c\<lparr>pcLabels := l\<rparr>)) k))"
      using config_update_move[OF c(1) k p base, of False] wf
      by (auto simp: hasConfig_def knows_def since_def intro: empty split: sum.split)
  qed simp
  have after: "cfgRg A req p (\<lambda>k. case v of Inl _ \<Rightarrow> True
        | Inr v \<Rightarrow> (configOk A req v \<and> pcStatus v = []) \<and> reading A req False {} v k)
     (case v of Inl e \<Rightarrow> ret (if isConflict e then (requeueNow, None) else (emptyResult, Some e))
      | Inr updated \<Rightarrow> initializeConfigStatus api updated) (\<lambda>_ _. True)" for v
    by (cases v) (auto intro!: rg_ret rg_assume rg_startStatus p simp: configOk_def)
  have plain: "cfgRg A req p (reading A req b D c) (initializeConfigStatus api (c\<lparr>pcLabels := l\<rparr>)) (\<lambda>_ _. True)" for l
    by (rule rg_startStatus[OF c p]) (use key in simp_all)
  show ?thesis
    unfolding initializeConfig_def Let_def by (intro rg_cases plain rg_bind[OF label after])
qed

lemma rg_finish:
  assumes c: "configOk A req c" and p: "p \<in> A"
    and A: "A = set (activeNames qs)" "distinct (activeNames qs)"
  shows "cfgRg A req p (reading A req True (insert p D) c) (finishConfig api r qs c)
     (\<lambda>res k. res = (emptyResult, None) \<longrightarrow> settledBy A req (insert p D) k)"
proof -
  have key: "configKey c = req" and wf: "mapWf (pcConfigData c)" and dom: "set (mapKeys (pcConfigData c)) \<subseteq> set (activeNames qs)"
    using c A(1) by (auto simp: configOk_def config_inv_def mapKeys_get)
  have all: "allActiveContributed qs (pcConfigData c) \<longleftrightarrow> A \<subseteq> dom (mapGet (pcConfigData c))"
    using A p by (auto simp: allActiveContributed_set mapKeys_get)
  have count: "shouldMarkAsCompleted (countActiveProviders qs) (mapLen (pcConfigData c)) \<longleftrightarrow> A \<subseteq> dom (mapGet (pcConfigData c))"
    using shouldMark_complete[OF wf A(2)] shouldMark_sound[OF wf A(2) dom] all by blast
  let ?u = "\<lambda>now. if shouldMarkAsCompleted (countActiveProviders qs) (mapLen (pcConfigData c))
       then c\<lparr>pcStatus := StatusCompleted, pcCompleted := Some now\<rparr> else c"
  have update: "cfgRg A req p (reading A req True (insert p D) c) (StatusUpdate_ProviderConfig api (?u now))
     (\<lambda>x k. case x of Inl _ \<Rightarrow> True | Inr _ \<Rightarrow> settledBy A req (insert p D) k)" for now
  proof (rule rg_call[OF status_config _ stable_reading(1)])
    fix k assume k: "reading A req True (insert p D) c k"
    have u: "configKey (?u now) = req" "pcResourceVersion (?u now) = pcResourceVersion c"
      "pcConfigData (?u now) = pcConfigData c" using key by simp_all
    have step: "configLifeOf (?u now) = configLifeOf c \<or> config_step A p (configLifeOf c) (configLifeOf (?u now))"
      if know: "knows True (insert p D) c"
    proof (cases "A \<subseteq> dom (mapGet (pcConfigData c))")
      case True
      then have "configLifeOf (?u now) = (configLifeOf c)\<lparr>cfPhase := Done, cfCompleted := Some now\<rparr>"
        using count by (simp add: configLifeOf_def)
      moreover have "cfPhase (configLifeOf c) \<noteq> New" using know by (simp add: knows_def)
      ultimately show ?thesis using True config_step.complete[of "configLifeOf c" A p now] by simp
    qed (simp add: count)
    have move: "configMove A req p k (snd (refUpdateConfig True (?u now) k))"
      and new: "fst (refUpdateConfig True (?u now) k) = Inr new \<Longrightarrow> knows True (insert p D) c \<and> configOk A req new
          \<and> storedConfig req (snd (refUpdateConfig True (?u now) k)) = Some new
          \<and> configLifeOf new = configLifeOf (?u now)" for new
      using config_update_move[OF c k p u(1,2), of True] u(3) wf step by auto
    have "settledBy A req (insert p D) (snd (refUpdateConfig True (?u now) k))"
      if "fst (refUpdateConfig True (?u now) k) = Inr new" for new
    proof -
      note n = new[OF that]
      have data: "mapGet (pcConfigData new) = mapGet (pcConfigData c)"
        using n arg_cong[of _ _ cfData] u(3) by (metis configLifeOf_simps(2))
      have phase: "phaseOf (pcStatus new) = phaseOf (pcStatus (?u now))"
        using n arg_cong[of _ _ cfPhase] by (metis configLifeOf_simps(1))
      then have status: "pcStatus new = pcStatus (?u now)" by (simp only: phaseOf_inject)
      have "knows True (insert p D) new"
        using n data status by (simp add: knows_def)
      moreover have "pcStatus new = StatusCompleted" if "A \<subseteq> insert p D"
        using that status count n by (auto simp: knows_def)
      ultimately show ?thesis using n by (simp add: hasConfig_def)
    qed
    then show "configMove A req p k (configEffect g (CStatusUpdateProviderConfig (?u now)) k)
      \<and> (case fst (apiStatusUpdateProviderConfig refApi (?u now) k) of Inl _ \<Rightarrow> True
         | Inr _ \<Rightarrow> settledBy A req (insert p D) (configEffect g (CStatusUpdateProviderConfig (?u now)) k))"
      using move by (simp split: sum.split split del: if_split)
  qed simp
  have clean: "cfgRg A req p (settledBy A req (insert p D)) (Cleanup_ProviderConfigs api ns s) (\<lambda>_. settledBy A req (insert p D))" for ns s
    by (rule rg_beside[OF aside_follows(1) _ stable_settledBy]) (intro wp, simp)
  show ?thesis
    unfolding finishConfig_def Let_def
  proof (rule rg_bind[OF rg_ask], assumption, rule rg_bind[OF update])
    fix x
    show "cfgRg A req p (\<lambda>k. case x of Inl _ \<Rightarrow> True | Inr _ \<Rightarrow> settledBy A req (insert p D) k)
       (case x of Inl e \<Rightarrow> ret (if isConflict e then (requeueNow, None) else (emptyResult, Some e))
        | Inr _ \<Rightarrow> Cleanup_ProviderConfigs api (pcOperatorNamespace r) CleanupThresholdSeconds \<bind> (\<lambda>d. ret (emptyResult, None)))
       (\<lambda>res k. res = (emptyResult, None) \<longrightarrow> settledBy A req (insert p D) k)"
      by (cases x) (auto simp: requeueNow_def emptyResult_def intro!: rg_ret rg_bind[OF clean])
  qed
qed

text \<open>Reading the object, wherever the others interrupt.\<close>

lemma rg_read:
  "cfgRg A req p (hasConfig A req (knows b D)) (Get_ProviderConfig api req)
     (\<lambda>x k. case x of Inl _ \<Rightarrow> False | Inr c \<Rightarrow> (configOk A req c \<and> knows b D c) \<and> reading A req b D c k)"
  by (rule rg_call[OF get_config _ stable_reading(2)])
    (auto simp: configMove_def hasConfig_def storedConfig_def lookupOr_def since_def)

lemma rg_contributeConfig:
  assumes p: "pcOperatorName r \<in> A" and A: "A = set (activeNames qs)" "distinct (activeNames qs)"
  shows "cfgRg A req (pcOperatorName r) (hasConfig A req (knows True D)) (contributeConfig mf api r req qs)
     (\<lambda>res k. res = (emptyResult, None) \<longrightarrow> settledBy A req (insert (pcOperatorName r) D) k)"
proof -
  let ?p = "pcOperatorName r"
  let ?Q = "\<lambda>res k. res = (emptyResult, None) \<longrightarrow> settledBy A req (insert ?p D) k"
  have form: "cfgRg A req ?p (hasConfig A req (knows True D)) (buildConfigSchema mf api) (\<lambda>_. hasConfig A req (knows True D))"
    by (rule rg_beside[OF follows_form only_buildConfigSchema[OF asideCall_read] stable_reading(2)])
  have contribute: "cfgRg A req ?p (reading A req True D c) (Contribute_ProviderConfig api c ?p cm ns schema)
     (\<lambda>x k. case x of Some _ \<Rightarrow> True | None \<Rightarrow> hasConfig A req (knows True (insert ?p D)) k)"
    if "configOk A req c" for c cm ns schema
    by (rule rg_call[OF contribute_config _ stable_reading(1)])
      (use contribute_move[OF that] p in \<open>auto split: option.split\<close>)
  have finish: "cfgRg A req ?p (hasConfig A req (knows True (insert ?p D)))
     (Get_ProviderConfig api req \<bind> (\<lambda>u. case u of Inl e \<Rightarrow> ret (emptyResult, Some e)
        | Inr updatedConfig \<Rightarrow> finishConfig api r qs updatedConfig)) ?Q"
  proof (rule rg_bind[OF rg_read])
    fix u
    show "cfgRg A req ?p (\<lambda>k. case u of Inl _ \<Rightarrow> False
          | Inr c \<Rightarrow> (configOk A req c \<and> knows True (insert ?p D) c) \<and> reading A req True (insert ?p D) c k)
       (case u of Inl e \<Rightarrow> ret (emptyResult, Some e) | Inr c \<Rightarrow> finishConfig api r qs c) ?Q"
      by (cases u) (auto intro!: rg_false rg_assume rg_finish[OF _ p A])
  qed
  have after: "cfgRg A req ?p (\<lambda>k. case x of Some _ \<Rightarrow> True | None \<Rightarrow> hasConfig A req (knows True (insert ?p D)) k)
     (case x of Some e \<Rightarrow> ret (if isConflict e then (requeueNow, None) else (emptyResult, Some e))
      | None \<Rightarrow> Get_ProviderConfig api req \<bind> (\<lambda>u. case u of Inl e \<Rightarrow> ret (emptyResult, Some e)
          | Inr updatedConfig \<Rightarrow> finishConfig api r qs updatedConfig)) ?Q" for x
  proof (cases x)
    case None
    then show ?thesis using finish by simp
  qed (auto simp: requeueNow_def emptyResult_def intro!: rg_ret)
  have fresh: "cfgRg A req ?p (\<lambda>k. case f of Inl _ \<Rightarrow> False
        | Inr c \<Rightarrow> (configOk A req c \<and> knows True D c) \<and> reading A req True D c k)
     (case f of Inl e \<Rightarrow> ret (emptyResult, Some e)
      | Inr freshConfig \<Rightarrow> Contribute_ProviderConfig api freshConfig ?p ACMIntegrationConfigMapName
          (pcOperatorNamespace r) schema \<bind>
        (\<lambda>c. case c of Some e \<Rightarrow> ret (if isConflict e then (requeueNow, None) else (emptyResult, Some e))
         | None \<Rightarrow> Get_ProviderConfig api req \<bind> (\<lambda>u. case u of Inl e \<Rightarrow> ret (emptyResult, Some e)
             | Inr updatedConfig \<Rightarrow> finishConfig api r qs updatedConfig))) ?Q" for f schema
  proof (cases f)
    case (Inr c)
    show ?thesis
      unfolding Inr sum.case by (rule rg_assume) (rule rg_bind[OF contribute after], simp)
  qed (simp add: rg_false)
  have refused: "cfgRg A req ?p (hasConfig A req (knows True D)) (ret (emptyResult, Some e)) ?Q" for e
    by (rule rg_ret) simp
  show ?thesis
    unfolding contributeConfig_def by (rule rg_bind[OF form], intro rg_cases refused rg_bind[OF rg_read fresh])
qed

lemma rg_processConfig:
  assumes r: "activeConfigOperator ps r" and A: "A = activeSet ps (pcOperatorNamespace r)"
  shows "cfgRg A req (pcOperatorName r) (hasConfig A req (knows True D)) (processConfig mf api r req)
     (\<lambda>res k. res = (emptyResult, None) \<longrightarrow> settledBy A req (insert (pcOperatorName r) D) k)"
proof -
  let ?qs = "providersOf ps (pcOperatorNamespace r)"
  have qs: "distinct (activeNames ?qs)" "pcOperatorName r \<in> A"
    using r A by (auto simp: activeConfigOperator_def intro: activeNames_distinct)
  have "cfgRg A req (pcOperatorName r) (hasConfig A req (knows True D))
     (checkProviderActive api (pcOperatorName r) (pcOperatorNamespace r))
     (\<lambda>x k. x = (Some ?qs, False, emptyResult, None) \<and> hasConfig A req (knows True D) k)"
  proof (rule rg_yields[OF rg_beside sees_itself[OF r]])
    show "followsBy (configEffect g) (checkProviderActive api (pcOperatorName r) (pcOperatorNamespace r))"
      unfolding checkProviderActive_def by (intro amid_rules)
    show "only asideCall (checkProviderActive api (pcOperatorName r) (pcOperatorNamespace r))" by (intro wp) simp
    show "stable (configMoves A req) (hasConfig A req (knows True D))" by (rule stable_reading(2))
  qed
  then show ?thesis
    unfolding processConfig_def
    by (rule rg_bind, intro rg_assume, simp only: prod.case option.case if_False)
      (rule rg_contributeConfig[OF qs(2) A qs(1)])
qed

text \<open>
  The reconciliation as a whole, on an object of which \<open>b\<close> says that it was started and \<open>D\<close> who
  has contributed.
\<close>

lemma rg_reconcileConfig:
  assumes r: "activeConfigOperator ps r" and A: "A = activeSet ps (pcOperatorNamespace r)"
  shows "cfgRg A req (pcOperatorName r) (hasConfig A req (knows b D)) (ProviderConfig_Reconcile mf api r req)
     (\<lambda>res k. b \<and> res = (emptyResult, None) \<longrightarrow> settledBy A req (insert (pcOperatorName r) D) k)"
proof -
  let ?p = "pcOperatorName r"
  let ?Q = "\<lambda>res k. b \<and> res = (emptyResult, None) \<longrightarrow> settledBy A req (insert ?p D) k"
  have p: "?p \<in> A" using r A by (simp add: activeConfigOperator_def)
  have finished: "settledBy A req (insert ?p D) k"
    if "storedConfig req k = Some c" "configOk A req c" "knows True D c" "pcStatus c = StatusCompleted" for c k
    using that p by (auto simp: hasConfig_def configOk_def config_inv_def knows_def)
  have get: "cfgRg A req ?p (hasConfig A req (knows b D)) (Get_ProviderConfig api req)
     (\<lambda>x k. case x of Inl _ \<Rightarrow> False | Inr c \<Rightarrow> (configOk A req c \<and> knows b D c)
        \<and> (reading A req b D c k \<and> (pcStatus c \<noteq> [] \<longrightarrow> hasConfig A req (knows True D) k)
        \<and> (pcStatus c = StatusCompleted \<longrightarrow> settledBy A req (insert ?p D) k)))"
  proof (rule rg_call[OF get_config _ stable_reading(2)])
    fix k assume "hasConfig A req (knows b D) k"
    then obtain c where c: "storedConfig req k = Some c" "configOk A req c" "knows b D c" by (auto simp: hasConfig_def)
    then have "reading A req b D c k" by (simp add: hasConfig_def since_def)
    moreover have started: "hasConfig A req (knows True D) k" if "pcStatus c \<noteq> []"
      using c that by (auto simp: hasConfig_def knows_def)
    moreover have "settledBy A req (insert ?p D) k" if "pcStatus c = StatusCompleted"
      using finished[OF c(1,2)] c(3) that by (simp add: knows_def)
    ultimately show "configMove A req ?p k (configEffect g (CGetProviderConfig req) k)
      \<and> (case fst (apiGetProviderConfig refApi req k) of Inl _ \<Rightarrow> False | Inr c \<Rightarrow> (configOk A req c \<and> knows b D c)
          \<and> (reading A req b D c (configEffect g (CGetProviderConfig req) k)
             \<and> (pcStatus c \<noteq> [] \<longrightarrow> hasConfig A req (knows True D) (configEffect g (CGetProviderConfig req) k))
             \<and> (pcStatus c = StatusCompleted \<longrightarrow> settledBy A req (insert ?p D) (configEffect g (CGetProviderConfig req) k))))"
      using c started by (simp add: configMove_def storedConfig_def lookupOr_def)
  qed simp
  have branch: "cfgRg A req ?p (\<lambda>k. reading A req b D c k \<and> (pcStatus c \<noteq> [] \<longrightarrow> hasConfig A req (knows True D) k)
        \<and> (pcStatus c = StatusCompleted \<longrightarrow> settledBy A req (insert ?p D) k))
     (if pcStatus c = [] then initializeConfig api c
      else if pcStatus c = StatusCompleted then ret (emptyResult, None)
      else if pcStatus c \<noteq> StatusPending then ret (emptyResult, None)
      else processConfig mf api r req) ?Q"
    if c: "configOk A req c" "knows b D c" for c
  proof (intro rg_cases)
    let ?P = "\<lambda>k. reading A req b D c k \<and> (pcStatus c \<noteq> [] \<longrightarrow> hasConfig A req (knows True D) k)
        \<and> (pcStatus c = StatusCompleted \<longrightarrow> settledBy A req (insert ?p D) k)"
    show "cfgRg A req ?p ?P (initializeConfig api c) ?Q" if "pcStatus c = []"
      by (rule rg_mono[OF rg_start[where b = b and D = D, OF c(1) that p]]) (use c(2) that in \<open>simp_all add: knows_def\<close>)
    show "cfgRg A req ?p ?P (ret (emptyResult, None)) ?Q" if "pcStatus c = StatusCompleted"
      by (rule rg_ret) (use that in simp)
    show "cfgRg A req ?p ?P (ret (emptyResult, None)) ?Q"
      if "pcStatus c \<noteq> []" "pcStatus c \<noteq> StatusCompleted" "pcStatus c \<noteq> StatusPending"
      using c(1) that by (auto simp: configOk_def config_inv_def)
    show "cfgRg A req ?p ?P (processConfig mf api r req) ?Q" if "\<not> pcStatus c \<noteq> StatusPending"
      by (rule rg_mono[OF rg_processConfig[where D = D, OF r A]]) (use that in simp_all)
  qed
  show ?thesis
    unfolding ProviderConfig_Reconcile_def
  proof (rule rg_bind[OF get])
    fix x
    show "cfgRg A req ?p (\<lambda>k. case x of Inl _ \<Rightarrow> False | Inr c \<Rightarrow> (configOk A req c \<and> knows b D c)
          \<and> (reading A req b D c k \<and> (pcStatus c \<noteq> [] \<longrightarrow> hasConfig A req (knows True D) k)
        \<and> (pcStatus c = StatusCompleted \<longrightarrow> settledBy A req (insert ?p D) k)))
       (case x of Inl e \<Rightarrow> ret (emptyResult, if isNotFound e then None else Some e)
        | Inr config \<Rightarrow> if pcStatus config = [] then initializeConfig api config
            else if pcStatus config = StatusCompleted then ret (emptyResult, None)
            else if pcStatus config \<noteq> StatusPending then ret (emptyResult, None)
            else processConfig mf api r req) ?Q"
    proof (cases x)
      case (Inl e)
      show ?thesis unfolding Inl sum.case by (rule rg_false)
    next
      case (Inr c)
      show ?thesis unfolding Inr sum.case by (rule rg_assume) (rule branch; simp)
    qed
  qed
qed

end

end
