(* ===== verification/Completion.thy ===== *)
theory Completion
  imports Guarantee
begin

text \<open>
  The protocol from end to end.  \<^verbatim>\<open>Guarantee\<close> shows that a request is completed once every active
  operator has had a reconciliation that ended well; here it is shown that reconciliations do end
  well, on a cluster whose managed clusters can be listed and whose shared secret, if it exists,
  can be read.  Together: on such a cluster the active operators complete a request by reconciling
  it once each, in any order.
\<close>

section \<open>Healthy clusters\<close>

definition goodSecret :: "nsname \<Rightarrow> Secret \<Rightarrow> bool" where
  "goodSecret key s = ((secNamespace s, secName s) = key
     \<and> (\<exists>m. existingOperatorData s = Inr m \<and> m \<noteq> None \<and> dataWf m))"

definition healthyFor :: "nsname \<Rightarrow> cluster \<Rightarrow> bool" where
  "healthyFor key k = ((\<exists>cs. kClusters k = map encManagedCluster cs)
     \<and> (\<forall>s. map_of (kSecrets k) key = Some s \<longrightarrow> goodSecret key s))"

text \<open>A healthy cluster that stores the request \<open>t\<close>.\<close>

definition storing :: "nsname \<Rightarrow> nsname \<Rightarrow> KrknTargetRequest \<Rightarrow> cluster \<Rightarrow> bool" where
  "storing key req t k = (healthyFor key k \<and> stored req k = Some t \<and> (trNamespace t, trName t) = req)"

abbreviation aloneRg :: "(cluster \<Rightarrow> bool) \<Rightarrow> (cluster \<times> others, 'x) prog \<Rightarrow> ('x \<Rightarrow> cluster \<Rightarrow> bool) \<Rightarrow> bool" where
  "aloneRg \<equiv> rg (=) (\<lambda>_ _. True)"

lemma stable_alone: "stable (=) P"
  by (simp add: stable_def)

fun quietCall :: "apiCall \<Rightarrow> bool" where
  "quietCall (CCreateManifestWork m) = True"
| "quietCall (CCleanupTargetRequests ns s) = True"
| "quietCall c = (\<not> writes c)"

lemma quiet_storing:
  assumes "quietCall c" "storing key req t k"
  shows "storing key req t (refEffect c k)"
  using assms by (cases c) (simp_all add: storing_def healthyFor_def stored_def split: option.split)

lemma rg_quiet: "follows m \<Longrightarrow> only quietCall m \<Longrightarrow> aloneRg (storing key req t) m (\<lambda>_. storing key req t)"
  by (rule rg_block[where C = quietCall, OF _ _ stable_alone]) (auto intro: quiet_storing)

text \<open>The steps that can fail, and why they do not here.\<close>

lemma decode_listing:
  "(case jsonParse (jsonPrint (JObj [(''items'', JArr (map encManagedCluster cs))])) of
      None \<Rightarrow> Inl e0
    | Some v \<Rightarrow> (case decManagedClusterList v [] of Inl e \<Rightarrow> Inl (f e) | Inr cs \<Rightarrow> Inr cs)) = Inr cs"
proof -
  have "jsonWf (JObj [(''items'', JArr (map encManagedCluster cs))])"
    by (simp add: list_all_iff encManagedCluster_wf)
  from jsonParse_print[OF this] show ?thesis
    by (simp add: decManagedClusterList_def decode_simps decSlice_def mapE_inverse decManagedCluster_enc del: jsonPrint.simps)
qed

lemma rg_listing:
  "aloneRg (storing key req t) (getManagedClusters (steadyApi ps))
     (\<lambda>m k. (\<exists>cs. m = Inr cs) \<and> storing key req t k)"
proof -
  have call: "aloneRg (storing key req t) (List_ManagedClusters (steadyApi ps))
     (\<lambda>l k. (\<exists>cs. l = Inr (map encManagedCluster cs)) \<and> storing key req t k)"
    by (rule rg_call[where g = "\<lambda>k. (Inr (kClusters k), k)", OF _ _ stable_alone])
      (auto simp: steadyApi_simps storing_def healthyFor_def)
  show ?thesis
    unfolding getManagedClusters_def
    by (rule rg_bind[OF call], rule rg_ret) (auto simp: steadyApi_simps decode_listing simp del: jsonPrint.simps)
qed

lemma processClusters_distinct: "yields (\<lambda>(cd, ts). distinct (map fst cd)) (processClusters a r ips)"
proof -
  have "yields ((\<lambda>before (cd, ts). distinct (map fst cd)) ([] @ ips)) (foldM (collectCluster a r) ips ([], []))"
    by (rule yields_foldM) (auto simp: collectCluster_def distinct_update intro!: yield split: prod.split option.split)
  then show ?thesis by (simp add: processClusters_def)
qed

lemma stored_good:
  assumes "dataWf m" "m \<noteq> None" "(secNamespace s, secName s) = key"
    "secData s = Some [(''managed-clusters'', jsonPrint (encOperatorData m))]"
  shows "goodSecret key s"
proof -
  let ?text = "jsonPrint (encOperatorData m)"
  have parsed: "parseOperatorData ?text = Inr (sortedData m)" by (rule parse_stored[OF assms(1)])
  have wf: "sortedData m \<noteq> None" "dataWf (sortedData m)" using assms(1,2) by (simp_all add: dataWf_sortedData)
  have "validText ?text" unfolding validText_def using parsed wf by blast
  then have "?text \<noteq> []" by (rule validText_nonempty)
  then have "existingOperatorData s = Inr (sortedData m)"
    using parsed assms(4) by (simp add: existingOperatorData_def mapGet_def)
  with wf assms(3) show ?thesis unfolding goodSecret_def by blast
qed

lemma rg_store_new:
  assumes "mapWf cd" "key = (OperatorNamespace r, trUUID t)"
  shows "aloneRg (\<lambda>k. map_of (kSecrets k) key = None \<and> storing key req t k)
     (storeOperatorData (steadyApi ps) r t None emptyMap cd) (\<lambda>s k. s = None \<and> storing key req t k)"
proof -
  let ?m = "Some [(OperatorName r, cd)]"
  let ?s = "\<lparr>secName = trUUID t, secNamespace = OperatorNamespace r, secResourceVersion = [],
     secOwners = [\<lparr>ownerName = trName t, ownerController = True\<rparr>],
     secData = Some [(''managed-clusters'', jsonPrint (encOperatorData ?m))]\<rparr>"
  have wf: "dataWf ?m" using assms(1) by (simp add: dataWf_def mapWf_def mapKeys_def mapGet_def)
  have good: "goodSecret key ?s" by (rule stored_good[OF wf]) (simp_all add: assms(2))
  have create: "aloneRg (\<lambda>k. map_of (kSecrets k) key = None \<and> storing key req t k)
     (Create_Secret (steadyApi ps) ?s) (\<lambda>c k. c = None \<and> storing key req t k)"
    by (rule rg_call[where g = "refCreateSecret ?s", OF _ _ stable_alone])
      (use good in \<open>auto simp: steadyApi_simps refCreateSecret_def storing_def healthyFor_def stored_def assms(2)\<close>)
  have run: "storeOperatorData (steadyApi ps) r t None emptyMap cd = do {
       c \<leftarrow> Create_Secret (steadyApi ps) ?s;
       case c of None \<Rightarrow> ret None
       | Some e \<Rightarrow> if isAlreadyExists e then do {
             g \<leftarrow> Get_Secret (steadyApi ps) (OperatorNamespace r, trUUID t);
             case g of Inl e' \<Rightarrow> ret (Some (ErrWrap ''failed to get secret after AlreadyExists'' e'))
             | Inr existingSecret \<Rightarrow> do {
                 u \<leftarrow> Update_Secret (steadyApi ps) (existingSecret\<lparr>secData := secData ?s, secOwners := secOwners ?s\<rparr>);
                 ret (case u of None \<Rightarrow> None
                   | Some e' \<Rightarrow> Some (ErrWrap ''failed to update secret after AlreadyExists'' e')) } }
         else ret (Some (ErrWrap ''failed to create secret'' e)) }"
    by (simp add: storeOperatorData_def emptyMap_def steadyApi_simps refSetController_def Let_def)
  show ?thesis
    unfolding run by (rule rg_bind[OF create], rule rg_assume, simp only: option.case, rule rg_ret, simp)
qed

lemma rg_store_existing:
  assumes "mapWf cd" "key = (OperatorNamespace r, trUUID t)" "goodSecret key old"
    "existingOperatorData old = Inr m"
  shows "aloneRg (\<lambda>k. map_of (kSecrets k) key = Some old \<and> storing key req t k)
     (storeOperatorData (steadyApi ps) r t (Some old) m cd) (\<lambda>s k. s = None \<and> storing key req t k)"
proof -
  from assms(3,4) have m: "m \<noteq> None" "dataWf m" by (auto simp: goodSecret_def)
  then obtain m' where m': "mapPut (OperatorName r) cd m = Inr m'" "m' \<noteq> None" by (cases m) auto
  have wf: "dataWf m'" by (rule dataWf_put[OF m'(1) m(2) assms(1)])
  let ?s = "old\<lparr>secData := Some [(''managed-clusters'', jsonPrint (encOperatorData m'))],
     secOwners := [\<lparr>ownerName = trName t, ownerController = True\<rparr>]\<rparr>"
  have key: "(secNamespace old, secName old) = key" using assms(3) by (simp add: goodSecret_def)
  have good: "goodSecret key (?s\<lparr>secResourceVersion := v\<rparr>)" for v
    by (rule stored_good[OF wf m'(2)]) (use key in simp_all)
  have update: "aloneRg (\<lambda>k. map_of (kSecrets k) key = Some old \<and> storing key req t k)
     (Update_Secret (steadyApi ps) ?s) (\<lambda>u k. u = None \<and> storing key req t k)"
    by (rule rg_call[where g = "refUpdateSecret ?s", OF _ _ stable_alone])
      (use good key in \<open>auto simp: steadyApi_def interleavedApi_def refUpdateSecret_def storing_def healthyFor_def
        stored_def update_conv'\<close>)
  have run: "storeOperatorData (steadyApi ps) r t (Some old) m cd = do {
       u \<leftarrow> Update_Secret (steadyApi ps) ?s;
       ret (case u of None \<Rightarrow> None | Some e \<Rightarrow> Some (ErrWrap ''failed to update secret'' e)) }"
    by (simp add: storeOperatorData_def m'(1) steadyApi_simps refSetController_def Let_def)
  show ?thesis
    unfolding run by (rule rg_bind[OF update], rule rg_ret, simp)
qed

lemma rg_secret:
  assumes "mapWf cd" "key = (OperatorNamespace r, trUUID t)"
  shows "aloneRg (storing key req t) (createManagedClustersSecret (steadyApi ps) r t cd)
     (\<lambda>s k. s = None \<and> storing key req t k)"
proof -
  have get: "aloneRg (storing key req t) (Get_Secret (steadyApi ps) (OperatorNamespace r, trUUID t))
     (\<lambda>g k. (g = Inl ApiNotFound \<and> map_of (kSecrets k) key = None \<and> storing key req t k)
        \<or> (\<exists>old. g = Inr old \<and> goodSecret key old \<and> map_of (kSecrets k) key = Some old \<and> storing key req t k))"
    by (rule rg_call[where g = "\<lambda>k. (lookupOr (kSecrets k) key, k)", OF _ _ stable_alone])
      (auto simp: steadyApi_simps assms(2) lookupOr_def storing_def healthyFor_def split: option.split)
  show ?thesis
    unfolding createManagedClustersSecret_def
  proof (rule rg_bind[OF get])
    fix g
    show "aloneRg (\<lambda>k. (g = Inl ApiNotFound \<and> map_of (kSecrets k) key = None \<and> storing key req t k)
        \<or> (\<exists>old. g = Inr old \<and> goodSecret key old \<and> map_of (kSecrets k) key = Some old \<and> storing key req t k))
      (case g of Inl getErr \<Rightarrow> if \<not> isNotFound getErr
         then ret (Some (ErrWrap ''failed to check if secret exists'' getErr))
         else storeOperatorData (steadyApi ps) r t None emptyMap cd
       | Inr existingSecret \<Rightarrow>
         (case existingOperatorData existingSecret of Inl e \<Rightarrow> ret (Some e)
          | Inr allOperatorData \<Rightarrow> storeOperatorData (steadyApi ps) r t (Some existingSecret) allOperatorData cd))
      (\<lambda>s k. s = None \<and> storing key req t k)"
    proof (cases g)
      case (Inl e)
      then show ?thesis
        by (cases "e = ApiNotFound") (simp_all add: rg_store_new[OF assms] rg_false)
    next
      case (Inr old)
      show ?thesis
      proof (cases "goodSecret key old")
        case True
        then obtain m where "existingOperatorData old = Inr m" by (auto simp: goodSecret_def)
        with Inr True rg_store_existing[OF assms True this] show ?thesis by simp
      qed (simp add: Inr rg_false)
    qed
  qed
qed

section \<open>The reconciler on a healthy cluster\<close>

text \<open>The request is there, started and part of the protocol; only the clock and versions may differ.\<close>

definition awaiting :: "string \<Rightarrow> nsname \<Rightarrow> string \<Rightarrow> cluster \<Rightarrow> bool" where
  "awaiting ns req uuid k = (\<exists>t. storing (ns, uuid) req t k \<and> trUUID t = uuid
     \<and> (trStatus t = StatusPending \<or> trStatus t = StatusCompleted))"

lemma rg_cleanup_well:
  "aloneRg (awaiting ns req uuid) (cleanupAndReturn (steadyApi ps) r)
     (\<lambda>res k. res = (emptyResult, None) \<and> awaiting ns req uuid k)"
proof -
  have "yields (\<lambda>res. res = (emptyResult, None)) (cleanupAndReturn (steadyApi ps) r)"
    by (simp add: cleanupAndReturn_def cleanupOldTargetRequests_def yields_def steadyApi_simps amid_def)
  moreover have "aloneRg (awaiting ns req uuid) (cleanupAndReturn (steadyApi ps) r) (\<lambda>_. awaiting ns req uuid)"
  proof (rule rg_block[where C = quietCall, OF _ _ stable_alone])
    show "follows (cleanupAndReturn (steadyApi ps) r)" "only quietCall (cleanupAndReturn (steadyApi ps) r)"
      unfolding cleanupAndReturn_def cleanupOldTargetRequests_def
      by (intro steady.follows_calls amid_rules, intro wp, simp)
    show "True \<and> awaiting ns req uuid (refEffect c k)" if "quietCall c" "awaiting ns req uuid k" for c k
      using that unfolding awaiting_def by (blast intro: quiet_storing)
  qed
  ultimately show ?thesis using rg_yields by fastforce
qed

lemma rg_status_well:
  assumes "trUUID u = uuid" "(trNamespace u, trName u) = req" "trResourceVersion u = trResourceVersion t"
    and "trUUID t = uuid" "trStatus u = StatusPending \<or> trStatus u = StatusCompleted"
  shows "aloneRg (storing (ns, uuid) req t)
     (do { x \<leftarrow> StatusUpdate_TargetRequest (steadyApi ps) u;
           case x of Inl e \<Rightarrow> ret (if isConflict e then (requeueNow, None) else (emptyResult, Some e))
           | Inr _ \<Rightarrow> cleanupAndReturn (steadyApi ps) r })
     (\<lambda>res k. res = (emptyResult, None) \<and> awaiting ns req uuid k)"
proof -
  have update: "aloneRg (storing (ns, uuid) req t) (StatusUpdate_TargetRequest (steadyApi ps) u)
     (\<lambda>x k. (\<exists>v. x = Inr v) \<and> awaiting ns req uuid k)"
    by (rule rg_call[where g = "refUpdateRequest True u", OF _ _ stable_alone])
      (use assms in \<open>auto simp: steadyApi_simps refUpdateRequest_def storing_def awaiting_def healthyFor_def
        stored_def Let_def update_conv'\<close>)
  show ?thesis
    by (rule rg_bind[OF update], rule rg_assume) (auto intro: rg_cleanup_well)
qed

lemma rg_process_well:
  assumes r: "activeOperator ps r" and t: "trUUID t = uuid" "trStatus t = StatusPending" "(trNamespace t, trName t) = req"
    and ns: "OperatorNamespace r = ns"
  shows "aloneRg (storing (ns, uuid) req t) (processRequest (steadyApi ps) r t)
     (\<lambda>res k. res = (emptyResult, None) \<and> awaiting ns req uuid k)"
proof -
  let ?api = "steadyApi ps" and ?P = "storing (ns, uuid) req t"
  let ?Q = "\<lambda>res k. res = (emptyResult, None) \<and> awaiting ns req uuid k"
  let ?qs = "providersOf ps (OperatorNamespace r)"
  have dp: "defaultProbes r" using r by (simp add: activeOperator_def)
  note sp = default_soundProbes[OF dp, of ?api]
  then have cred: "credential_probe (credentialProbeOf ?api r) (acceptedBy ?api)"
    and live: "liveness_probe (livenessProbeOf ?api r)" by (simp_all add: soundProbes_def)
  have quiet: "quietCall c" if "\<not> writes c" for c using that by (cases c) simp_all
  have clusters: "only quietCall (processClusters ?api r ips)" for ips
    by (rule only_mono[OF only_processClusters[OF cred, of ips "map (piCluster \<circ> fst) ips"]])
      (use quiet in \<open>auto simp: clusterCall_def\<close>)
  have publish: "aloneRg ?P (publishTargets ?api r qs t ts) ?Q" for qs ts
  proof -
    have run: "publishTargets ?api r qs t ts = do {
        now \<leftarrow> Now ?api;
        x \<leftarrow> StatusUpdate_TargetRequest ?api (publishedRequest now r qs t ts);
        case x of Inl e \<Rightarrow> ret (if isConflict e then (requeueNow, None) else (emptyResult, Some e))
        | Inr _ \<Rightarrow> cleanupAndReturn ?api r }"
      by (simp add: publishTargets_def publishedRequest_def Let_def)
    have pub: "trUUID (publishedRequest now r qs t ts) = uuid" "trResourceVersion (publishedRequest now r qs t ts) = trResourceVersion t"
      "(trNamespace (publishedRequest now r qs t ts), trName (publishedRequest now r qs t ts)) = req"
      "trStatus (publishedRequest now r qs t ts) = StatusPending \<or> trStatus (publishedRequest now r qs t ts) = StatusCompleted" for now
      using t by (auto simp: publishedRequest_def completeRequest_def Let_def)
    show ?thesis
      unfolding run by (rule rg_bind[OF rg_ask], assumption, rule rg_status_well[OF pub(1,3,2) t(1) pub(4)])
  qed
  have secret: "aloneRg ?P (createManagedClustersSecret ?api r t (Some cd) \<bind>
      (\<lambda>s. case s of Some e \<Rightarrow> ret (emptyResult, Some e) | None \<Rightarrow> publishTargets ?api r qs t ts)) ?Q"
    if cd: "distinct (map fst cd)" for cd ts qs
  proof -
    have "mapWf (Some cd)" "(ns, uuid) = (OperatorNamespace r, trUUID t)"
      using cd ns t(1) by (simp_all add: mapWf_def mapKeys_def)
    from rg_secret[OF this] show ?thesis
      by (rule rg_bind) (rule rg_assume, simp only: option.case publish)
  qed
  have work: "aloneRg ?P (processClusters ?api r ips \<bind>
      (\<lambda>(cd, ts). createManagedClustersSecret ?api r t (Some cd) \<bind>
       (\<lambda>s. case s of Some e \<Rightarrow> ret (emptyResult, Some e) | None \<Rightarrow> publishTargets ?api r qs t ts))) ?Q" for ips qs
    by (rule rg_bind[OF rg_yields[OF rg_quiet[OF steady.follows_processClusters[OF dp] clusters] processClusters_distinct]])
      (auto intro!: rg_assume secret)
  have contribute: "aloneRg ?P (contributeTargets ?api r qs t) ?Q" for qs
  proof -
    have inputs: "aloneRg ?P (mapM (buildProbeInput ?api) cs) (\<lambda>_. ?P)" for cs
      by (rule rg_quiet) (intro amid_rules steady.follows_probeInput, rule only_mapM, rule only_buildProbeInput, erule quiet)
    have probes: "aloneRg ?P (probeManagedClusters ?api ins (livenessProbeOf ?api r)) (\<lambda>_. ?P)" for ins
      by (rule rg_quiet[OF steady.follows_probes[OF dp] liveness_probe.only_probeManagedClusters[OF live quiet]])
    show ?thesis
      unfolding contributeTargets_def reportProbes_def
      by (rule rg_bind[OF rg_listing], rule rg_assume)
        (auto intro!: rg_bind[OF inputs] rg_bind[OF probes] work)
  qed
  have await: "aloneRg ?P (awaitOthers ?api r qs t) ?Q" for qs
  proof -
    have clean: "aloneRg ?P (cleanupAndReturn ?api r) ?Q"
      by (rule rg_mono[OF rg_cleanup_well]) (use t in \<open>auto simp: awaiting_def\<close>)
    show ?thesis
      unfolding awaitOthers_def
      by (intro rg_cases clean rg_bind[OF rg_ask], assumption, rule rg_status_well)
        (use t in \<open>simp_all add: completeRequest_def\<close>)
  qed
  have "follows (checkProviderActive ?api (OperatorName r) (OperatorNamespace r))"
    unfolding checkProviderActive_def by (intro amid_rules)
  moreover have "only quietCall (checkProviderActive ?api (OperatorName r) (OperatorNamespace r))" by (intro wp) simp
  ultimately have "aloneRg ?P (checkProviderActive ?api (OperatorName r) (OperatorNamespace r))
     (\<lambda>x k. x = (Some ?qs, False, emptyResult, None) \<and> ?P k)"
    using rg_yields[OF rg_quiet steady.finds_itself[OF r]] by blast
  then show ?thesis
    unfolding processRequest_def
    by (rule rg_bind, intro rg_assume, simp only: prod.case option.case if_False Let_def)
      (intro rg_cases contribute await)
qed

lemma rg_reconcile_well:
  assumes r: "activeOperator ps r" and ns: "OperatorNamespace r = ns"
  shows "aloneRg (awaiting ns req uuid) (TargetRequest_Reconcile (steadyApi ps) r req)
     (\<lambda>res k. res = (emptyResult, None) \<and> awaiting ns req uuid k)"
proof -
  let ?Q = "\<lambda>res k. res = (emptyResult, None) \<and> awaiting ns req uuid k"
  let ?F = "\<lambda>t. trUUID t = uuid \<and> (trNamespace t, trName t) = req \<and> (trStatus t = StatusPending \<or> trStatus t = StatusCompleted)"
  have get: "aloneRg (awaiting ns req uuid) (Get_TargetRequest (steadyApi ps) req)
     (\<lambda>g k. case g of Inl _ \<Rightarrow> False | Inr t \<Rightarrow> ?F t \<and> storing (ns, uuid) req t k)"
    by (rule rg_call[where g = "\<lambda>k. (lookupOr (kRequests k) req, k)", OF _ _ stable_alone])
      (auto simp: steadyApi_simps awaiting_def storing_def stored_def lookupOr_def)
  have idle: "aloneRg (storing (ns, uuid) req t) (ret (emptyResult, None)) ?Q" if "?F t" for t
    by (rule rg_ret) (use that in \<open>auto simp: awaiting_def\<close>)
  have branch: "aloneRg (storing (ns, uuid) req t)
     (if trStatus t = [] then initializeRequest (steadyApi ps) t
      else if trStatus t = StatusCompleted then ret (emptyResult, None)
      else if trStatus t \<noteq> StatusPending then ret (emptyResult, None)
      else processRequest (steadyApi ps) r t) ?Q" if "?F t" for t
    using that idle[OF that] rg_process_well[OF r, of t uuid req ns] ns by auto
  show ?thesis
    unfolding TargetRequest_Reconcile_def
  proof (rule rg_bind[OF get])
    fix g
    show "aloneRg (\<lambda>k. case g of Inl _ \<Rightarrow> False | Inr t \<Rightarrow> ?F t \<and> storing (ns, uuid) req t k)
       (case g of Inl e \<Rightarrow> ret (emptyResult, if isNotFound e then None else Some e)
        | Inr t \<Rightarrow> if trStatus t = [] then initializeRequest (steadyApi ps) t
            else if trStatus t = StatusCompleted then ret (emptyResult, None)
            else if trStatus t \<noteq> StatusPending then ret (emptyResult, None)
            else processRequest (steadyApi ps) r t) ?Q"
    proof (cases g)
      case (Inl e)
      show ?thesis unfolding Inl sum.case by (rule rg_false)
    next
      case (Inr t)
      show ?thesis unfolding Inr sum.case by (rule rg_assume) (rule branch)
    qed
  qed
qed

lemma reconcile_well:
  assumes "activeOperator ps r" "OperatorNamespace r = ns" "awaiting ns req uuid k"
  shows "\<exists>w. run_state (TargetRequest_Reconcile (steadyApi ps) r req) \<lparr>env = (k, \<lambda>n k. k), calls = []\<rparr> = ((emptyResult, None), w)
     \<and> fst (env w) = afterReconcile ps req r k \<and> awaiting ns req uuid (afterReconcile ps req r k)"
proof -
  obtain res w where run: "run_state (TargetRequest_Reconcile (steadyApi ps) r req)
      \<lparr>env = (k, \<lambda>n k. k), calls = []\<rparr> = (res, w)" by fastforce
  have "res = (emptyResult, None) \<and> awaiting ns req uuid (fst (env w))"
    by (rule rg_outcome[OF rg_reconcile_well[OF assms(1,2)] _ _ run]) (simp_all add: assms(3) othersMove_def)
  with run show ?thesis by (auto simp: afterReconcile_def)
qed

lemma clustersAfter_rounds:
  assumes "list_all (\<lambda>r. activeOperator ps r \<and> OperatorNamespace r = ns) rs"
    and "awaiting ns req uuid k1" "rounds ps ns req k S k1"
  shows "rounds ps ns req k (S \<union> OperatorName ` set rs) (last (clustersAfter ps req rs k1))"
  using assms
proof (induction rs arbitrary: k1 S)
  case (Cons r rs)
  let ?k = "afterReconcile ps req r k1"
  have r: "activeOperator ps r" "OperatorNamespace r = ns" using Cons.prems(1) by simp_all
  from reconcile_well[OF r Cons.prems(2)] obtain w where
    w: "run_state (TargetRequest_Reconcile (steadyApi ps) r req) \<lparr>env = (k1, \<lambda>n k. k), calls = []\<rparr> = ((emptyResult, None), w)"
      "fst (env w) = ?k" and await: "awaiting ns req uuid ?k" by blast
  from rounds.round[OF Cons.prems(3) r alone w(1)] w(2)
  have "rounds ps ns req k (insert (OperatorName r) S) ?k" by simp
  from Cons.IH[OF _ await this] Cons.prems(1) show ?case
    using clustersAfter_Cons[of ps req rs ?k] by (auto simp: insert_commute)
qed simp

section \<open>Properties\<close>


definition threeProviders :: "KrknOperatorTargetProvider list" where
  "threeProviders = map (\<lambda>(n, b). \<lparr>pvName = n, pvNamespace = ''krkn'', pvOperatorName = n, pvActive = b\<rparr>)
     [(''core'', True), (''hcp'', False), (''acm'', True)]"

definition busyWith :: "string list \<Rightarrow> cluster" where
  "busyWith names = soleCluster\<lparr>kClusters := map encManagedCluster (map (\<lambda>n. exampleCluster n ''True'') names)\<rparr>"


end
