(* ===== verification/ConfigRounds.thy ===== *)
theory ConfigRounds
  imports ConfigGuarantee Completion
begin

text \<open>
  Any number of reconciliations of a configuration object, by any operators: the contract of
  \<^verbatim>\<open>ConfigLifecycle\<close> holds for each call, and the object is completed once every active operator
  has had a reconciliation that ended well.
\<close>

section \<open>The API server\<close>

definition configApi :: "contribution \<Rightarrow> KrknOperatorTargetProvider list \<Rightarrow> (cluster \<times> others) api" where
  "configApi g ps = (steadyApi ps)\<lparr>apiContributeProviderConfig := (\<lambda>c oper cm ns schema. amid (g c oper cm ns schema))\<rparr>"

lemma configApi_simps:
  "apiGetProviderConfig (configApi g ps) n = amid (\<lambda>k. (lookupOr (kConfigs k) n, k))"
  "apiUpdateProviderConfigObject (configApi g ps) c = amid (refUpdateConfig False c)"
  "apiStatusUpdateProviderConfig (configApi g ps) c = amid (refUpdateConfig True c)"
  "apiContributeProviderConfig (configApi g ps) c oper cm ns schema = amid (g c oper cm ns schema)"
  "apiCleanupProviderConfigs (configApi g ps) ns s = amid (\<lambda>k. (Inr 0, k))"
  "apiListProviders (configApi g ps) ns = (\<lambda>e. (Inr (providersOf ps ns), snd (amid (\<lambda>k. ((), k)) e)))"
  "apiListManagedClusters (configApi g ps) = amid (\<lambda>k. (Inr (kClusters k), k))"
  "apiListSecrets (configApi g ps) ns = amid (\<lambda>k. (Inr (map snd (filter (\<lambda>s. fst (fst s) = ns) (kSecrets k))), k))"
  "apiMarshalList (configApi g ps) vs = Inr (jsonPrint (JObj [(''items'', JArr vs)]))"
  "apiGetValue (configApi g ps) e = apiGetValue refApi (fst e)"
  "apiNow (configApi g ps) e = kClock (fst e)"
  by (simp_all add: configApi_def steadyApi_def interleavedApi_def providersOf_def)

lemma configApi_calls: "config_contribution g \<Longrightarrow> config_calls g (configApi g ps) ps"
  by (intro config_calls.intro config_calls_axioms.intro)
    (simp_all add: configApi_simps amid_effect[where eff = "configEffect g"])

abbreviation referenceContribution :: contribution where
  "referenceContribution \<equiv> \<lambda>c oper cm ns schema. refContribute c oper schema"

interpretation reference_calls: config_calls referenceContribution "configApi referenceContribution ps" ps for ps
  by (rule configApi_calls[OF refContribute_adds])

section \<open>Many reconciliations\<close>

inductive configRounds :: "contribution \<Rightarrow> (InputField \<Rightarrow> err + json) \<Rightarrow> KrknOperatorTargetProvider list \<Rightarrow> string \<Rightarrow>
    nsname \<Rightarrow> cluster \<Rightarrow> string set \<Rightarrow> cluster \<Rightarrow> bool"
  for g :: contribution and mf :: "InputField \<Rightarrow> err + json" and ps :: "KrknOperatorTargetProvider list"
    and ns :: string and req :: nsname and k :: cluster where
  none: "configRounds g mf ps ns req k {} k"
| round: "configRounds g mf ps ns req k S k1 \<Longrightarrow> activeConfigOperator ps r \<Longrightarrow> pcOperatorNamespace r = ns \<Longrightarrow>
    othersMove (configMoves (activeSet ps ns) req) oth \<Longrightarrow>
    run_state (ProviderConfig_Reconcile mf (configApi g ps) r req) \<lparr>env = (k1, oth), calls = []\<rparr> = (res, w) \<Longrightarrow>
    configRounds g mf ps ns req k (if res = (emptyResult, None) then insert (pcOperatorName r) S else S) (fst (env w))"

lemma one_config_round:
  assumes g: "config_contribution g" and r: "activeConfigOperator ps r" "A = activeSet ps (pcOperatorNamespace r)"
    and oth: "othersMove (configMoves A req) oth"
    and run: "run_state (ProviderConfig_Reconcile mf (configApi g ps) r req) \<lparr>env = (k, oth), calls = []\<rparr> = (res, w)"
    and k: "hasConfig A req (knows b D) k"
  shows "list_all (\<lambda>(k, k'). configMove A req (pcOperatorName r) k k') (ownMovesBy (configEffect g)
      (trace (ProviderConfig_Reconcile mf (configApi g ps) r req) \<lparr>env = (k, oth), calls = []\<rparr>) (k, oth))"
    and "stable (configMoves A req) P \<Longrightarrow> P k \<Longrightarrow> P (fst (env w))"
    and "b \<Longrightarrow> res = (emptyResult, None) \<Longrightarrow> settledBy A req (insert (pcOperatorName r) D) (fst (env w))"
proof -
  have "pcOperatorName r \<in> A" using r by (simp add: activeConfigOperator_def)
  then have own: "configMove A req (pcOperatorName r) \<le> configMoves A req" by (rule own_config_moves)
  note ended = rg_run[OF config_calls.rg_reconcileConfig[OF configApi_calls[OF g] r] k oth run own]
  show "list_all (\<lambda>(k, k'). configMove A req (pcOperatorName r) k k') (ownMovesBy (configEffect g)
      (trace (ProviderConfig_Reconcile mf (configApi g ps) r req) \<lparr>env = (k, oth), calls = []\<rparr>) (k, oth))"
    by (rule ended(1))
  show "P (fst (env w))" if "stable (configMoves A req) P" "P k" by (rule ended(2)[OF that])
  show "settledBy A req (insert (pcOperatorName r) D) (fst (env w))" if "b" "res = (emptyResult, None)"
    using ended(3) that by simp
qed

lemma configRounds_settled:
  assumes "configRounds g mf ps ns req k S k'" "config_contribution g" "settledBy (activeSet ps ns) req {} k"
  shows "settledBy (activeSet ps ns) req S k'"
  using assms
proof (induction rule: configRounds.induct)
  case (round S k1 r oth res w)
  let ?A = "activeSet ps ns"
  have A: "?A = activeSet ps (pcOperatorNamespace r)" using round.hyps(3) by simp
  have before: "settledBy ?A req S k1" by (rule round.IH[OF round.prems])
  then have k1: "hasConfig ?A req (knows True S) k1" by (auto simp: hasConfig_def)
  note one = one_config_round[OF round.prems(1) round.hyps(2) A round.hyps(4,5) k1]
  show ?case using one(2)[OF stable_settledBy before] one(3) by simp
qed

section \<open>Reconciliations that end well\<close>

text \<open>A contribution that, based on the object that is stored, succeeds and touches no managed cluster.\<close>

locale reliable_contribution = config_contribution +
  assumes accepts: "storedConfig (configKey c) k = Some c \<Longrightarrow>
     fst (g c oper cm ns schema k) = None \<and> kClusters (snd (g c oper cm ns schema k)) = kClusters k"
begin

lemma accepted:
  assumes "storedConfig req k = Some c" "configKey c = req"
  shows "\<exists>new. storedConfig req (snd (g c oper cm ns schema k)) = Some new \<and> addsEntry oper c new"
  using assms contributes[of c k c oper cm ns schema] accepts[of c k oper cm ns schema] by (auto simp: since_def)

end

lemma refContribute_accepts: "reliable_contribution referenceContribution"
proof
  fix c k oper and cm ns :: string and schema
  assume "storedConfig (configKey c) k = Some c"
  then show "fst (refContribute c oper schema k) = None \<and> kClusters (snd (refContribute c oper schema k)) = kClusters k"
    by (simp add: refContribute_def refUpdateConfig_def storedConfig_def Let_def)
qed

interpretation reference_accepts: reliable_contribution referenceContribution
  by (rule refContribute_accepts)

text \<open>The object \<open>c\<close> is stored, and the managed clusters can be listed.\<close>

definition havingConfig :: "nsname \<Rightarrow> KrknOperatorTargetProviderConfig \<Rightarrow> cluster \<Rightarrow> bool" where
  "havingConfig req c k = ((\<exists>cs. kClusters k = map encManagedCluster cs) \<and> storedConfig req k = Some c \<and> configKey c = req)"

definition configReady :: "nsname \<Rightarrow> cluster \<Rightarrow> bool" where
  "configReady req k = (\<exists>c. havingConfig req c k \<and> (pcStatus c = StatusPending \<or> pcStatus c = StatusCompleted))"

abbreviation aloneConfig :: "contribution \<Rightarrow> (cluster \<Rightarrow> bool) \<Rightarrow> (cluster \<times> others, 'x) prog \<Rightarrow> ('x \<Rightarrow> cluster \<Rightarrow> bool) \<Rightarrow> bool" where
  "aloneConfig g \<equiv> rgBy (configEffect g) (=) (\<lambda>_ _. True)"

lemma rg_aside_alone:
  assumes "followsBy (configEffect g) m" "only asideCall m"
  shows "aloneConfig g P m (\<lambda>_. P)"
proof (rule rg_block[OF assms stable_alone])
  show "True \<and> P (configEffect g c k)" if "asideCall c" "P k" for c k using that by (cases c) simp_all
qed

text \<open>Every field can be marshalled.\<close>

definition marshals :: "(InputField \<Rightarrow> err + json) \<Rightarrow> bool" where
  "marshals mf = (\<forall>f. \<exists>j. mf f = Inr j)"

context reliable_contribution
begin

lemma rg_form:
  assumes mf: "marshals mf"
  shows "aloneConfig g (havingConfig req c) (buildConfigSchema mf (configApi g ps)) (\<lambda>x k. (\<exists>s. x = Inr s) \<and> havingConfig req c k)"
proof -
  let ?api = "configApi g ps"
  note follows = config_calls.aside_follows[OF configApi_calls[OF config_contribution_axioms]]
  have list: "aloneConfig g (havingConfig req c) (List_ManagedClusters ?api)
     (\<lambda>l k. (\<exists>cs. l = Inr (map encManagedCluster cs)) \<and> havingConfig req c k)"
    by (rule rg_call[where g = "\<lambda>k. (Inr (kClusters k), k)", OF _ _ stable_alone])
      (auto simp: configApi_simps havingConfig_def)
  have listing: "aloneConfig g (havingConfig req c) (ProviderConfig_getManagedClusters ?api)
     (\<lambda>m k. (\<exists>cs. m = Inr cs) \<and> havingConfig req c k)"
    unfolding ProviderConfig_getManagedClusters_def
    by (rule rg_bind[OF list], rule rg_ret) (auto simp: configApi_simps decode_listing simp del: jsonPrint.simps)
  have fields: "aloneConfig g (havingConfig req c) (schemaFields ?api cs) (\<lambda>_. havingConfig req c)" for cs
  proof (rule rg_aside_alone)
    show "followsBy (configEffect g) (schemaFields ?api cs)"
      unfolding schemaFields_def addSecretField_def addProxyField_def listSecretsInNamespace_def
        getDefaultSecret_def getDefaultProxyMode_def Let_def by (intro amid_rules follows)
  qed (rule only_schemaFields[OF asideCall_read])
  have "\<exists>js. mapE mf fs = Inr js" for fs
  proof (induction fs)
    case (Cons a fs)
    then obtain j js where "mf a = Inr j" "mapE mf fs = Inr js" using mf unfolding marshals_def by blast
    then show ?case by simp
  qed simp
  then have marshalled: "\<exists>s. (case mapE mf fs of Inl e \<Rightarrow> Inl (ErrWrap ''failed to marshal field'' e)
      | Inr jsonFields \<Rightarrow> Inr (jsonPrint (JArr jsonFields))) = Inr s" for fs
    by (metis sum.case(2))
  show ?thesis
    unfolding buildConfigSchema_def
    by (rule rg_bind[OF listing], rule rg_assume) (auto intro!: rg_bind[OF fields] rg_ret simp: marshalled)
qed

lemma rg_contributeConfig_well:
  assumes mf: "marshals mf" and c: "pcStatus c = StatusPending"
  shows "aloneConfig g (havingConfig req c) (contributeConfig mf (configApi g ps) r req qs)
     (\<lambda>res k. res = (emptyResult, None) \<and> configReady req k)"
proof -
  let ?api = "configApi g ps"
  let ?Q = "\<lambda>res k. res = (emptyResult, None) \<and> configReady req k"
  have read: "aloneConfig g (havingConfig req d) (Get_ProviderConfig ?api req) (\<lambda>x k. x = Inr d \<and> havingConfig req d k)" for d
    by (rule rg_call[where g = "\<lambda>k. (lookupOr (kConfigs k) req, k)", OF _ _ stable_alone])
      (auto simp: configApi_simps havingConfig_def storedConfig_def lookupOr_def)
  have contribute: "aloneConfig g (havingConfig req c) (Contribute_ProviderConfig ?api c oper cm ns schema)
     (\<lambda>x k. x = None \<and> (\<exists>new. pcStatus new = StatusPending \<and> havingConfig req new k))" for oper cm ns schema
  proof (rule rg_call[where g = "g c oper cm ns schema", OF _ _ stable_alone])
    show "True \<and> fst (g c oper cm ns schema k) = None \<and> (\<exists>new. pcStatus new = StatusPending
        \<and> havingConfig req new (configEffect g (CContributeProviderConfig c oper cm ns schema) k))"
      if k: "havingConfig req c k" for k
      using accepts[of c k oper cm ns schema] accepted[of req k c oper cm ns schema] k c
      by (fastforce simp: havingConfig_def addsEntry_def)
  qed (simp_all add: configApi_simps)
  have update: "aloneConfig g (havingConfig req d) (StatusUpdate_ProviderConfig ?api u) (\<lambda>x k. (\<exists>v. x = Inr v) \<and> configReady req k)"
    if "configKey u = configKey d" "pcResourceVersion u = pcResourceVersion d"
      "pcStatus u = StatusPending \<or> pcStatus u = StatusCompleted" for u d
    by (rule rg_call[where g = "refUpdateConfig True u", OF _ _ stable_alone])
      (use that in \<open>auto simp: configApi_simps refUpdateConfig_def havingConfig_def configReady_def storedConfig_def
        Let_def update_conv'\<close>)
  have clean: "aloneConfig g (configReady req) (Cleanup_ProviderConfigs ?api ns s) (\<lambda>_. configReady req)" for ns s
    by (rule rg_aside_alone[OF config_calls.aside_follows(1)[OF configApi_calls[OF config_contribution_axioms]]]) (intro wp, simp)
  have finish: "aloneConfig g (havingConfig req d) (finishConfig ?api r qs d) ?Q" if "pcStatus d = StatusPending" for d
    unfolding finishConfig_def Let_def
    by (rule rg_bind[OF rg_ask], assumption, rule rg_bind[OF update], use that in simp_all)
      (rule rg_assume, auto intro!: rg_bind[OF clean] rg_ret)
  have after: "aloneConfig g (\<lambda>k. x = None \<and> (\<exists>new. pcStatus new = StatusPending \<and> havingConfig req new k))
     (case x of Some e \<Rightarrow> ret (if isConflict e then (requeueNow, None) else (emptyResult, Some e))
      | None \<Rightarrow> Get_ProviderConfig ?api req \<bind> (\<lambda>u. case u of Inl e \<Rightarrow> ret (emptyResult, Some e)
          | Inr updatedConfig \<Rightarrow> finishConfig ?api r qs updatedConfig)) ?Q" for x
  proof (intro rg_assume rg_exists)
    fix d :: KrknOperatorTargetProviderConfig
    assume "x = None" "pcStatus d = StatusPending"
    then show "aloneConfig g (havingConfig req d) (case x of
        Some e \<Rightarrow> ret (if isConflict e then (requeueNow, None) else (emptyResult, Some e))
      | None \<Rightarrow> Get_ProviderConfig ?api req \<bind> (\<lambda>u. case u of Inl e \<Rightarrow> ret (emptyResult, Some e)
          | Inr updatedConfig \<Rightarrow> finishConfig ?api r qs updatedConfig)) ?Q"
      using finish by (auto intro!: rg_bind[OF read] rg_assume)
  qed
  have rest: "aloneConfig g (havingConfig req c) (Get_ProviderConfig ?api req \<bind> (\<lambda>f. case f of
        Inl e \<Rightarrow> ret (emptyResult, Some e)
      | Inr freshConfig \<Rightarrow> Contribute_ProviderConfig ?api freshConfig (pcOperatorName r) ACMIntegrationConfigMapName
          (pcOperatorNamespace r) schema \<bind>
        (\<lambda>x. case x of Some e \<Rightarrow> ret (if isConflict e then (requeueNow, None) else (emptyResult, Some e))
         | None \<Rightarrow> Get_ProviderConfig ?api req \<bind> (\<lambda>u. case u of Inl e \<Rightarrow> ret (emptyResult, Some e)
             | Inr updatedConfig \<Rightarrow> finishConfig ?api r qs updatedConfig)))) ?Q" for schema
    by (rule rg_bind[OF read], rule rg_assume, simp only: sum.case) (rule rg_bind[OF contribute after])
  show ?thesis
    unfolding contributeConfig_def
    by (rule rg_bind[OF rg_form[OF mf]], rule rg_assume) (auto intro: rest)
qed

lemma rg_reconcileConfig_well:
  assumes mf: "marshals mf" and r: "activeConfigOperator ps r"
  shows "aloneConfig g (configReady req) (ProviderConfig_Reconcile mf (configApi g ps) r req)
     (\<lambda>res k. res = (emptyResult, None) \<and> configReady req k)"
proof -
  let ?api = "configApi g ps"
  let ?Q = "\<lambda>res k. res = (emptyResult, None) \<and> configReady req k"
  note calls = configApi_calls[OF config_contribution_axioms, of ps]
  have "followsBy (configEffect g) (checkProviderActive ?api (pcOperatorName r) (pcOperatorNamespace r))"
    unfolding checkProviderActive_def by (intro amid_rules config_calls.aside_follows[OF calls])
  moreover have "only asideCall (checkProviderActive ?api (pcOperatorName r) (pcOperatorNamespace r))" by (intro wp) simp
  ultimately have check: "aloneConfig g (havingConfig req c) (checkProviderActive ?api (pcOperatorName r) (pcOperatorNamespace r))
     (\<lambda>x k. x = (Some (providersOf ps (pcOperatorNamespace r)), False, emptyResult, None) \<and> havingConfig req c k)" for c
    using rg_yields[OF rg_aside_alone config_calls.sees_itself[OF calls r]] by blast
  have process: "aloneConfig g (havingConfig req c) (processConfig mf ?api r req) ?Q" if "pcStatus c = StatusPending" for c
    unfolding processConfig_def
    by (rule rg_bind[OF check], intro rg_assume, simp only: prod.case option.case if_False)
      (rule rg_contributeConfig_well[OF mf that])
  have get: "aloneConfig g (configReady req) (Get_ProviderConfig ?api req)
     (\<lambda>x k. \<exists>c. x = Inr c \<and> (pcStatus c = StatusPending \<or> pcStatus c = StatusCompleted) \<and> havingConfig req c k)"
    by (rule rg_call[where g = "\<lambda>k. (lookupOr (kConfigs k) req, k)", OF _ _ stable_alone])
      (auto simp: configApi_simps havingConfig_def configReady_def storedConfig_def lookupOr_def)
  have idle: "aloneConfig g (havingConfig req c) (ret (emptyResult, None)) ?Q" if "pcStatus c = StatusCompleted" for c
    by (rule rg_ret) (use that in \<open>auto simp: configReady_def\<close>)
  show ?thesis
    unfolding ProviderConfig_Reconcile_def
    by (rule rg_bind[OF get], intro rg_exists rg_assume) (auto intro: process idle)
qed

end

section \<open>Properties\<close>

text \<open>The cluster after one reconciliation with nobody in between.\<close>

definition afterConfig :: "contribution \<Rightarrow> (InputField \<Rightarrow> err + json) \<Rightarrow> KrknOperatorTargetProvider list \<Rightarrow> nsname \<Rightarrow>
    KrknOperatorTargetProviderConfigReconciler \<Rightarrow> cluster \<Rightarrow> cluster" where
  "afterConfig g mf ps req r k = fst (env (snd (run_state (ProviderConfig_Reconcile mf (configApi g ps) r req)
     \<lparr>env = (k, \<lambda>n k. k), calls = []\<rparr>)))"

lemma config_well:
  assumes "reliable_contribution g" "marshals mf" "activeConfigOperator ps r" "configReady req k"
  shows "\<exists>w. run_state (ProviderConfig_Reconcile mf (configApi g ps) r req) \<lparr>env = (k, \<lambda>n k. k), calls = []\<rparr> = ((emptyResult, None), w)
     \<and> fst (env w) = afterConfig g mf ps req r k \<and> configReady req (afterConfig g mf ps req r k)"
proof -
  obtain res w where run: "run_state (ProviderConfig_Reconcile mf (configApi g ps) r req)
      \<lparr>env = (k, \<lambda>n k. k), calls = []\<rparr> = (res, w)" by fastforce
  have "res = (emptyResult, None) \<and> configReady req (fst (env w))"
    by (rule rg_outcome[OF reliable_contribution.rg_reconcileConfig_well[OF assms(1-3)] _ _ run])
      (simp_all add: assms(4) othersMove_def)
  with run show ?thesis by (auto simp: afterConfig_def)
qed

lemma alone_config: "othersMove (configMoves A req) (\<lambda>n k. k)"
  by (simp add: othersMove_def configMoves_def)

lemma config_rounds_alone:
  assumes "reliable_contribution g" "marshals mf"
    and "list_all (\<lambda>r. activeConfigOperator ps r \<and> pcOperatorNamespace r = ns) rs"
    and "configReady req k1" "configRounds g mf ps ns req k S k1"
  shows "configRounds g mf ps ns req k (S \<union> pcOperatorName ` set rs) (fold (afterConfig g mf ps req) rs k1)"
  using assms(3-5)
proof (induction rs arbitrary: k1 S)
  case (Cons r rs)
  have r: "activeConfigOperator ps r" "pcOperatorNamespace r = ns" using Cons.prems(1) by simp_all
  from config_well[OF assms(1,2) r(1) Cons.prems(2)] obtain w where
    w: "run_state (ProviderConfig_Reconcile mf (configApi g ps) r req) \<lparr>env = (k1, \<lambda>n k. k), calls = []\<rparr> = ((emptyResult, None), w)"
      "fst (env w) = afterConfig g mf ps req r k1" and ready: "configReady req (afterConfig g mf ps req r k1)" by blast
  from configRounds.round[OF Cons.prems(3) r alone_config w(1)] w(2)
  have "configRounds g mf ps ns req k (insert (pcOperatorName r) S) (afterConfig g mf ps req r k1)" by simp
  from Cons.IH[OF _ ready this] Cons.prems(1) show ?case by simp
qed simp

lemma configRounds_completes:
  assumes "configRounds g mf ps ns req k S k'" "config_contribution g" "activeSet ps ns \<subseteq> S" "activeSet ps ns \<noteq> {}"
    and "storedConfig req k = Some c" "configOk (activeSet ps ns) req c" "pcStatus c \<noteq> []"
  shows "\<exists>c'. storedConfig req k' = Some c' \<and> pcStatus c' = StatusCompleted
     \<and> dom (mapGet (pcConfigData c')) = activeSet ps ns"
proof -
  have "settledBy (activeSet ps ns) req {} k" using assms(4-7) by (auto simp: hasConfig_def knows_def)
  from configRounds_settled[OF assms(1,2) this] assms(3) show ?thesis
    by (auto simp: hasConfig_def configOk_def config_inv_def)
qed


definition configCluster :: cluster where
  "configCluster = emptyCluster\<lparr>kConfigs := [((''krkn'', ''conf''), exampleConfig)]\<rparr>"

lemma configCluster_facts:
  "activeConfigOperator soleProvider exampleConfigReconciler" "pcOperatorNamespace exampleConfigReconciler = ''krkn''"
  "pcOperatorName exampleConfigReconciler = ''acm''" "storedConfig (''krkn'', ''conf'') configCluster = Some exampleConfig"
  "pcStatus exampleConfig = StatusPending" "configOk A (''krkn'', ''conf'') exampleConfig"
  "havingConfig (''krkn'', ''conf'') exampleConfig configCluster"
proof -
  show "activeConfigOperator soleProvider exampleConfigReconciler"
    by (simp add: activeConfigOperator_def exampleConfigReconciler_def soleProvider_def providersOf_def activeNames_def)
  show "pcOperatorNamespace exampleConfigReconciler = ''krkn''" "pcOperatorName exampleConfigReconciler = ''acm''"
    by (simp_all add: exampleConfigReconciler_def)
  show stored: "storedConfig (''krkn'', ''conf'') configCluster = Some exampleConfig"
    by (simp add: storedConfig_def configCluster_def)
  show status: "pcStatus exampleConfig = StatusPending" by (simp add: exampleConfig_def StatusPending_def)
  show "configOk A (''krkn'', ''conf'') exampleConfig"
    using status by (simp add: configOk_def config_inv_def) (simp add: exampleConfig_def dom_def mapGet_def)
  show "havingConfig (''krkn'', ''conf'') exampleConfig configCluster"
    using stored by (simp add: havingConfig_def) (simp add: configCluster_def emptyCluster_def exampleConfig_def)
qed



lemma marshalName_marshals: "marshals marshalName"
  by (simp add: marshals_def marshalName_def)




text \<open>
  Completed is not final here, unlike for a request: the code checks the status on the object it
  reads first, but contributes to the one it reads later.  If the other operator completes the
  object in between, its form and its completion time are written again.
\<close>

definition bothContributed :: KrknOperatorTargetProviderConfig where
  "bothContributed = exampleConfig\<lparr>pcConfigData := Some [(''acm'', ''form''), (''core'', ''form'')]\<rparr>"

definition completedByCore :: KrknOperatorTargetProviderConfig where
  "completedByCore = bothContributed\<lparr>pcStatus := StatusCompleted, pcCompleted := Some 5, pcResourceVersion := ''1+''\<rparr>"

definition coreCompletes :: others where
  "coreCompletes n k = (if n = 1 \<and> storedConfig (''krkn'', ''conf'') k = Some bothContributed
     then k\<lparr>kConfigs := AList.update (''krkn'', ''conf'') completedByCore (kConfigs k), kClock := 9\<rparr> else k)"

definition bothCluster :: cluster where
  "bothCluster = emptyCluster\<lparr>kConfigs := [((''krkn'', ''conf''), bothContributed)]\<rparr>"

lemma coreCompletes_moves: "othersMove (configMoves {''core'', ''acm''} (''krkn'', ''conf'')) coreCompletes"
proof -
  have base: "pcStatus bothContributed = StatusPending" "pcStatus completedByCore = StatusCompleted"
    "configKey completedByCore = configKey bothContributed" "pcResourceVersion bothContributed = ''1''"
    "pcResourceVersion completedByCore = ''1+''" "pcConfigData completedByCore = pcConfigData bothContributed"
    "mapGet (pcConfigData bothContributed) = [''acm'' \<mapsto> ''form'', ''core'' \<mapsto> ''form'']"
    by (simp_all add: bothContributed_def completedByCore_def exampleConfig_def StatusPending_def mapGet_def fun_eq_iff)
  have "configLifeOf completedByCore = (configLifeOf bothContributed)\<lparr>cfPhase := Done, cfCompleted := Some 5\<rparr>"
    by (simp add: configLifeOf_def completedByCore_def)
  moreover have "cfPhase (configLifeOf bothContributed) \<noteq> New" "{''core'', ''acm''} \<subseteq> dom (cfData (configLifeOf bothContributed))"
    using base(1,7) by simp_all
  ultimately have "config_step {''core'', ''acm''} ''core'' (configLifeOf bothContributed) (configLifeOf completedByCore)"
    by (metis config_step.complete)
  then have "configStep {''core'', ''acm''} ''core'' bothContributed completedByCore"
    using base by (simp add: configStep_def)
  then have "configMove {''core'', ''acm''} (''krkn'', ''conf'') ''core'' k (coreCompletes n k)" for n k
    by (auto simp: configMove_def coreCompletes_def storedConfig_def update_conv')
  then show ?thesis by (auto simp: othersMove_def configMoves_def)
qed

definition formText :: string where
  "formText = jsonPrint (JArr [JObj [(''name'', JStr secretGroupName)], JObj [(''name'', JStr proxyGroupName)]])"

text \<open>With no managed clusters, the form is the two headings.\<close>

lemma empty_form:
  assumes "kClusters (snd e 0 (fst e)) = []"
  shows "run_state (buildConfigSchema marshalName (configApi g ps)) \<lparr>env = e, calls = cs\<rparr>
     = (Inr formText, \<lparr>env = (snd e 0 (fst e), \<lambda>n. snd e (Suc n)), calls = cs @ [CListManagedClusters]\<rparr>)"
  using assms
  by (simp add: decode_listing[where cs = "[]", unfolded list.map(1)] buildConfigSchema_def ProviderConfig_getManagedClusters_def configApi_simps amid_def schemaFields_def
      marshalName_def secretGroupField_def proxyGroupField_def groupField_def formText_def del: jsonPrint.simps)

theorem completed_config_rewritten:
  "\<exists>c. storedConfig (''krkn'', ''conf'') (fst (env (snd (run_state (ProviderConfig_Reconcile marshalName
        (configApi referenceContribution threeProviders) exampleConfigReconciler (''krkn'', ''conf''))
        \<lparr>env = (bothCluster, coreCompletes), calls = []\<rparr>)))) = Some c
     \<and> pcCompleted completedByCore = Some 5 \<and> pcCompleted c = Some 9
     \<and> mapGet (pcConfigData completedByCore) ''acm'' = Some ''form'' \<and> mapGet (pcConfigData c) ''acm'' = Some formText"
proof -
  let ?k = "bothCluster\<lparr>kConfigs := [((''krkn'', ''conf''), completedByCore)], kClock := 9\<rparr>"
  have oth: "coreCompletes 0 k = k" "coreCompletes (Suc 0) bothCluster = ?k" "coreCompletes (Suc (Suc n)) k = k" for n k
    by (simp_all add: coreCompletes_def storedConfig_def bothCluster_def)
  have status: "pcStatus bothContributed = StatusPending" "pcStatus completedByCore = StatusCompleted"
    by (simp_all add: bothContributed_def completedByCore_def exampleConfig_def StatusPending_def)
  have cluster: "kConfigs bothCluster = [((''krkn'', ''conf''), bothContributed)]" "kClusters bothCluster = []"
    by (simp_all add: bothCluster_def emptyCluster_def)
  have seen: "providersOf threeProviders ''krkn'' = threeProviders"
    "find (\<lambda>p. pvOperatorName p = ''acm'') threeProviders
      = Some \<lparr>pvName = ''acm'', pvNamespace = ''krkn'', pvOperatorName = ''acm'', pvActive = True\<rparr>"
    "countActiveProviders threeProviders = 2"
    by (simp_all add: threeProviders_def providersOf_def countActiveProviders_def)
  have final: "pcNamespace completedByCore = ''krkn''" "pcName completedByCore = ''conf''"
    "pcConfigData completedByCore = Some [(''acm'', ''form''), (''core'', ''form'')]" "pcCompleted completedByCore = Some 5"
    by (simp_all add: bothContributed_def completedByCore_def exampleConfig_def)
  show ?thesis
    by (simp add: ProviderConfig_Reconcile_def processConfig_def checkProviderActive_def contributeConfig_def
        finishConfig_def configApi_simps amid_def oth cluster lookupOr_def status seen configCluster_facts empty_form
        refContribute_def refUpdateConfig_def final Let_def shouldMarkAsCompleted_def mapLen_def storedConfig_def mapGet_def)
qed

end
