(* ===== verification/Requeue.thy ===== *)
theory Requeue
  imports Guarantee
begin

text \<open>
  The immediate requeue after a conflict.  A reconciliation asks to be run again at once when one
  of its updates meets a newer version of the request; here it is shown that this never happens on
  its own: somebody else must have touched the request during the run, so the number of such
  retries is bounded by the number of runs in which somebody did.
\<close>

section \<open>Nobody touches the request\<close>

definition keepsRequest :: "nsname \<Rightarrow> cluster \<Rightarrow> cluster \<Rightarrow> bool" where
  "keepsRequest req k k' = (stored req k' = stored req k)"

definition leavesAlone :: "nsname \<Rightarrow> others \<Rightarrow> bool" where
  "leavesAlone req oth = othersMove (keepsRequest req) oth"

abbreviation undisturbedRg :: "nsname \<Rightarrow> (cluster \<Rightarrow> bool) \<Rightarrow> (cluster \<times> others, 'x) prog \<Rightarrow> ('x \<Rightarrow> cluster \<Rightarrow> bool) \<Rightarrow> bool" where
  "undisturbedRg req \<equiv> rg (keepsRequest req) (\<lambda>_ _. True)"

abbreviation holdsRequest :: "nsname \<Rightarrow> KrknTargetRequest \<Rightarrow> cluster \<Rightarrow> bool" where
  "holdsRequest req t \<equiv> \<lambda>k. stored req k = Some t"

lemma stable_keeps: "stable (keepsRequest req) (\<lambda>k. F (stored req k))"
  by (simp add: stable_def keepsRequest_def)

lemma rg_whatever: "follows m \<Longrightarrow> yields Y m \<Longrightarrow> undisturbedRg req P m (\<lambda>x _. Y x)"
proof -
  assume f: "follows m" and y: "yields Y m"
  have "only (\<lambda>_. True) m"
    using f unfolding followsBy_def only_def by (metis list.pred_True)
  then have "undisturbedRg req (\<lambda>_. True) m (\<lambda>_ _. True)"
    by (intro rg_block[where C = "\<lambda>_. True", OF f]) (simp_all add: stable_def)
  from rg_yields[OF this y] show ?thesis by (rule rg_mono) simp_all
qed

lemma rg_besides:
  "follows m \<Longrightarrow> only (\<lambda>c. \<not> requestCall c) m \<Longrightarrow> undisturbedRg req (holdsRequest req t) m (\<lambda>_. holdsRequest req t)"
  by (rule rg_block[where C = "\<lambda>c. \<not> requestCall c", OF _ _ stable_keeps]) (simp_all add: aside_stored)

lemma update_meets:
  "stored req k = Some t \<Longrightarrow> (trNamespace u, trName u) = req \<Longrightarrow> trResourceVersion u = trResourceVersion t \<Longrightarrow>
   \<exists>v. fst (refUpdateRequest b u k) = Inr v \<and> stored req (snd (refUpdateRequest b u k)) = Some v
     \<and> trNamespace v = trNamespace t \<and> trName v = trName t"
  by (auto simp: refUpdateRequest_def stored_def Let_def update_conv')

context acts_by_calls
begin

lemma rg_status_met:
  assumes "(trNamespace u, trName u) = req" "trResourceVersion u = trResourceVersion t"
  shows "undisturbedRg req (holdsRequest req t) (StatusUpdate_TargetRequest api u) (\<lambda>x _. \<exists>v. x = Inr v)"
proof (rule rg_call[OF status_update _ stable_keeps])
  fix k assume "holdsRequest req t k"
  from update_meets[OF this assms, of True] show "True \<and> (\<exists>v. fst (apiStatusUpdateTargetRequest refApi u k) = Inr v)"
    by auto
qed simp

lemma rg_cleanup_quietly:
  "undisturbedRg req P (cleanupAndReturn api r) (\<lambda>res _. fst res \<noteq> requeueNow)"
proof (rule rg_whatever)
  show "follows (cleanupAndReturn api r)" unfolding cleanupAndReturn_def cleanupOldTargetRequests_def by (intro amid_rules)
  show "yields (\<lambda>res. fst res \<noteq> requeueNow) (cleanupAndReturn api r)"
    unfolding cleanupAndReturn_def by (intro yield) (simp add: emptyResult_def requeueNow_def)
qed

lemma rg_status_then_cleanup:
  assumes "(trNamespace u, trName u) = req" "trResourceVersion u = trResourceVersion t"
  shows "undisturbedRg req (holdsRequest req t)
     (do { x \<leftarrow> StatusUpdate_TargetRequest api u;
           case x of Inl e \<Rightarrow> ret (if isConflict e then (requeueNow, None) else (emptyResult, Some e))
           | Inr _ \<Rightarrow> cleanupAndReturn api r })
     (\<lambda>res _. fst res \<noteq> requeueNow)"
proof (rule rg_bind[OF rg_status_met[OF assms]])
  fix x :: "err + KrknTargetRequest"
  show "undisturbedRg req (\<lambda>_. \<exists>v. x = Inr v) (case x of
      Inl e \<Rightarrow> ret (if isConflict e then (requeueNow, None) else (emptyResult, Some e))
    | Inr _ \<Rightarrow> cleanupAndReturn api r) (\<lambda>res _. fst res \<noteq> requeueNow)"
    by (cases x) (simp_all add: rg_false rg_cleanup_quietly)
qed

lemma rg_publish_undisturbed:
  assumes "(trNamespace t, trName t) = req"
  shows "undisturbedRg req (holdsRequest req t) (publishTargets api r ps t ts) (\<lambda>res _. fst res \<noteq> requeueNow)"
proof -
  have run: "publishTargets api r ps t ts = do {
      now \<leftarrow> Now api;
      x \<leftarrow> StatusUpdate_TargetRequest api (publishedRequest now r ps t ts);
      case x of Inl e \<Rightarrow> ret (if isConflict e then (requeueNow, None) else (emptyResult, Some e))
      | Inr _ \<Rightarrow> cleanupAndReturn api r }"
    by (simp add: publishTargets_def publishedRequest_def Let_def)
  have same: "(trNamespace (publishedRequest now r ps t ts), trName (publishedRequest now r ps t ts)) = req"
    "trResourceVersion (publishedRequest now r ps t ts) = trResourceVersion t" for now
    using assms by (auto simp: publishedRequest_def completeRequest_def Let_def)
  show ?thesis
    unfolding run by (rule rg_bind[OF rg_ask], assumption, rule rg_status_then_cleanup[OF same])
qed

lemma rg_contribute_undisturbed:
  assumes t: "(trNamespace t, trName t) = req" and r: "defaultProbes r"
  shows "undisturbedRg req (holdsRequest req t) (contributeTargets api r ps t) (\<lambda>res _. fst res \<noteq> requeueNow)"
proof -
  let ?Q = "\<lambda>res _. fst res \<noteq> requeueNow"
  note sp = default_soundProbes[OF r, of api]
  then have cred: "credential_probe (credentialProbeOf api r) (acceptedBy api)"
    and live: "liveness_probe (livenessProbeOf api r)" by (simp_all add: soundProbes_def)
  have aside: "\<not> requestCall c" if "\<not> writes c" for c using that by (cases c) simp_all
  have listing: "follows (getManagedClusters api)" unfolding getManagedClusters_def by (intro amid_rules)
  have clusters: "only (\<lambda>c. \<not> requestCall c) (processClusters api r ips)" for ips
    by (rule only_mono[OF only_processClusters[OF cred, of ips "map (piCluster \<circ> fst) ips"]])
      (use aside in \<open>auto simp: clusterCall_def\<close>)
  have store: "undisturbedRg req (holdsRequest req t) (createManagedClustersSecret api r t cd) (\<lambda>_. holdsRequest req t)" for cd
    by (rule rg_besides[OF follows_secret]) (intro wp; simp)
  have list: "undisturbedRg req (holdsRequest req t) (getManagedClusters api) (\<lambda>_. holdsRequest req t)"
    by (rule rg_besides[OF listing]) (intro wp, simp)
  have inputs: "undisturbedRg req (holdsRequest req t) (mapM (buildProbeInput api) cs) (\<lambda>_. holdsRequest req t)" for cs
    by (rule rg_besides) (intro amid_rules, rule only_mapM, rule only_buildProbeInput, erule aside)
  note probes = rg_besides[OF follows_probes[OF r] liveness_probe.only_probeManagedClusters[OF live aside]]
  have refused: "undisturbedRg req (holdsRequest req t) (ret (emptyResult, Some e)) ?Q" for e
    by (rule rg_ret) (simp add: emptyResult_def requeueNow_def)
  have stored: "undisturbedRg req (holdsRequest req t) (createManagedClustersSecret api r t cd \<bind>
      (\<lambda>s. case s of Some e \<Rightarrow> ret (emptyResult, Some e) | None \<Rightarrow> publishTargets api r ps t ts)) ?Q" for cd ts
    by (rule rg_bind[OF store]) (intro rg_cases refused rg_publish_undisturbed[OF t])
  have report: "undisturbedRg req (holdsRequest req t) (reportProbes api r ps t ins prs) ?Q" for ins prs
    unfolding reportProbes_def
    by (rule rg_bind[OF rg_besides[OF follows_processClusters[OF r] clusters]]) (intro rg_cases stored)
  show ?thesis
    unfolding contributeTargets_def
    by (rule rg_bind[OF list], intro rg_cases refused rg_bind[OF inputs] rg_bind[OF probes] report)
qed

lemma rg_process_undisturbed:
  assumes t: "(trNamespace t, trName t) = req" and r: "defaultProbes r"
  shows "undisturbedRg req (holdsRequest req t) (processRequest api r t) (\<lambda>res _. fst res \<noteq> requeueNow)"
proof -
  let ?Q = "\<lambda>res _. fst res \<noteq> requeueNow"
  have await: "undisturbedRg req (holdsRequest req t) (awaitOthers api r ps t) ?Q" for ps
    unfolding awaitOthers_def
    by (intro rg_cases rg_cleanup_quietly rg_bind[OF rg_ask], assumption, rule rg_status_then_cleanup)
      (use t in \<open>simp_all add: completeRequest_def\<close>)
  have listing: "follows (checkProviderActive api (OperatorName r) (OperatorNamespace r))"
    unfolding checkProviderActive_def by (intro amid_rules)
  have quiet: "only (\<lambda>c. \<not> requestCall c) (checkProviderActive api (OperatorName r) (OperatorNamespace r))"
    by (intro wp) simp
  have check: "undisturbedRg req (holdsRequest req t) (checkProviderActive api (OperatorName r) (OperatorNamespace r))
     (\<lambda>x k. (case x of (ps, skip, res, e) \<Rightarrow> res = emptyResult \<and> (e = None \<longrightarrow> ps \<noteq> None)) \<and> holdsRequest req t k)"
    by (rule rg_yields[OF rg_besides[OF listing quiet] yields_checkProviderActive])
  have empty: "undisturbedRg req P (ret (emptyResult, e)) ?Q" for P and e :: "err option"
    by (rule rg_ret) (simp add: emptyResult_def requeueNow_def)
  show ?thesis
    unfolding processRequest_def
  proof (rule rg_bind[OF check], rule rg_assume)
    fix x :: "KrknOperatorTargetProvider list option \<times> bool \<times> Result \<times> err option"
    assume "case x of (ps, skip, res, e) \<Rightarrow> res = emptyResult \<and> (e = None \<longrightarrow> ps \<noteq> None)"
    then obtain ps skip e where x: "x = (ps, skip, emptyResult, e)" by (cases x) auto
    show "undisturbedRg req (holdsRequest req t) (case x of (providerList, shouldSkip, result, err) \<Rightarrow>
       (case err of Some e \<Rightarrow> ret (result, Some e)
        | None \<Rightarrow> if shouldSkip then ret (result, None)
            else (let providers = (case providerList of None \<Rightarrow> [] | Some ps \<Rightarrow> ps) in
               if mapGet (trTargetData t) (OperatorName r) \<noteq> None then awaitOthers api r providers t
               else contributeTargets api r providers t))) ?Q"
      unfolding x prod.case Let_def by (intro rg_cases empty await rg_contribute_undisturbed[OF t r])
  qed
qed

lemma rg_start_undisturbed:
  assumes t: "(trNamespace t, trName t) = req"
  shows "undisturbedRg req (holdsRequest req t) (initializeRequest api t) (\<lambda>res _. fst res \<noteq> requeueNow)"
proof -
  let ?Q = "\<lambda>res _. fst res \<noteq> requeueNow"
  have status: "undisturbedRg req (holdsRequest req v) (initializeStatus api u) ?Q"
    if "(trNamespace u, trName u) = req" "trResourceVersion u = trResourceVersion v" for u v
    unfolding initializeStatus_def
    by (rule rg_bind[OF rg_status_met[of "u\<lparr>trStatus := StatusPending\<rparr>" req v]])
      (use that in \<open>auto intro!: rg_ret simp: emptyResult_def requeueNow_def\<close>)
  have label: "undisturbedRg req (holdsRequest req t) (Update_TargetRequest api (t\<lparr>trLabels := l\<rparr>))
     (\<lambda>x k. \<exists>v. (x = Inr v \<and> (trNamespace v, trName v) = req) \<and> holdsRequest req v k)" for l
  proof (rule rg_call[OF update_request _ stable_keeps])
    fix k assume k: "holdsRequest req t k"
    from update_meets[OF k, of "t\<lparr>trLabels := l\<rparr>" False] t
    show "True \<and> (\<exists>v. (fst (apiUpdateTargetRequest refApi (t\<lparr>trLabels := l\<rparr>) k) = Inr v \<and> (trNamespace v, trName v) = req)
        \<and> holdsRequest req v (refEffect (CUpdateTargetRequest (t\<lparr>trLabels := l\<rparr>)) k))"
      by auto
  qed simp
  have after: "undisturbedRg req (\<lambda>k. \<exists>v. (x = Inr v \<and> (trNamespace v, trName v) = req) \<and> holdsRequest req v k)
     (case x of Inl e \<Rightarrow> ret (if isConflict e then (requeueNow, None) else (emptyResult, Some e))
      | Inr updated \<Rightarrow> initializeStatus api updated) ?Q" for x
  proof (intro rg_exists rg_assume)
    fix v :: KrknTargetRequest
    assume v: "x = Inr v \<and> (trNamespace v, trName v) = req"
    then show "undisturbedRg req (holdsRequest req v) (case x of
        Inl e \<Rightarrow> ret (if isConflict e then (requeueNow, None) else (emptyResult, Some e))
      | Inr updated \<Rightarrow> initializeStatus api updated) ?Q"
      using status[of v v] by simp
  qed
  show ?thesis
    unfolding initializeRequest_def Let_def
    by (intro rg_cases rg_bind[OF label after] status) (use t in simp_all)
qed

lemma rg_reconcile_undisturbed:
  assumes r: "defaultProbes r"
  shows "undisturbedRg req (wellKeyed req) (TargetRequest_Reconcile api r req) (\<lambda>res _. fst res \<noteq> requeueNow)"
proof -
  let ?Q = "\<lambda>res _. fst res \<noteq> requeueNow"
  have keyed: "stable (keepsRequest req) (wellKeyed req)" by (simp add: stable_def keepsRequest_def wellKeyed_def)
  have get: "undisturbedRg req (wellKeyed req) (Get_TargetRequest api req)
     (\<lambda>g k. case g of Inl e \<Rightarrow> True | Inr t \<Rightarrow> (trNamespace t, trName t) = req \<and> holdsRequest req t k)"
    by (rule rg_call[OF get_request _ keyed]) (auto simp: wellKeyed_def stored_def lookupOr_def split: option.split)
  have empty: "undisturbedRg req P (ret (emptyResult, e)) ?Q" for P and e :: "err option"
    by (rule rg_ret) (simp add: emptyResult_def requeueNow_def)
  have branch: "undisturbedRg req (holdsRequest req t)
     (if trStatus t = [] then initializeRequest api t
      else if trStatus t = StatusCompleted then ret (emptyResult, None)
      else if trStatus t \<noteq> StatusPending then ret (emptyResult, None)
      else processRequest api r t) ?Q" if "(trNamespace t, trName t) = req" for t
    by (intro rg_cases empty rg_start_undisturbed[OF that] rg_process_undisturbed[OF that r])
  show ?thesis
    unfolding TargetRequest_Reconcile_def
  proof (rule rg_bind[OF get])
    fix g
    show "undisturbedRg req (\<lambda>k. case g of Inl e \<Rightarrow> True | Inr t \<Rightarrow> (trNamespace t, trName t) = req \<and> holdsRequest req t k)
       (case g of Inl e \<Rightarrow> ret (emptyResult, if isNotFound e then None else Some e)
        | Inr t \<Rightarrow> if trStatus t = [] then initializeRequest api t
            else if trStatus t = StatusCompleted then ret (emptyResult, None)
            else if trStatus t \<noteq> StatusPending then ret (emptyResult, None)
            else processRequest api r t) ?Q"
      by (cases g) (simp_all add: empty rg_assume branch)
  qed
qed

end

section \<open>Bounded retries\<close>

lemma leavesAlone_run:
  assumes r: "defaultProbes r" and k: "wellKeyed req k" and oth: "leavesAlone req oth"
  shows "fst (outcome (TargetRequest_Reconcile interleavedApi r req) \<lparr>env = (k, oth), calls = []\<rparr>) \<noteq> requeueNow"
proof -
  obtain res w where run: "run_state (TargetRequest_Reconcile interleavedApi r req) \<lparr>env = (k, oth), calls = []\<rparr> = (res, w)"
    by fastforce
  have "fst res \<noteq> requeueNow"
    by (rule rg_outcome[OF interleaved.rg_reconcile_undisturbed[OF r] _ _ run])
      (use k oth in \<open>simp_all add: leavesAlone_def\<close>)
  with run show ?thesis by (simp add: outcome_def)
qed

text \<open>Names stay: no call, and no other actor that keeps names, files a request under another name.\<close>

definition keepsKeys :: "nsname \<Rightarrow> others \<Rightarrow> bool" where
  "keepsKeys req oth = (\<forall>n k. wellKeyed req k \<longrightarrow> wellKeyed req (oth n k))"

lemma refEffect_keyed:
  assumes "wellKeyed req k"
  shows "wellKeyed req (refEffect c k)"
proof (cases "requestCall c")
  case False
  then show ?thesis using assms aside_stored by (simp add: wellKeyed_def)
next
  case True
  have "wellKeyed req (snd (refUpdateRequest b u k))" for b u
    using assms
    by (auto simp: refUpdateRequest_def wellKeyed_def stored_def Let_def update_conv' split: option.split if_splits)
  with True show ?thesis by (cases c) simp_all
qed

lemma fold_keyed:
  "wellKeyed req (fst e) \<Longrightarrow> keepsKeys req (snd e) \<Longrightarrow> wellKeyed req (fst (fold amidEffect cs e))"
proof (induction cs arbitrary: e)
  case (Cons c cs)
  then have "wellKeyed req (fst (amidEffect c e))" "keepsKeys req (snd (amidEffect c e))"
    by (simp_all add: amidBy_def keepsKeys_def refEffect_keyed)
  with Cons.IH show ?case by simp
qed simp

text \<open>One run after the other, each with its own others: what the runs return.\<close>

fun retryRuns :: "(cluster \<times> others) KrknTargetRequestReconciler \<Rightarrow> nsname \<Rightarrow> others list \<Rightarrow> cluster \<Rightarrow> reconcileResult list" where
  "retryRuns r req [] k = []"
| "retryRuns r req (oth # os) k =
     (let (res, w) = run_state (TargetRequest_Reconcile interleavedApi r req) \<lparr>env = (k, oth), calls = []\<rparr>
      in res # retryRuns r req os (fst (env w)))"

lemma reconcile_follows: "defaultProbes r \<Longrightarrow> follows (TargetRequest_Reconcile interleavedApi r req)"
  unfolding TargetRequest_Reconcile_def initializeRequest_def initializeStatus_def
  by (intro amid_rules interleaved.follows_calls interleaved.follows_process)

lemma run_keyed:
  assumes "defaultProbes r" "wellKeyed req k" "keepsKeys req oth"
    and run: "run_state (TargetRequest_Reconcile interleavedApi r req) \<lparr>env = (k, oth), calls = []\<rparr> = (res, w)"
  shows "wellKeyed req (fst (env w))"
proof -
  from reconcile_follows[OF assms(1), of req] run obtain cs where "env w = fold amidEffect cs (k, oth)"
    unfolding followsBy_def by (metis snd_conv world.select_convs(1))
  with fold_keyed[of req "(k, oth)" cs] assms(2,3) show ?thesis by simp
qed

section \<open>Property\<close>

text \<open>
  C15. Retries are bounded by disturbances: a reconciliation asks for an immediate requeue only
  after an update lost to a newer version, and it never causes that itself.  In any sequence of
  runs, each amid others that do what they like with the cluster (short of filing a request under
  a wrong name), the runs that end with such a requeue are at most as many as the runs during which somebody else may
  have touched the request; left alone, the operator never spins.
\<close>

theorem requeues_bounded:
  assumes "defaultProbes r" "wellKeyed req k" "list_all (keepsKeys req) os"
  shows "length (filter (\<lambda>res. fst res = requeueNow) (retryRuns r req os k))
      \<le> length (filter (\<lambda>oth. \<not> leavesAlone req oth) os)"
  using assms(2,3)
proof (induction os arbitrary: k)
  case (Cons oth os)
  obtain res w where run: "run_state (TargetRequest_Reconcile interleavedApi r req) \<lparr>env = (k, oth), calls = []\<rparr> = (res, w)"
    by fastforce
  with leavesAlone_run[OF assms(1) Cons.prems(1), of oth] have "leavesAlone req oth \<Longrightarrow> fst res \<noteq> requeueNow"
    by (simp add: outcome_def)
  moreover have "wellKeyed req (fst (env w))"
    using run_keyed[OF assms(1) Cons.prems(1) _ run] Cons.prems(2) by simp
  note Cons.IH[OF this]
  ultimately show ?case using run Cons.prems(2) by auto
qed simp

text \<open>Three runs: one quiet, one amid an actor that removes every request, one quiet.\<close>

definition emptied :: others where
  "emptied n k = k\<lparr>kRequests := []\<rparr>"

lemma quiet: "leavesAlone req (\<lambda>n k. k)" "keepsKeys req (\<lambda>n k. k)" "keepsKeys req emptied"
  by (simp_all add: leavesAlone_def othersMove_def keepsRequest_def keepsKeys_def emptied_def wellKeyed_def stored_def)

theorem requeues_bounded_witness:
  "length (filter (\<lambda>res. fst res = requeueNow)
     (retryRuns plainReconciler (''krkn'', ''req'') [\<lambda>n k. k, emptied, \<lambda>n k. k] busyCluster)) \<le> 1"
proof -
  have "length (filter (\<lambda>oth. \<not> leavesAlone (''krkn'', ''req'') oth) [\<lambda>n k. k, emptied, \<lambda>n k. k]) \<le> 1"
    by (simp add: quiet)
  with requeues_bounded[OF busyCluster_facts(3,1), of "[\<lambda>n k. k, emptied, \<lambda>n k. k]"] show ?thesis
    by (simp add: quiet)
qed

end
