(* ===== verification/Spec2Isabelle.thy ===== *)
theory Spec2Isabelle
  imports Startup SecretWrites CallBounds PooledReconcile Settings ConfigRounds Requeue
begin

text \<open>
  A verification development of krkn-operator-acm, the operator that answers the target requests
  of krkn-operator with the clusters managed by Open Cluster Management (OCM, ACM).

  The program.  One process (\<^verbatim>\<open>cmd/main.go\<close>) runs three reconcilers of \<^verbatim>\<open>internal/controller\<close> and
  a loader.  A \<^verbatim>\<open>KrknTargetRequest\<close> is shared by all operators (providers): each active one lists
  its clusters, probes their API servers with a pool of eight goroutines, directly or through the
  cluster proxy, checks the credentials it found, stores kubeconfigs in a secret all operators
  share and its targets in the request's status, and the last one marks the request Completed.  A
  \<^verbatim>\<open>KrknOperatorTargetProviderConfig\<close> is answered with a form of one secret and one proxy switch
  per cluster; the answers come back in a ConfigMap that the third reconciler copies to the
  configstore, where the first two read them.

  How code is modelled.  A handler is a state transformer over a world: an environment of any
  type and the list of calls made so far.  Everything outside \<^verbatim>\<open>src\<close> that the code calls (the API
  server with all other actors, the network, clock, files, environment variables, the configstore,
  krkn-operator's helper packages, YAML and URL parsing) is the parameter record \<open>'e api\<close>: an
  answer per call and a new environment, so theorems without further hypotheses hold for every
  behaviour of the rest of the world between any two calls.  Errors are values of \<open>err\<close>, with
  wrapping and panics; Go maps keep nil and empty apart; early returns, conflicts and requeues are
  branches.  Hypotheses on the parameters state documented behaviour, and each theorem that has one
  comes with a witness on a concrete cluster (\<open>refApi\<close>, a cluster held in memory with resource
  versions and conflicts).

  Theories, in the order of the code they model.
  \<^item> \<^verbatim>\<open>Prelude\<close>: errors, Go maps, worlds, loops, and the calculi \<open>only\<close> (which calls a program
    makes) and \<open>yields\<close> (which values it returns), one rule per construct.
  \<^item> \<^verbatim>\<open>GoStrings\<close>, \<^verbatim>\<open>Json\<close>: what is used of strings, fmt, base64 and encoding/json, with round
    trips.  The JSON reader runs on fuel \<open>2 * length + 2\<close>; \<open>jsonParse_print\<close> shows that this is
    enough for every printed value.
  \<^item> \<^verbatim>\<open>Api\<close>, \<^verbatim>\<open>ReferenceApi\<close>: the objects, the calls and the parameter record; the concrete cluster.
  \<^item> \<^verbatim>\<open>ProviderHelpers\<close> (\<^verbatim>\<open>provider_helpers.go\<close>), \<^verbatim>\<open>ConfigStore\<close> (variable names and the decisions
    read from the configstore, of three files), \<^verbatim>\<open>ConfigMapController\<close> (\<^verbatim>\<open>configmap_controller.go\<close>),
    \<^verbatim>\<open>Liveness\<close> (\<^verbatim>\<open>cluster_liveness.go\<close>), \<^verbatim>\<open>Proxy\<close> (\<^verbatim>\<open>proxy_helpers.go\<close>).
  \<^item> \<^verbatim>\<open>Clusters\<close>, \<^verbatim>\<open>Probes\<close>, \<^verbatim>\<open>ClusterSecret\<close>, \<^verbatim>\<open>TargetRequest\<close>: \<^verbatim>\<open>krkntargetrequest_controller.go\<close>:
    decoding of managed clusters and their health, probing and the worker pool (bound 8, the code's
    \<^verbatim>\<open>maxConcurrentClusterProbes\<close>) as a step relation, kubeconfig and shared secret, and
    \<^verbatim>\<open>Reconcile\<close> cut at its own comments: \<open>initializeRequest\<close>, \<open>processRequest\<close>, \<open>awaitOthers\<close>,
    \<open>contributeTargets\<close>, \<open>reportProbes\<close>, \<open>publishTargets\<close>.
  \<^item> \<^verbatim>\<open>ProviderConfig\<close>: \<^verbatim>\<open>krknoperatortargetproviderconfig_controller.go\<close>.
  \<^item> \<^verbatim>\<open>OperatorMain\<close>, \<^verbatim>\<open>Startup\<close>: \<^verbatim>\<open>cmd/main.go\<close>: names and namespaces, the loader; flags and
    their parsing, TLS options in Go slices with their shared arrays, certificate watchers, the
    manager's options, and the order in which everything is added before the manager is started.
\<close>

text \<open>
  What is shown.
  \<^item> One reconciliation, any environment (\<^verbatim>\<open>TargetRequestProps\<close>, \<^verbatim>\<open>SecretWrites\<close>, \<^verbatim>\<open>CallBounds\<close>):
    what each branch may write, the secret before the status, complete and validated targets, no
    direct connection to a proxied cluster, secrets every operator can read, and at most
    \<open>14 * n + 9\<close> calls for \<open>n\<close> managed clusters.
  \<^item> Many operators, requests (\<^verbatim>\<open>Lifecycle\<close>, \<^verbatim>\<open>Interleaving\<close>, \<^verbatim>\<open>RelyGuarantee\<close>, \<^verbatim>\<open>Guarantee\<close>,
    \<^verbatim>\<open>Completion\<close>, \<^verbatim>\<open>Requeue\<close>): \<^verbatim>\<open>Lifecycle\<close> is the abstract contract of the protocol, a step relation with its
    invariant and a bound on its steps.  In \<open>interleavedApi\<close> other actors change the cluster before
    every single call of the code.  \<^verbatim>\<open>RelyGuarantee\<close> is a calculus of such programs, one rule per
    construct; \<^verbatim>\<open>Guarantee\<close> shows with it that every call of the reconciler is a step of the
    contract if the others keep it, that a request is completed once every active operator had a
    clean reconciliation, and that it settles; \<^verbatim>\<open>Completion\<close> shows that such reconciliations come
    about on a cluster that can be listed; \<^verbatim>\<open>Requeue\<close> bounds the immediate requeues after a
    conflict by the disturbances of others.  The list of providers is fixed there (\<open>steadyApi\<close>);
    without that a request may be completed by contributions of providers no longer active
    (\<open>completion_count_takes_inactive\<close>).
  \<^item> Many operators, configuration objects (\<^verbatim>\<open>ConfigLifecycle\<close>, \<^verbatim>\<open>ConfigGuarantee\<close>, \<^verbatim>\<open>ConfigRounds\<close>):
    the same for the other shared object, whose contract differs: contributing and completing are
    separate steps, a form may be written again, and Completed is not final
    (\<open>completed_config_rewritten\<close>).  \<^verbatim>\<open>provider.UpdateProviderConfig\<close> is a parameter there, with
    the laws \<open>config_contribution\<close> (it adds the operator's entry or fails and changes nothing) and
    \<open>reliable_contribution\<close> (it succeeds on the stored object).
  \<^item> Components together: a contribution with the worker pool in place of the sequential probes
    (\<^verbatim>\<open>PooledReconcile\<close>), and the way of a setting from the ConfigMap through the configstore to the
    reconciler's decisions (\<^verbatim>\<open>Settings\<close>, under the law \<open>config_sync\<close> of
    \<^verbatim>\<open>SyncConfigMapToStore\<close>).
  \<^item> Components: the secret as a state with one entry per operator (locale \<open>contributions\<close>, also
    interpreted on the target data), the pool's equivalence with probing in sequence, the liveness
    verdict and the proxy configuration against their specifications, the form's consistency, the
    configstore's variable names (locales \<open>cluster_variable\<close>, \<open>two_variables\<close>).
  \<^item> Start-up: HTTP/2 stays off unless asked for, each server serves its own certificate, the
    manager is started last, one namespace throughout.
  \<^item> Defects, as theorems on concrete runs: the first write to the secret can lose another
    operator's data, a ManifestWork created meanwhile is taken for an applied one, an operator
    renamed through its ConfigMap never contributes, a completed configuration object is rewritten.

  Interfaces.  \<open>liveness_probe\<close> and \<open>credential_probe\<close> are what the reconciler asks of its two
  probes, interpreted on the default ones; \<open>reconciler\<close> is what controller-runtime gets from the
  three reconcilers; \<open>acts_by_calls\<close>, \<open>steady_calls\<close> and \<open>config_calls\<close> are what the protocol proofs
  ask of an API server, interpreted on the interleaved and the steady one; \<open>config_contribution\<close>,
  \<open>reliable_contribution\<close> and \<open>config_sync\<close> are laws of krkn-operator's helpers, interpreted on the
  reference cluster.

  Not modelled.  Log calls; metrics; the type scheme of \<^verbatim>\<open>init\<close>; zap's options; the contexts and
  timeouts of calls beyond being passed on; controller-runtime's queue, cache and leader election,
  whose answers are parameters; \<^verbatim>\<open>provider.UpdateProviderConfig\<close>, \<^verbatim>\<open>CleanupOldResources\<close>,
  \<^verbatim>\<open>CheckClusterLiveness\<close>, \<^verbatim>\<open>SyncConfigMapToStore\<close> and the marshalling of form fields, which are
  krkn-operator's and parameters too; the proxy CA constants, which nothing reads; tests and
  deployment files.
\<close>

end
